theory Spec2Isabelle
  imports Complex_Main
begin

chapter \<open>Conditions and backtests over a price table\<close>

text \<open>
  A model of the condition engine (\<open>src/conditions.py\<close>) and of the backtest analyzer
  (\<open>src/backtest.py\<close>) of the Stock Technical Indicators Analysis Platform, and the
  properties that its specification states of them. Every function keeps the name it has
  in the source; an exception is a value \<open>Inl\<close> of a sum, and the logger, the one object
  that the analyzer changes, is passed in and out of the functions that log.
\<close>

section \<open>Numbers\<close>

text \<open>
  The price and indicator columns are float64 columns, and the arithmetic of
  \<open>backtest.py\<close> is numpy's. A value is a real number or one of the three special values of
  IEEE 754; rounding, overflow to infinity and the sign of zero are not modelled (\<open>0.0\<close> and
  \<open>-0.0\<close> are both \<open>Fin 0\<close>). What is modelled is what decides the branches of the code:
  comparisons with \<open>nan\<close> are false (except \<open>!=\<close>), and a division by zero does not raise
  but gives \<open>inf\<close>, \<open>-inf\<close> or \<open>nan\<close>.
\<close>

datatype pyfloat = Fin real | PInf | NInf | NaN

fun f_neg :: "pyfloat \<Rightarrow> pyfloat" where
  "f_neg (Fin a) = Fin (- a)"
| "f_neg PInf = NInf"
| "f_neg NInf = PInf"
| "f_neg NaN = NaN"

fun f_add :: "pyfloat \<Rightarrow> pyfloat \<Rightarrow> pyfloat" where
  "f_add (Fin a) (Fin b) = Fin (a + b)"
| "f_add (Fin a) PInf = PInf"
| "f_add (Fin a) NInf = NInf"
| "f_add PInf (Fin b) = PInf"
| "f_add PInf PInf = PInf"
| "f_add PInf NInf = NaN"
| "f_add NInf (Fin b) = NInf"
| "f_add NInf NInf = NInf"
| "f_add NInf PInf = NaN"
| "f_add NaN _ = NaN"
| "f_add _ NaN = NaN"

definition f_sub :: "pyfloat \<Rightarrow> pyfloat \<Rightarrow> pyfloat" where
  "f_sub a b = f_add a (f_neg b)"

fun f_div :: "pyfloat \<Rightarrow> pyfloat \<Rightarrow> pyfloat" where
  "f_div (Fin a) (Fin b) =
     (if b = 0 then (if a = 0 then NaN else if 0 < a then PInf else NInf)
      else Fin (a / b))"
| "f_div (Fin a) PInf = Fin 0"
| "f_div (Fin a) NInf = Fin 0"
| "f_div PInf (Fin b) = (if b < 0 then NInf else PInf)"
| "f_div NInf (Fin b) = (if b < 0 then PInf else NInf)"
| "f_div PInf PInf = NaN"
| "f_div PInf NInf = NaN"
| "f_div NInf PInf = NaN"
| "f_div NInf NInf = NaN"
| "f_div NaN _ = NaN"
| "f_div _ NaN = NaN"

text \<open>\<open>multiply(x, x)\<close>, the only product the code takes.\<close>

fun f_sq :: "pyfloat \<Rightarrow> pyfloat" where
  "f_sq (Fin a) = Fin (a * a)"
| "f_sq PInf = PInf"
| "f_sq NInf = PInf"
| "f_sq NaN = NaN"

fun f_sqrt :: "pyfloat \<Rightarrow> pyfloat" where
  "f_sqrt (Fin a) = (if a < 0 then NaN else Fin (sqrt a))"
| "f_sqrt PInf = PInf"
| "f_sqrt NInf = NaN"
| "f_sqrt NaN = NaN"

fun f_lt :: "pyfloat \<Rightarrow> pyfloat \<Rightarrow> bool" where
  "f_lt (Fin a) (Fin b) = (a < b)"
| "f_lt (Fin a) PInf = True"
| "f_lt NInf (Fin b) = True"
| "f_lt NInf PInf = True"
| "f_lt _ _ = False"

fun f_eq :: "pyfloat \<Rightarrow> pyfloat \<Rightarrow> bool" where
  "f_eq (Fin a) (Fin b) = (a = b)"
| "f_eq PInf PInf = True"
| "f_eq NInf NInf = True"
| "f_eq _ _ = False"

definition f_le :: "pyfloat \<Rightarrow> pyfloat \<Rightarrow> bool" where
  "f_le a b = (f_lt a b \<or> f_eq a b)"

definition f_gt :: "pyfloat \<Rightarrow> pyfloat \<Rightarrow> bool" where
  "f_gt a b = f_lt b a"

definition f_ge :: "pyfloat \<Rightarrow> pyfloat \<Rightarrow> bool" where
  "f_ge a b = f_le b a"

definition f_ne :: "pyfloat \<Rightarrow> pyfloat \<Rightarrow> bool" where
  "f_ne a b = (\<not> f_eq a b)"

text \<open>\<open>np.maximum\<close> and \<open>np.minimum\<close> of two values: a \<open>nan\<close> operand wins.\<close>

fun f_maximum :: "pyfloat \<Rightarrow> pyfloat \<Rightarrow> pyfloat" where
  "f_maximum NaN _ = NaN"
| "f_maximum _ NaN = NaN"
| "f_maximum a b = (if f_lt a b then b else a)"

fun f_minimum :: "pyfloat \<Rightarrow> pyfloat \<Rightarrow> pyfloat" where
  "f_minimum NaN _ = NaN"
| "f_minimum _ NaN = NaN"
| "f_minimum a b = (if f_lt b a then b else a)"

section \<open>The time series table\<close>

text \<open>
  A timestamp is an integer count of nanoseconds, as the \<open>value\<close> of a pandas timestamp is;
  \<open>timedelta(days=h)\<close> is \<open>h\<close> times the nanoseconds of a day. Timestamps and time
  differences of pandas are 64-bit counts, so the sum of a timestamp and a number of days
  can fail: \<open>add_days\<close> below.

  A DataFrame is its index and its named columns. pandas keeps every column as long as the
  index; \<open>wf_table\<close> says so, and says that the index is strictly increasing, which is the
  invariant of the spec's data model (unique, ascending timestamps). The lookups below are
  the pandas lookups on a table with unique labels.
\<close>

type_synonym timestamp = int

definition ns_per_day :: int where
  "ns_per_day = 86400000000000"

definition timedelta_days :: "int \<Rightarrow> int" where
  "timedelta_days h = h * ns_per_day"

record table =
  index :: "timestamp list"
  columns :: "(string \<times> pyfloat list) list"

definition wf_table :: "table \<Rightarrow> bool" where
  "wf_table d =
     (sorted_wrt (<) (index d) \<and> distinct (map fst (columns d)) \<and>
      list_all (\<lambda>kv. length (snd kv) = length (index d)) (columns d))"

text \<open>\<open>data.empty\<close>: one of the two axes has length 0.\<close>

definition df_empty :: "table \<Rightarrow> bool" where
  "df_empty d = (index d = [] \<or> columns d = [])"

text \<open>\<open>name in data.columns\<close> and \<open>data[name]\<close>.\<close>

definition has_column :: "table \<Rightarrow> string \<Rightarrow> bool" where
  "has_column d name = (map_of (columns d) name \<noteq> None)"

definition column :: "table \<Rightarrow> string \<Rightarrow> pyfloat list option" where
  "column d name = map_of (columns d) name"

text \<open>
  Every failure of the model is an exception of the source. \<open>KeyError\<close>,
  \<open>IndexError\<close> and the three failures of date arithmetic apart, each is raised as
  \<open>ValueError\<close> with a message; the constructor says which.
\<close>

datatype failure =
    EmptyData
  | MissingPriceColumn string
  | SignalFailed failure
  | MissingColumn string
  | MissingColumns "string list"
  | UnsupportedCrossType string
  | PatternFailed string
  | NotArity
  | Misaligned
  | KeyError
  | IndexError
  | OverflowError
  | OutOfBoundsTimedelta
  | OutOfBoundsDatetime

text \<open>
  \<open>signal_date + timedelta(days=h)\<close>. Python's \<open>timedelta\<close> takes at most 999999999 days
  in either direction and raises \<open>OverflowError\<close> beyond; pandas turns the difference
  into nanoseconds and adds it to the timestamp, and both the difference and the sum must
  lie from \<open>-(2^63 - 1)\<close> to \<open>2^63 - 1\<close> nanoseconds, or it raises
  \<open>OutOfBoundsTimedelta\<close> or \<open>OutOfBoundsDatetime\<close>. So a holding period beyond 106751
  days fails, and so does a target after the year 2262.
\<close>

definition ns_max :: int where
  "ns_max = 9223372036854775807"

definition in_ns_range :: "int \<Rightarrow> bool" where
  "in_ns_range x = (- ns_max \<le> x \<and> x \<le> ns_max)"

definition add_days :: "timestamp \<Rightarrow> int \<Rightarrow> failure + timestamp" where
  "add_days t h =
     (if h < - 999999999 \<or> 999999999 < h then Inl OverflowError
      else if \<not> in_ns_range (timedelta_days h) then Inl OutOfBoundsTimedelta
      else if \<not> in_ns_range (t + timedelta_days h) then Inl OutOfBoundsDatetime
      else Inr (t + timedelta_days h))"

text \<open>\<open>data.loc[t, name]\<close>: the value of column \<open>name\<close> in the row labelled \<open>t\<close>.\<close>

definition loc :: "table \<Rightarrow> timestamp \<Rightarrow> string \<Rightarrow> failure + pyfloat" where
  "loc d t name =
     (case column d name of
        None \<Rightarrow> Inl KeyError
      | Some vs \<Rightarrow>
          (case map_of (zip (index d) vs) t of
             None \<Rightarrow> Inl KeyError
           | Some v \<Rightarrow> Inr v))"

text \<open>\<open>data.iloc[-1][name]\<close>: the value of column \<open>name\<close> in the last row.\<close>

definition iloc_last :: "table \<Rightarrow> string \<Rightarrow> failure + pyfloat" where
  "iloc_last d name =
     (if index d = [] then Inl IndexError
      else (case column d name of
              None \<Rightarrow> Inl KeyError
            | Some vs \<Rightarrow> if vs = [] then Inl IndexError else Inr (last vs)))"

section \<open>Conditions\<close>

text \<open>
  A boolean Series carries its labels. Every condition of \<open>conditions.py\<close> but the
  pattern condition returns a series labelled by the index of the table; a pattern function
  is any function from the table to a series, or to the message of the exception it raises.
  A callable that keeps a state of its own, or that changes the table, comes with the
  conditions over callables, further down.
\<close>

type_synonym bool_series = "(timestamp \<times> bool) list"

datatype comparison_operator =
  GREATER_THAN | GREATER_EQUAL | LESS_THAN | LESS_EQUAL | EQUAL | NOT_EQUAL

datatype logic_operator = AND | OR | NOT

text \<open>The last field of each variant is the \<open>description\<close> attribute of the object.\<close>

datatype condition =
    NumericCompareCondition string comparison_operator pyfloat string
  | SignalCrossCondition string string string string
  | TechnicalPatternCondition string "table \<Rightarrow> string + bool_series" string
  | LogicCondition logic_operator "condition list" string

fun description :: "condition \<Rightarrow> string" where
  "description (NumericCompareCondition _ _ _ s) = s"
| "description (SignalCrossCondition _ _ _ s) = s"
| "description (TechnicalPatternCondition _ _ s) = s"
| "description (LogicCondition _ _ s) = s"

fun compare :: "comparison_operator \<Rightarrow> pyfloat \<Rightarrow> pyfloat \<Rightarrow> bool" where
  "compare GREATER_THAN x v = f_gt x v"
| "compare GREATER_EQUAL x v = f_ge x v"
| "compare LESS_THAN x v = f_lt x v"
| "compare LESS_EQUAL x v = f_le x v"
| "compare EQUAL x v = f_eq x v"
| "compare NOT_EQUAL x v = f_ne x v"

text \<open>\<open>series.shift(1)\<close>: every value moves one row down and the first row is \<open>nan\<close>.\<close>

definition shift1 :: "pyfloat list \<Rightarrow> pyfloat list" where
  "shift1 xs = (if xs = [] then [] else NaN # butlast xs)"

definition golden_cross :: "pyfloat list \<Rightarrow> pyfloat list \<Rightarrow> bool list" where
  "golden_cross fast slow =
     map2 (\<and>) (map2 f_gt fast slow) (map2 f_le (shift1 fast) (shift1 slow))"

definition death_cross :: "pyfloat list \<Rightarrow> pyfloat list \<Rightarrow> bool list" where
  "death_cross fast slow =
     map2 (\<and>) (map2 f_lt fast slow) (map2 f_ge (shift1 fast) (shift1 slow))"

text \<open>
  Modelled from the spec: \<open>&\<close> and \<open>|\<close> of pandas on two series whose labels differ.
  pandas realigns the operands; the spec (4.1) has a mismatch of the children's sequences as
  a failure, and so has the model. On equal labels the operation is row by row.
\<close>

definition series_op :: "(bool \<Rightarrow> bool \<Rightarrow> bool) \<Rightarrow> bool_series \<Rightarrow> bool_series \<Rightarrow> failure + bool_series" where
  "series_op f a b =
     (if map fst a = map fst b
      then Inr (zip (map fst a) (map2 f (map snd a) (map snd b)))
      else Inl Misaligned)"

fun series_fold :: "(bool \<Rightarrow> bool \<Rightarrow> bool) \<Rightarrow> bool_series \<Rightarrow> bool_series list \<Rightarrow> failure + bool_series" where
  "series_fold f acc [] = Inr acc"
| "series_fold f acc (r # rs) =
     (case series_op f acc r of
        Inl e \<Rightarrow> Inl e
      | Inr acc' \<Rightarrow> series_fold f acc' rs)"

definition series_not :: "bool_series \<Rightarrow> bool_series" where
  "series_not a = map (\<lambda>(t, b). (t, \<not> b)) a"

text \<open>A list comprehension over calls that may raise: the first exception ends it.\<close>

fun collect :: "('e + 'a) list \<Rightarrow> 'e + 'a list" where
  "collect [] = Inr []"
| "collect (Inl e # _) = Inl e"
| "collect (Inr x # rs) =
     (case collect rs of Inl e \<Rightarrow> Inl e | Inr xs \<Rightarrow> Inr (x # xs))"

fun evaluate :: "condition \<Rightarrow> table \<Rightarrow> failure + bool_series" where
  "evaluate (NumericCompareCondition col op v _) d =
     (case column d col of
        None \<Rightarrow> Inl (MissingColumn col)
      | Some series \<Rightarrow> Inr (zip (index d) (map (\<lambda>x. compare op x v) series)))"
| "evaluate (SignalCrossCondition fast_col slow_col cross_type _) d =
     (let missing_cols = filter (\<lambda>c. \<not> has_column d c) [fast_col, slow_col]
      in if missing_cols \<noteq> [] then Inl (MissingColumns missing_cols)
         else (case (column d fast_col, column d slow_col) of
                 (Some fast, Some slow) \<Rightarrow>
                   if cross_type = ''golden''
                   then Inr (zip (index d) (golden_cross fast slow))
                   else if cross_type = ''death''
                   then Inr (zip (index d) (death_cross fast slow))
                   else Inl (UnsupportedCrossType cross_type)
               | _ \<Rightarrow> Inl KeyError))"
| "evaluate (TechnicalPatternCondition _ pattern_func _) d =
     (case pattern_func d of
        Inl e \<Rightarrow> Inl (PatternFailed e)
      | Inr s \<Rightarrow> Inr s)"
| "evaluate (LogicCondition op conditions _) d =
     (if conditions = [] then Inr (zip (index d) (replicate (length (index d)) False))
      else (case collect (map (\<lambda>c. evaluate c d) conditions) of
              Inl e \<Rightarrow> Inl e
            | Inr results \<Rightarrow>
                (case op of
                   AND \<Rightarrow> series_fold (\<and>) (hd results) (tl results)
                 | OR \<Rightarrow> series_fold (\<or>) (hd results) (tl results)
                 | NOT \<Rightarrow>
                     if length conditions \<noteq> 1 then Inl NotArity
                     else Inr (series_not (hd results)))))"

section \<open>The backtest analyzer\<close>

record signal_event =
  timestamp :: timestamp
  signal_price :: pyfloat
  signal_type :: string
  condition_description :: string

text \<open>
  The values of the \<open>parameters\<close> dictionary of a result: a string, an integer, or the
  formatted pair of the first and the last label of the table (\<open>data_period\<close>).
\<close>

datatype param_value = PStr string | PInt int | PPeriod timestamp timestamp

record backtest_result =
  signals :: "signal_event list"
  returns :: "pyfloat list"
  holding_periods :: "int list"
  win_rate :: pyfloat
  avg_return :: pyfloat
  max_return :: pyfloat
  min_return :: pyfloat
  std_return :: pyfloat
  total_signals :: nat
  profitable_signals :: nat
  losing_signals :: nat
  avg_holding_period :: pyfloat
  parameters :: "(string \<times> param_value) list"

text \<open>
  The analyzer holds a logger and nothing else. The logger is the one object that a run
  changes, so it is threaded through the functions that log: what has been logged so far
  goes in, and comes out with the records of the call appended.
\<close>

datatype log_message =
    BacktestStarted int
  | SignalsFailed failure
  | NoSignalsFound
  | BacktestFinished nat pyfloat
  | SweepStarted nat
  | TestFinished nat nat
  | TestFailed nat nat failure

datatype log_record = INFO log_message | WARNING log_message | ERROR log_message

type_synonym logger = "log_record list"

definition calculate_signals :: "logger \<Rightarrow> table \<Rightarrow> condition \<Rightarrow> (failure + bool_series) \<times> logger" where
  "calculate_signals lg d c =
     (case evaluate c d of
        Inl e \<Rightarrow> (Inl (SignalFailed e), lg @ [ERROR (SignalsFailed e)])
      | Inr s \<Rightarrow> (Inr s, lg))"

definition find_target_price :: "table \<Rightarrow> timestamp \<Rightarrow> string \<Rightarrow> failure + pyfloat option" where
  "find_target_price d target_date price_column =
     (if target_date \<in> set (index d)
      then map_sum id Some (loc d target_date price_column)
      else (let available_dates = filter (\<lambda>t. target_date \<le> t) (index d)
            in if available_dates \<noteq> []
               then map_sum id Some (loc d (hd available_dates) price_column)
               else if \<not> df_empty d
               then map_sum id Some (iloc_last d price_column)
               else Inr None))"

text \<open>
  The loop of \<open>_calculate_signal_returns\<close> over the signal dates; the accumulator is the
  three lists that the loop appends to.
\<close>

fun signal_returns_loop ::
  "table \<Rightarrow> int \<Rightarrow> string \<Rightarrow> timestamp list \<Rightarrow>
   signal_event list \<times> pyfloat list \<times> int list \<Rightarrow>
   failure + signal_event list \<times> pyfloat list \<times> int list" where
  "signal_returns_loop d holding_period price_column [] acc = Inr acc"
| "signal_returns_loop d holding_period price_column (signal_date # rest) (evs, rets, hps) =
     (if signal_date \<notin> set (index d)
      then signal_returns_loop d holding_period price_column rest (evs, rets, hps)
      else (case loc d signal_date price_column of
              Inl e \<Rightarrow> Inl e
            | Inr sig_price \<Rightarrow>
                (case add_days signal_date holding_period of
                   Inl e \<Rightarrow> Inl e
                 | Inr target_date \<Rightarrow>
                     (case find_target_price d target_date price_column of
                        Inl e \<Rightarrow> Inl e
                      | Inr None \<Rightarrow>
                          signal_returns_loop d holding_period price_column rest (evs, rets, hps)
                      | Inr (Some target_price) \<Rightarrow>
                          signal_returns_loop d holding_period price_column rest
                            (evs @ [\<lparr>timestamp = signal_date, signal_price = sig_price,
                                     signal_type = ''buy'', condition_description = []\<rparr>],
                             rets @ [f_div (f_sub target_price sig_price) sig_price],
                             hps @ [holding_period])))))"

definition calculate_signal_returns ::
  "table \<Rightarrow> bool_series \<Rightarrow> int \<Rightarrow> string \<Rightarrow>
   failure + signal_event list \<times> pyfloat list \<times> int list" where
  "calculate_signal_returns d sigs holding_period price_column =
     signal_returns_loop d holding_period price_column
       (map fst (filter snd sigs)) ([], [], [])"

subsection \<open>Statistics\<close>

definition np_sum :: "pyfloat list \<Rightarrow> pyfloat" where
  "np_sum xs = foldl f_add (Fin 0) xs"

definition np_mean :: "pyfloat list \<Rightarrow> pyfloat" where
  "np_mean xs = f_div (np_sum xs) (Fin (real (length xs)))"

text \<open>\<open>np.max\<close> and \<open>np.min\<close> of the non-empty array \<open>x # xs\<close>.\<close>

definition np_max :: "pyfloat \<Rightarrow> pyfloat list \<Rightarrow> pyfloat" where
  "np_max x xs = foldl f_maximum x xs"

definition np_min :: "pyfloat \<Rightarrow> pyfloat list \<Rightarrow> pyfloat" where
  "np_min x xs = foldl f_minimum x xs"

text \<open>
  \<open>np.std(a, ddof)\<close>: the root of the sum of the squared deviations from the mean over
  \<open>max(N - ddof, 0)\<close>. The code calls it with the default, \<open>ddof = 0\<close>.
\<close>

definition np_std :: "int \<Rightarrow> pyfloat list \<Rightarrow> pyfloat" where
  "np_std ddof xs =
     (let arrmean = np_mean xs;
          x = map (\<lambda>a. f_sq (f_sub a arrmean)) xs;
          rcount = max (int (length xs) - ddof) 0
      in f_sqrt (f_div (np_sum x) (Fin (real_of_int rcount))))"

record statistics =
  st_win_rate :: pyfloat
  st_avg_return :: pyfloat
  st_max_return :: pyfloat
  st_min_return :: pyfloat
  st_std_return :: pyfloat
  st_profitable_count :: nat
  st_losing_count :: nat
  st_avg_holding_period :: pyfloat

definition calculate_statistics :: "pyfloat list \<Rightarrow> int list \<Rightarrow> statistics" where
  "calculate_statistics rets hps =
     (case rets of
        [] \<Rightarrow>
          \<lparr>st_win_rate = Fin 0, st_avg_return = Fin 0, st_max_return = Fin 0,
           st_min_return = Fin 0, st_std_return = Fin 0, st_profitable_count = 0,
           st_losing_count = 0, st_avg_holding_period = Fin 0\<rparr>
      | r # rs \<Rightarrow>
          (let profitable_count = length (filter (\<lambda>x. f_gt x (Fin 0)) rets);
               losing_count = length (filter (\<lambda>x. f_lt x (Fin 0)) rets)
           in \<lparr>st_win_rate = Fin (real profitable_count / real (length rets)),
               st_avg_return = np_mean rets,
               st_max_return = np_max r rs,
               st_min_return = np_min r rs,
               st_std_return = np_std 0 rets,
               st_profitable_count = profitable_count,
               st_losing_count = losing_count,
               st_avg_holding_period =
                 (if hps \<noteq> [] then np_mean (map (\<lambda>h. Fin (real_of_int h)) hps) else Fin 0)\<rparr>))"

definition create_empty_result :: "condition \<Rightarrow> int \<Rightarrow> backtest_result" where
  "create_empty_result c holding_period =
     \<lparr>signals = [], returns = [], holding_periods = [],
      win_rate = Fin 0, avg_return = Fin 0, max_return = Fin 0, min_return = Fin 0,
      std_return = Fin 0, total_signals = 0, profitable_signals = 0, losing_signals = 0,
      avg_holding_period = Fin 0,
      parameters = [(''condition'', PStr (description c)),
                    (''holding_period'', PInt holding_period),
                    (''note'', PStr ''No signals found'')]\<rparr>"

subsection \<open>One run\<close>

definition run_backtest ::
  "logger \<Rightarrow> table \<Rightarrow> condition \<Rightarrow> int \<Rightarrow> string \<Rightarrow> (failure + backtest_result) \<times> logger" where
  "run_backtest lg d c holding_period price_column =
     (if df_empty d then (Inl EmptyData, lg)
      else if \<not> has_column d price_column then (Inl (MissingPriceColumn price_column), lg)
      else (let lg1 = lg @ [INFO (BacktestStarted holding_period)]
            in case calculate_signals lg1 d c of
                 (Inl e, lg2) \<Rightarrow> (Inl e, lg2)
               | (Inr sigs, lg2) \<Rightarrow>
                   if \<not> list_ex snd sigs
                   then (Inr (create_empty_result c holding_period), lg2 @ [WARNING NoSignalsFound])
                   else (case calculate_signal_returns d sigs holding_period price_column of
                           Inl e \<Rightarrow> (Inl e, lg2)
                         | Inr (signal_events, rets, hps) \<Rightarrow>
                             (let stats = calculate_statistics rets hps;
                                  result =
                                    \<lparr>signals = signal_events, returns = rets,
                                     holding_periods = hps,
                                     win_rate = st_win_rate stats,
                                     avg_return = st_avg_return stats,
                                     max_return = st_max_return stats,
                                     min_return = st_min_return stats,
                                     std_return = st_std_return stats,
                                     total_signals = length rets,
                                     profitable_signals = st_profitable_count stats,
                                     losing_signals = st_losing_count stats,
                                     avg_holding_period = st_avg_holding_period stats,
                                     parameters =
                                       [(''condition'', PStr (description c)),
                                        (''holding_period'', PInt holding_period),
                                        (''price_column'', PStr price_column),
                                        (''data_period'',
                                           PPeriod (hd (index d)) (last (index d)))]\<rparr>
                              in (Inr result,
                                  lg2 @ [INFO (BacktestFinished (total_signals result)
                                                 (win_rate result))])))))"

subsection \<open>A sweep\<close>

text \<open>
  The state of the nested iteration of \<open>run_multiple_backtests\<close>: the results so far, the
  counter of the tests and the logger. A run that raises is logged and left out.
\<close>

fun sweep_periods ::
  "table \<Rightarrow> nat \<Rightarrow> condition \<Rightarrow> int list \<Rightarrow>
   backtest_result list \<times> nat \<times> logger \<Rightarrow> backtest_result list \<times> nat \<times> logger" where
  "sweep_periods d total_tests c [] st = st"
| "sweep_periods d total_tests c (holding_period # rest) (results, test_count, lg) =
     (let test_count' = test_count + 1
      in case run_backtest lg d c holding_period ''close'' of
           (Inr result, lg') \<Rightarrow>
             sweep_periods d total_tests c rest
               (results @ [result], test_count',
                lg' @ [INFO (TestFinished test_count' total_tests)])
         | (Inl e, lg') \<Rightarrow>
             sweep_periods d total_tests c rest
               (results, test_count',
                lg' @ [ERROR (TestFailed test_count' total_tests e)]))"

fun sweep_conditions ::
  "table \<Rightarrow> nat \<Rightarrow> condition list \<Rightarrow> int list \<Rightarrow>
   backtest_result list \<times> nat \<times> logger \<Rightarrow> backtest_result list \<times> nat \<times> logger" where
  "sweep_conditions d total_tests [] hps st = st"
| "sweep_conditions d total_tests (c # cs) hps st =
     sweep_conditions d total_tests cs hps (sweep_periods d total_tests c hps st)"

definition run_multiple_backtests ::
  "logger \<Rightarrow> table \<Rightarrow> condition list \<Rightarrow> int list option \<Rightarrow> backtest_result list \<times> logger" where
  "run_multiple_backtests lg d conditions holding_periods_arg =
     (let hps = (case holding_periods_arg of None \<Rightarrow> [3, 5, 10, 20] | Some l \<Rightarrow> l);
          total_tests = length conditions * length hps;
          lg1 = lg @ [INFO (SweepStarted total_tests)]
      in case sweep_conditions d total_tests conditions hps ([], 0, lg1) of
           (results, _, lg2) \<Rightarrow> (results, lg2))"

section \<open>The text-condition parser\<close>

text \<open>
  Strings are ASCII here: a character is a space, a digit or a word character as Python's
  \<open>str.strip\<close> and the classes \<open>\s\<close>, \<open>\d\<close> and \<open>\w\<close> of \<open>re\<close> have it for the code points
  below 128.
\<close>

definition is_space :: "char \<Rightarrow> bool" where
  "is_space c = (let n = (of_char c :: nat) in (9 \<le> n \<and> n \<le> 13) \<or> (28 \<le> n \<and> n \<le> 32))"

definition is_digit :: "char \<Rightarrow> bool" where
  "is_digit c = (let n = (of_char c :: nat) in 48 \<le> n \<and> n \<le> 57)"

definition is_word :: "char \<Rightarrow> bool" where
  "is_word c =
     (let n = (of_char c :: nat)
      in (48 \<le> n \<and> n \<le> 57) \<or> (65 \<le> n \<and> n \<le> 90) \<or> n = 95 \<or> (97 \<le> n \<and> n \<le> 122))"

text \<open>The class \<open>[-\d\.]\<close> of the pattern.\<close>

definition is_value_char :: "char \<Rightarrow> bool" where
  "is_value_char c = (c = CHR ''-'' \<or> is_digit c \<or> c = CHR ''.'')"

definition strip :: "string \<Rightarrow> string" where
  "strip s = rev (dropWhile is_space (rev (dropWhile is_space s)))"

definition starts_with :: "string \<Rightarrow> string \<Rightarrow> bool" where
  "starts_with p s = (take (length p) s = p)"

definition ends_with :: "string \<Rightarrow> string \<Rightarrow> bool" where
  "ends_with p s = starts_with (rev p) (rev s)"

text \<open>\<open>sep in s\<close>.\<close>

fun contains :: "string \<Rightarrow> string \<Rightarrow> bool" where
  "contains sep [] = (sep = [])"
| "contains sep (c # cs) = (starts_with sep (c # cs) \<or> contains sep cs)"

text \<open>
  \<open>s.split(sep)\<close> for a separator that is not empty (the code splits on \<open>" AND "\<close> and on
  \<open>" OR "\<close>): the string is cut at every occurrence of the separator, found from the left;
  \<open>acc\<close> is the part read since the last cut.
\<close>

fun py_split_from :: "string \<Rightarrow> string \<Rightarrow> string \<Rightarrow> string list" where
  "py_split_from sep acc [] = [acc]"
| "py_split_from sep acc (c # cs) =
     (if starts_with sep (c # cs)
      then acc # py_split_from sep [] (drop (length sep - 1) cs)
      else py_split_from sep (acc @ [c]) cs)"

definition py_split :: "string \<Rightarrow> string \<Rightarrow> string list" where
  "py_split sep s = py_split_from sep [] s"

text \<open>\<open>sep.join(parts)\<close>.\<close>

fun join :: "string \<Rightarrow> string list \<Rightarrow> string" where
  "join sep [] = []"
| "join sep [x] = x"
| "join sep (x # y # ys) = x @ sep @ join sep (y # ys)"

subsection \<open>Numbers\<close>

text \<open>
  \<open>float(value_str)\<close> on a string of the class \<open>[-\d\.]+\<close>: an optional minus sign, then
  digits with at most one point and at least one digit. Anything else raises
  \<open>ValueError\<close>, here \<open>None\<close>. The value is the real number written; its rounding to a
  float64, and the \<open>inf\<close> that Python gives for a number too large, are not modelled.
\<close>

definition digits_value :: "string \<Rightarrow> nat" where
  "digits_value ds = foldl (\<lambda>n c. 10 * n + (of_char c - 48)) 0 ds"

definition unsigned_float :: "string \<Rightarrow> real option" where
  "unsigned_float s =
     (let ip = takeWhile is_digit s; rest = dropWhile is_digit s
      in if rest = [] then (if ip = [] then None else Some (real (digits_value ip)))
         else if hd rest = CHR ''.'' \<and> list_all is_digit (tl rest) \<and> (ip \<noteq> [] \<or> tl rest \<noteq> [])
         then Some (real (digits_value ip) + real (digits_value (tl rest)) / 10 ^ length (tl rest))
         else None)"

definition py_float :: "string \<Rightarrow> real option" where
  "py_float s =
     (if starts_with ''-'' s then map_option uminus (unsigned_float (tl s))
      else unsigned_float s)"

subsection \<open>Construction of conditions\<close>

text \<open>
  The constructors fill in the description that the caller leaves empty. The description
  of a numeric comparison holds the threshold as Python formats a float; the formatting is
  the parameter \<open>fmt\<close>.
\<close>

fun operator_value :: "comparison_operator \<Rightarrow> string" where
  "operator_value GREATER_THAN = ''>''"
| "operator_value GREATER_EQUAL = ''>=''"
| "operator_value LESS_THAN = ''<''"
| "operator_value LESS_EQUAL = ''<=''"
| "operator_value EQUAL = ''==''"
| "operator_value NOT_EQUAL = ''!=''"

text \<open>\<open>ComparisonOperator(operator)\<close>: the member with that value, if any.\<close>

definition comparison_operator_of :: "string \<Rightarrow> comparison_operator option" where
  "comparison_operator_of s =
     (if s = ''>'' then Some GREATER_THAN
      else if s = ''>='' then Some GREATER_EQUAL
      else if s = ''<'' then Some LESS_THAN
      else if s = ''<='' then Some LESS_EQUAL
      else if s = ''=='' then Some EQUAL
      else if s = ''!='' then Some NOT_EQUAL
      else None)"

fun logic_value :: "logic_operator \<Rightarrow> string" where
  "logic_value AND = ''AND''"
| "logic_value OR = ''OR''"
| "logic_value NOT = ''NOT''"

definition numeric_compare_condition ::
  "(pyfloat \<Rightarrow> string) \<Rightarrow> string \<Rightarrow> comparison_operator \<Rightarrow> pyfloat \<Rightarrow> condition" where
  "numeric_compare_condition fmt col op v =
     NumericCompareCondition col op v (col @ '' '' @ operator_value op @ '' '' @ fmt v)"

definition logic_condition :: "logic_operator \<Rightarrow> condition list \<Rightarrow> condition" where
  "logic_condition op conditions =
     LogicCondition op conditions
       (join ('' '' @ logic_value op @ '' '') (map description conditions))"

text \<open>
  The failures of the parser. Each is a \<open>ValueError\<close>; \<open>ParseFailed s e\<close> is the one that
  \<open>parse_condition_string\<close> raises for the exception \<open>e\<close> caught in its body, and its
  message names the string \<open>s\<close> that was being parsed.
\<close>

datatype parse_error =
    ParseFailed string parse_error
  | InvalidFormat string
  | InvalidNumber string
  | UnsupportedOperator string
  | TooFewConditions logic_operator

definition create_numeric_condition ::
  "(pyfloat \<Rightarrow> string) \<Rightarrow> string \<Rightarrow> string \<Rightarrow> pyfloat \<Rightarrow> parse_error + condition" where
  "create_numeric_condition fmt col operator v =
     (case comparison_operator_of operator of
        None \<Rightarrow> Inl (UnsupportedOperator operator)
      | Some op \<Rightarrow> Inr (numeric_compare_condition fmt col op v))"

definition create_and_condition :: "condition list \<Rightarrow> parse_error + condition" where
  "create_and_condition conditions =
     (if length conditions < 2 then Inl (TooFewConditions AND)
      else Inr (logic_condition AND conditions))"

definition create_or_condition :: "condition list \<Rightarrow> parse_error + condition" where
  "create_or_condition conditions =
     (if length conditions < 2 then Inl (TooFewConditions OR)
      else Inr (logic_condition OR conditions))"

definition create_not_condition :: "condition \<Rightarrow> condition" where
  "create_not_condition c = logic_condition NOT [c]"

subsection \<open>Atomic comparisons\<close>

text \<open>
  The pattern of \<open>_parse_numeric_condition\<close> is
  \<^verbatim>\<open>^(\w+)\s*(>=|<=|>|<|==|!=)\s*([-\d\.]+)$\<close>. No choice of the matcher is open: a word
  character can be followed neither by \<open>\s\<close> nor by an operator, so \<open>\w+\<close> takes every word
  character; a space is neither an operator nor a value character, so each \<open>\s*\<close> takes
  every space; and after \<open>>\<close> or \<open><\<close> an \<open>=\<close> is part of the operator, since it cannot
  start the value. \<open>match_operator\<close> tries the alternatives in the order of the pattern;
  \<open>match_numeric\<close> gives the three groups of the match.
\<close>

definition match_operator :: "string \<Rightarrow> (string \<times> string) option" where
  "match_operator s =
     (if starts_with ''>='' s then Some (''>='', drop 2 s)
      else if starts_with ''<='' s then Some (''<='', drop 2 s)
      else if starts_with ''>'' s then Some (''>'', drop 1 s)
      else if starts_with ''<'' s then Some (''<'', drop 1 s)
      else if starts_with ''=='' s then Some (''=='', drop 2 s)
      else if starts_with ''!='' s then Some (''!='', drop 2 s)
      else None)"

definition match_numeric :: "string \<Rightarrow> (string \<times> string \<times> string) option" where
  "match_numeric s =
     (let col = takeWhile is_word s;
          after_columnumn = dropWhile is_space (dropWhile is_word s)
      in if col = [] then None
         else (case match_operator after_columnumn of
                 None \<Rightarrow> None
               | Some (operator, after_operator) \<Rightarrow>
                   (let value_str = dropWhile is_space after_operator
                    in if value_str \<noteq> [] \<and> list_all is_value_char value_str
                       then Some (col, operator, value_str)
                       else None)))"

definition parse_numeric_condition :: "(pyfloat \<Rightarrow> string) \<Rightarrow> string \<Rightarrow> parse_error + condition" where
  "parse_numeric_condition fmt condition_str =
     (case match_numeric (strip condition_str) of
        None \<Rightarrow> Inl (InvalidFormat condition_str)
      | Some (col, operator, value_str) \<Rightarrow>
          (case py_float value_str of
             None \<Rightarrow> Inl (InvalidNumber value_str)
           | Some v \<Rightarrow> create_numeric_condition fmt col operator (Fin v)))"

subsection \<open>Condition strings\<close>

text \<open>\<open>except Exception as e: raise ValueError(...)\<close> around the body of the parser.\<close>

definition reraise :: "string \<Rightarrow> parse_error + condition \<Rightarrow> parse_error + condition" where
  "reraise condition_str r =
     (case r of Inl e \<Rightarrow> Inl (ParseFailed condition_str e) | Inr c \<Rightarrow> Inr c)"

lemma strip_length: "length (strip s) \<le> length s"
proof -
  have "length (strip s) \<le> length (dropWhile is_space s)"
    unfolding strip_def using length_dropWhile_le [of is_space "rev (dropWhile is_space s)"]
    by simp
  also have "\<dots> \<le> length s" by (rule length_dropWhile_le)
  finally show ?thesis .
qed

lemma py_split_from_length:
  "p \<in> set (py_split_from sep acc s) \<Longrightarrow> length p \<le> length acc + length s"
proof (induction sep acc s rule: py_split_from.induct)
  case (1 sep acc)
  then show ?case by simp
next
  case (2 sep acc c cs)
  show ?case
  proof (cases "starts_with sep (c # cs)")
    case True
    with "2.prems" have "p = acc \<or> p \<in> set (py_split_from sep [] (drop (length sep - 1) cs))"
      by simp
    then show ?thesis
    proof
      assume "p = acc"
      then show ?thesis by simp
    next
      assume "p \<in> set (py_split_from sep [] (drop (length sep - 1) cs))"
      from "2.IH"(1) [OF True this] show ?thesis by simp
    qed
  next
    case False
    with "2.prems" have "p \<in> set (py_split_from sep (acc @ [c]) cs)" by simp
    from "2.IH"(2) [OF False this] show ?thesis by simp
  qed
qed

lemma py_split_from_shorter:
  "contains sep s \<Longrightarrow> sep \<noteq> [] \<Longrightarrow> p \<in> set (py_split_from sep acc s) \<Longrightarrow>
   length p < length acc + length s"
proof (induction sep acc s rule: py_split_from.induct)
  case (1 sep acc)
  then show ?case by simp
next
  case (2 sep acc c cs)
  show ?case
  proof (cases "starts_with sep (c # cs)")
    case True
    with "2.prems"(3) have "p = acc \<or> p \<in> set (py_split_from sep [] (drop (length sep - 1) cs))"
      by simp
    then show ?thesis
    proof
      assume "p = acc"
      then show ?thesis by simp
    next
      assume "p \<in> set (py_split_from sep [] (drop (length sep - 1) cs))"
      from py_split_from_length [OF this] show ?thesis by simp
    qed
  next
    case False
    with "2.prems" have "contains sep cs" and "p \<in> set (py_split_from sep (acc @ [c]) cs)"
      by simp_all
    from "2.IH"(2) [OF False this(1) "2.prems"(2) this(2)] show ?thesis by simp
  qed
qed

lemma py_split_shorter:
  "contains sep s \<Longrightarrow> sep \<noteq> [] \<Longrightarrow> p \<in> set (py_split sep s) \<Longrightarrow> length p < length s"
  using py_split_from_shorter [of sep s p "[]"] by (simp add: py_split_def)

function parse_condition_string :: "(pyfloat \<Rightarrow> string) \<Rightarrow> string \<Rightarrow> parse_error + condition" where
  "parse_condition_string fmt s =
     (let condition_str = strip s
      in reraise condition_str
           (if starts_with ''NOT '' condition_str
            then (case parse_condition_string fmt (strip (drop 4 condition_str)) of
                    Inl e \<Rightarrow> Inl e
                  | Inr inner_condition \<Rightarrow> Inr (create_not_condition inner_condition))
            else if starts_with ''('' condition_str \<and> ends_with '')'' condition_str
            then parse_condition_string fmt (strip (butlast (tl condition_str)))
            else if contains '' AND '' condition_str
            then (case collect (map (parse_condition_string fmt)
                                  (map strip (py_split '' AND '' condition_str))) of
                    Inl e \<Rightarrow> Inl e
                  | Inr conditions \<Rightarrow> create_and_condition conditions)
            else if contains '' OR '' condition_str
            then (case collect (map (parse_condition_string fmt)
                                  (map strip (py_split '' OR '' condition_str))) of
                    Inl e \<Rightarrow> Inl e
                  | Inr conditions \<Rightarrow> create_or_condition conditions)
            else parse_numeric_condition fmt condition_str))"
  by pat_completeness auto
termination
proof (relation "measure (\<lambda>(fmt, s). length s)", goal_cases)
  case 1
  show ?case by simp
next
  case (2 fmt s cs)
  then have "4 \<le> length cs"
    by (auto simp: starts_with_def dest: arg_cong [where f = length])
  then have "length (strip (drop 4 cs)) < length cs"
    using strip_length [of "drop 4 cs"] by simp
  with 2 show ?case using strip_length [of s] by simp
next
  case (3 fmt s cs)
  then have "cs \<noteq> []" by (auto simp: starts_with_def)
  then have "length (strip (butlast (tl cs))) < length cs"
    using strip_length [of "butlast (tl cs)"] by (cases cs) simp_all
  with 3 show ?case using strip_length [of s] by simp
next
  case (4 fmt s cs p)
  then obtain q where q: "q \<in> set (py_split '' AND '' cs)" and p: "p = strip q" by auto
  from 4 have c: "contains '' AND '' cs" and cs: "cs = strip s" by simp_all
  from py_split_shorter [OF c _ q] have "length q < length cs" by simp
  with p strip_length [of q] strip_length [of s] cs show ?case by simp
next
  case (5 fmt s cs p)
  then obtain q where q: "q \<in> set (py_split '' OR '' cs)" and p: "p = strip q" by auto
  from 5 have c: "contains '' OR '' cs" and cs: "cs = strip s" by simp_all
  from py_split_shorter [OF c _ q] have "length q < length cs" by simp
  with p strip_length [of q] strip_length [of s] cs show ?case by simp
qed

declare parse_condition_string.simps [simp del]

section \<open>Pattern callables with state\<close>

text \<open>
  The pattern function of a \<open>TechnicalPatternCondition\<close> is any Python callable. Above it
  is a function of the table. A callable can do more: it can keep a state from one call to
  the next, and it can change the DataFrame that it is given. Here a callable takes the
  table and the state outside the analyzer, and gives its result together with the table
  and the state as it leaves them; conditions are the same four classes over such
  callables, and their evaluation and the run pass the table and the state along, in the
  order in which the source calls the children of a logic condition and the callables.
  The conditions above are those whose callables leave the table and the state alone and
  do not read the state: \<open>as_stateful\<close>.
\<close>

type_synonym 's callable = "table \<Rightarrow> 's \<Rightarrow> (string + bool_series) \<times> table \<times> 's"

datatype 's stateful_condition =
    StatefulNumericCompare string comparison_operator pyfloat string
  | StatefulSignalCross string string string string
  | StatefulTechnicalPattern string "'s callable" string
  | StatefulLogic logic_operator "'s stateful_condition list" string

fun stateful_description :: "'s stateful_condition \<Rightarrow> string" where
  "stateful_description (StatefulNumericCompare _ _ _ s) = s"
| "stateful_description (StatefulSignalCross _ _ _ s) = s"
| "stateful_description (StatefulTechnicalPattern _ _ s) = s"
| "stateful_description (StatefulLogic _ _ s) = s"

text \<open>The end of \<open>LogicCondition.evaluate\<close>, once the children have been evaluated.\<close>

definition combine_results :: "logic_operator \<Rightarrow> nat \<Rightarrow> bool_series list \<Rightarrow> failure + bool_series" where
  "combine_results op n results =
     (case op of
        AND \<Rightarrow> series_fold (\<and>) (hd results) (tl results)
      | OR \<Rightarrow> series_fold (\<or>) (hd results) (tl results)
      | NOT \<Rightarrow> if n \<noteq> 1 then Inl NotArity else Inr (series_not (hd results)))"

fun evaluate_stateful ::
    "'s stateful_condition \<Rightarrow> table \<Rightarrow> 's \<Rightarrow> (failure + bool_series) \<times> table \<times> 's"
  and evaluate_children ::
    "'s stateful_condition list \<Rightarrow> table \<Rightarrow> 's \<Rightarrow> (failure + bool_series list) \<times> table \<times> 's"
where
  "evaluate_stateful (StatefulNumericCompare col op v desc) d s =
     (evaluate (NumericCompareCondition col op v desc) d, d, s)"
| "evaluate_stateful (StatefulSignalCross fast_col slow_col cross_type desc) d s =
     (evaluate (SignalCrossCondition fast_col slow_col cross_type desc) d, d, s)"
| "evaluate_stateful (StatefulTechnicalPattern _ pattern_func _) d s =
     (case pattern_func d s of
        (Inl e, d', s') \<Rightarrow> (Inl (PatternFailed e), d', s')
      | (Inr r, d', s') \<Rightarrow> (Inr r, d', s'))"
| "evaluate_stateful (StatefulLogic op conditions _) d s =
     (if conditions = [] then (Inr (zip (index d) (replicate (length (index d)) False)), d, s)
      else (case evaluate_children conditions d s of
              (Inl e, d', s') \<Rightarrow> (Inl e, d', s')
            | (Inr results, d', s') \<Rightarrow>
                (combine_results op (length conditions) results, d', s')))"
| "evaluate_children [] d s = (Inr [], d, s)"
| "evaluate_children (c # cs) d s =
     (case evaluate_stateful c d s of
        (Inl e, d', s') \<Rightarrow> (Inl e, d', s')
      | (Inr r, d', s') \<Rightarrow>
          (case evaluate_children cs d' s' of
             (Inl e, d'', s'') \<Rightarrow> (Inl e, d'', s'')
           | (Inr rs, d'', s'') \<Rightarrow> (Inr (r # rs), d'', s'')))"

text \<open>
  \<open>run_backtest\<close> with such a condition. The table that the callables leave is the table
  that the rest of the run reads, since it is the same object.
\<close>

definition run_backtest_stateful ::
  "logger \<Rightarrow> table \<Rightarrow> 's stateful_condition \<Rightarrow> int \<Rightarrow> string \<Rightarrow> 's \<Rightarrow>
   (failure + backtest_result) \<times> logger \<times> table \<times> 's" where
  "run_backtest_stateful lg d c holding_period price_column s =
     (if df_empty d then (Inl EmptyData, lg, d, s)
      else if \<not> has_column d price_column then (Inl (MissingPriceColumn price_column), lg, d, s)
      else (let lg1 = lg @ [INFO (BacktestStarted holding_period)]
            in case evaluate_stateful c d s of
                 (Inl e, d', s') \<Rightarrow>
                   (Inl (SignalFailed e), lg1 @ [ERROR (SignalsFailed e)], d', s')
               | (Inr sigs, d', s') \<Rightarrow>
                   if \<not> list_ex snd sigs
                   then (Inr \<lparr>signals = [], returns = [], holding_periods = [],
                              win_rate = Fin 0, avg_return = Fin 0, max_return = Fin 0,
                              min_return = Fin 0, std_return = Fin 0, total_signals = 0,
                              profitable_signals = 0, losing_signals = 0,
                              avg_holding_period = Fin 0,
                              parameters = [(''condition'', PStr (stateful_description c)),
                                            (''holding_period'', PInt holding_period),
                                            (''note'', PStr ''No signals found'')]\<rparr>,
                         lg1 @ [WARNING NoSignalsFound], d', s')
                   else (case calculate_signal_returns d' sigs holding_period price_column of
                           Inl e \<Rightarrow> (Inl e, lg1, d', s')
                         | Inr (signal_events, rets, hps) \<Rightarrow>
                             (let stats = calculate_statistics rets hps;
                                  result =
                                    \<lparr>signals = signal_events, returns = rets,
                                     holding_periods = hps,
                                     win_rate = st_win_rate stats,
                                     avg_return = st_avg_return stats,
                                     max_return = st_max_return stats,
                                     min_return = st_min_return stats,
                                     std_return = st_std_return stats,
                                     total_signals = length rets,
                                     profitable_signals = st_profitable_count stats,
                                     losing_signals = st_losing_count stats,
                                     avg_holding_period = st_avg_holding_period stats,
                                     parameters =
                                       [(''condition'', PStr (stateful_description c)),
                                        (''holding_period'', PInt holding_period),
                                        (''price_column'', PStr price_column),
                                        (''data_period'',
                                           PPeriod (hd (index d')) (last (index d')))]\<rparr>
                              in (Inr result,
                                  lg1 @ [INFO (BacktestFinished (total_signals result)
                                                 (win_rate result))],
                                  d', s')))))"

text \<open>A condition whose callables are functions of the table, as a condition over callables.\<close>

fun as_stateful :: "condition \<Rightarrow> 's stateful_condition" where
  "as_stateful (NumericCompareCondition col op v desc) = StatefulNumericCompare col op v desc"
| "as_stateful (SignalCrossCondition fast_col slow_col cross_type desc) =
     StatefulSignalCross fast_col slow_col cross_type desc"
| "as_stateful (TechnicalPatternCondition name pattern_func desc) =
     StatefulTechnicalPattern name (\<lambda>d s. (pattern_func d, d, s)) desc"
| "as_stateful (LogicCondition op conditions desc) = StatefulLogic op (map as_stateful conditions) desc"

section \<open>Predicates of the properties\<close>

text \<open>
  What the properties below say about a run, as predicates: the return recorded for an event,
  and the results of the runs of one condition that do not fail.
\<close>

text \<open>
  The policy of target-price resolution in the words of the specification: the price of
  the row with the target date; failing that, of the row with the earliest date at or after
  the target; failing that, of the last row.
\<close>

definition target_price_policy :: "table \<Rightarrow> pyfloat list \<Rightarrow> timestamp \<Rightarrow> pyfloat \<Rightarrow> bool" where
  "target_price_policy d prices target_date price =
     (if target_date \<in> set (index d)
      then (\<exists>i < length (index d). index d ! i = target_date \<and> price = prices ! i)
      else if (\<exists>u \<in> set (index d). target_date \<le> u)
      then (\<exists>i < length (index d).
              target_date \<le> index d ! i \<and>
              (\<forall>j < length (index d). target_date \<le> index d ! j \<longrightarrow> index d ! i \<le> index d ! j) \<and>
              price = prices ! i)
      else index d \<noteq> [] \<and> price = last prices)"

definition return_of :: "table \<Rightarrow> int \<Rightarrow> string \<Rightarrow> signal_event \<Rightarrow> pyfloat \<Rightarrow> bool" where
  "return_of d h p ev ret =
     (loc d (timestamp ev) p = Inr (signal_price ev) \<and>
      (\<exists>tp. find_target_price d (timestamp ev + timedelta_days h) p = Inr (Some tp) \<and>
            ret = f_div (f_sub tp (signal_price ev)) (signal_price ev)))"

definition successful_runs :: "table \<Rightarrow> condition \<Rightarrow> int list \<Rightarrow> backtest_result list" where
  "successful_runs d c hs =
     concat (map (\<lambda>h. case fst (run_backtest [] d c h ''close'') of
                         Inr r \<Rightarrow> [r]
                       | Inl e \<Rightarrow> []) hs)"

definition holding_periods_of :: "int list option \<Rightarrow> int list" where
  "holding_periods_of arg = (case arg of None \<Rightarrow> [3, 5, 10, 20] | Some l \<Rightarrow> l)"

text \<open>The depth of nesting at the end of a string: the parentheses opened and not closed.\<close>

definition paren_depth :: "string \<Rightarrow> int" where
  "paren_depth s =
     int (length (filter (\<lambda>c. c = CHR ''('') s)) - int (length (filter (\<lambda>c. c = CHR '')'') s))"

text \<open>
  A condition is pure, in the words of the specification, when its evaluation depends only on
  the table supplied and has no hidden state: every pattern callable in it gives a result
  that does not depend on the state, and leaves the table and the state as they were.
\<close>

fun pure_condition :: "'s stateful_condition \<Rightarrow> bool" where
  "pure_condition (StatefulNumericCompare _ _ _ _) = True"
| "pure_condition (StatefulSignalCross _ _ _ _) = True"
| "pure_condition (StatefulTechnicalPattern _ pattern_func _) =
     (\<forall>d s s'. pattern_func d s = (fst (pattern_func d s'), d, s))"
| "pure_condition (StatefulLogic _ conditions _) = (\<forall>c \<in> set conditions. pure_condition c)"

section \<open>Example tables\<close>

text \<open>Concrete tables, on which the properties below are run.\<close>

definition day :: "int \<Rightarrow> timestamp" where
  "day n = n * ns_per_day"

definition weekend_table :: table where
  "weekend_table =
     \<lparr>index = [day 5, day 6, day 7, day 9, day 10],
      columns = [(''close'', [Fin 100, Fin 101, Fin 102, Fin 110, Fin 120])]\<rparr>"

definition close_ne_102 :: condition where
  "close_ne_102 = NumericCompareCondition ''close'' NOT_EQUAL (Fin 102) ''close != 102.0''"

definition small_table :: table where
  "small_table =
     \<lparr>index = [day 1, day 2, day 3],
      columns = [(''close'', [Fin 10, Fin 11, Fin 12])]\<rparr>"

definition close_gt_10 :: condition where
  "close_gt_10 = NumericCompareCondition ''close'' GREATER_THAN (Fin 10) ''close > 10.0''"

definition close_gt_100 :: condition where
  "close_gt_100 = NumericCompareCondition ''close'' GREATER_THAN (Fin 100) ''close > 100.0''"

definition rsi_gt_30 :: condition where
  "rsi_gt_30 = NumericCompareCondition ''RSI_14'' GREATER_THAN (Fin 30) ''RSI_14 > 30.0''"

definition zero_table :: table where
  "zero_table =
     \<lparr>index = [day 1, day 2],
      columns = [(''close'', [Fin 0, Fin 1])]\<rparr>"

definition close_eq_0 :: condition where
  "close_eq_0 = NumericCompareCondition ''close'' EQUAL (Fin 0) ''close == 0.0''"

definition cross_table :: table where
  "cross_table =
     \<lparr>index = [day 1, day 2, day 3, day 4],
      columns = [(''fast'', [Fin 1, Fin 1, Fin 3, Fin 3]),
                 (''slow'', [Fin 2, Fin 2, Fin 2, Fin 2])]\<rparr>"

text \<open>A formatting of thresholds, which is Python's on the thresholds of the examples.\<close>

definition example_format :: "pyfloat \<Rightarrow> string" where
  "example_format v = (if v = Fin 30 then ''30.0'' else if v = Fin 0 then ''0.0'' else ''?'')"

text \<open>
  A callable with a state of its own: it signals in every row when it is armed, and disarms
  itself. In Python, a function that reads and clears a flag of its module or closure.
\<close>

definition fire_once :: "bool callable" where
  "fire_once d armed = (Inr (map (\<lambda>t. (t, armed)) (index d)), d, False)"

definition fire_once_condition :: "bool stateful_condition" where
  "fire_once_condition = StatefulTechnicalPattern ''fire_once'' fire_once ''fire_once''"

text \<open>Two calls of the run, one after the other, with the same arguments.\<close>

definition first_run :: "(failure + backtest_result) \<times> logger \<times> table \<times> bool" where
  "first_run = run_backtest_stateful [] small_table fire_once_condition 1 ''close'' True"

definition second_run :: "(failure + backtest_result) \<times> logger \<times> table \<times> bool" where
  "second_run =
     run_backtest_stateful (fst (snd first_run)) (fst (snd (snd first_run)))
       fire_once_condition 1 ''close'' (snd (snd (snd first_run)))"

text \<open>A callable that is a function of the table, and a condition that calls it.\<close>

definition every_row :: "table \<Rightarrow> string + bool_series" where
  "every_row d = Inr (map (\<lambda>t. (t, True)) (index d))"

definition every_row_and_close_gt_10 :: condition where
  "every_row_and_close_gt_10 =
     LogicCondition AND [TechnicalPatternCondition ''every_row'' every_row ''every_row'', close_gt_10]
       ''(every_row AND close > 10.0)''"

section \<open>Properties\<close>

subsection \<open>Lookups on a well-formed table\<close>

lemma column_length:
  assumes "wf_table d" and "column d p = Some vs"
  shows "length vs = length (index d)"
proof -
  from assms(2) have "(p, vs) \<in> set (columns d)"
    by (simp add: column_def map_of_SomeD)
  with assms(1) show ?thesis
    by (auto simp: wf_table_def list_all_iff)
qed

lemma loc_nth:
  assumes "wf_table d" and "column d p = Some vs" and "i < length (index d)"
  shows "loc d (index d ! i) p = Inr (vs ! i)"
proof -
  have len: "length (index d) = length vs"
    using column_length [OF assms(1,2)] by simp
  have dist: "distinct (index d)"
    using assms(1) by (simp add: wf_table_def strict_sorted_iff sorted_wrt_iff_nth_less distinct_conv_nth)
       (metis less_irrefl linorder_neqE_nat)
  have "map_of (zip (index d) vs) (index d ! i) = Some (vs ! i)"
    using map_of_zip_nth [OF len dist] assms(3) len by simp
  then show ?thesis
    using assms(2) by (simp add: loc_def)
qed

lemma hd_filter_least:
  "sorted_wrt (<) xs \<Longrightarrow> y \<in> set xs \<Longrightarrow> P y \<Longrightarrow> hd (filter P xs) \<le> (y::int)"
  by (induction xs) auto

lemma hd_filter_in:
  "filter P xs \<noteq> [] \<Longrightarrow> hd (filter P xs) \<in> set xs \<and> P (hd (filter P xs))"
  using hd_in_set [of "filter P xs"] by auto

lemma iloc_last_value:
  assumes "wf_table d" and "column d p = Some vs" and "index d \<noteq> []"
  shows "iloc_last d p = Inr (last vs)"
  using column_length [OF assms(1,2)] assms(2,3) by (auto simp: iloc_last_def)

subsection \<open>The price at a target date\<close>

text \<open>
  What \<open>find_target_price\<close> gives on a well-formed table that has the price column: the
  price of the row labelled by the target if there is one; otherwise the price at the
  earliest label at or after the target; if every label is before the target, the price of
  the last row; and no price exactly when the table has no row.
\<close>

lemma find_target_price_cases:
  assumes wf: "wf_table d" and col: "column d p = Some vs"
  shows "(\<forall>i < length (index d). index d ! i = target \<longrightarrow>
            find_target_price d (target) p = Inr (Some (vs ! i))) \<and>
         (target \<notin> set (index d) \<longrightarrow>
            (\<forall>i < length (index d).
               target \<le> index d ! i \<and>
               (\<forall>j < length (index d). target \<le> index d ! j \<longrightarrow> index d ! i \<le> index d ! j) \<longrightarrow>
               find_target_price d (target) p = Inr (Some (vs ! i)))) \<and>
         (index d \<noteq> [] \<and> (\<forall>u \<in> set (index d). u < target) \<longrightarrow>
            find_target_price d (target) p = Inr (Some (last vs))) \<and>
         ((find_target_price d (target) p = Inr None) = (index d = []))"
proof -
  let ?av = "filter (\<lambda>u. target \<le> u) (index d)"
  have cols: "columns d \<noteq> []"
    using col by (auto simp: column_def)
  have exact: "find_target_price d target p = Inr (Some (vs ! i))"
    if "i < length (index d)" and "index d ! i = target" for i
  proof -
    have "target \<in> set (index d)" using that by (metis nth_mem)
    moreover have "loc d target p = Inr (vs ! i)"
      using loc_nth [OF wf col that(1)] that(2) by simp
    ultimately show ?thesis by (simp add: find_target_price_def)
  qed
  have later: "find_target_price d target p = Inr (Some (vs ! i))"
    if notin: "target \<notin> set (index d)" and i: "i < length (index d)"
      and ge: "target \<le> index d ! i"
      and least: "\<forall>j < length (index d). target \<le> index d ! j \<longrightarrow> index d ! i \<le> index d ! j" for i
  proof -
    have mem: "index d ! i \<in> set (index d)" using i by simp
    then have ne: "?av \<noteq> []" using ge by (auto simp: filter_empty_conv)
    have srt: "sorted_wrt (<) (index d)" using wf by (simp add: wf_table_def)
    have le1: "hd ?av \<le> index d ! i"
      using hd_filter_least [OF srt mem, of "\<lambda>u. target \<le> u"] ge by simp
    from hd_filter_in [OF ne] obtain j where j: "j < length (index d)" "index d ! j = hd ?av"
      by (auto simp: in_set_conv_nth)
    have "target \<le> hd ?av" using hd_filter_in [OF ne] by simp
    with least j have "index d ! i \<le> hd ?av" by auto
    with le1 have "hd ?av = index d ! i" by simp
    then show ?thesis
      using notin ne loc_nth [OF wf col i] by (simp add: find_target_price_def)
  qed
  have beyond: "find_target_price d target p = Inr (Some (last vs))"
    if "index d \<noteq> []" and "\<forall>u \<in> set (index d). u < target"
  proof -
    have "target \<notin> set (index d)" using that(2) by auto
    moreover have "?av = []" using that(2) by (auto simp: filter_empty_conv)
    moreover have "\<not> df_empty d" using that(1) cols by (simp add: df_empty_def)
    ultimately show ?thesis
      using iloc_last_value [OF wf col that(1)] by (simp add: find_target_price_def)
  qed
  have none: "(find_target_price d target p = Inr None) = (index d = [])"
  proof
    assume "index d = []"
    then show "find_target_price d target p = Inr None"
      by (simp add: find_target_price_def df_empty_def)
  next
    assume r: "find_target_price d target p = Inr None"
    show "index d = []"
    proof (rule ccontr)
      assume ne: "index d \<noteq> []"
      show False
      proof (cases "target \<in> set (index d)")
        case True
        then obtain i where "i < length (index d)" "index d ! i = target"
          by (auto simp: in_set_conv_nth)
        from exact [OF this] r show False by simp
      next
        case False
        show False
        proof (cases "?av = []")
          case True
          then have "\<forall>u \<in> set (index d). u < target"
            by (auto simp: filter_empty_conv)
          from beyond [OF ne this] r show False by simp
        next
          case avne: False
          from hd_filter_in [OF avne] obtain j where j: "j < length (index d)" "index d ! j = hd ?av"
            by (auto simp: in_set_conv_nth)
          have "loc d (hd ?av) p = Inr (vs ! j)"
            using loc_nth [OF wf col j(1)] j(2) by simp
          then have "find_target_price d target p = Inr (Some (vs ! j))"
            using False avne by (simp add: find_target_price_def)
          with r show False by simp
        qed
      qed
    qed
  qed
  show ?thesis
    using exact later beyond none by blast
qed

lemma find_target_price_follows_policy:
  assumes wf: "wf_table d" and col: "column d p = Some vs"
    and res: "find_target_price d target p = Inr (Some price)"
  shows "target_price_policy d vs target price"
proof -
  note cases = find_target_price_cases [OF wf col, of target]
  from cases res have ne: "index d \<noteq> []" by auto
  show ?thesis
  proof (cases "target \<in> set (index d)")
    case True
    then obtain i where i: "i < length (index d)" "index d ! i = target"
      by (auto simp: in_set_conv_nth)
    with cases have "find_target_price d target p = Inr (Some (vs ! i))" by blast
    with res have "price = vs ! i" by simp
    with True i show ?thesis by (auto simp: target_price_policy_def)
  next
    case False
    show ?thesis
    proof (cases "\<exists>u \<in> set (index d). target \<le> u")
      case True
      let ?S = "{u \<in> set (index d). target \<le> u}"
      have fin: "finite ?S" and nonempty: "?S \<noteq> {}" using True by auto
      from Min_in [OF fin nonempty] have m: "Min ?S \<in> set (index d)" "target \<le> Min ?S"
        by auto
      from m(1) obtain i where i: "i < length (index d)" "index d ! i = Min ?S"
        by (auto simp: in_set_conv_nth)
      have least: "\<forall>j < length (index d). target \<le> index d ! j \<longrightarrow> index d ! i \<le> index d ! j"
      proof (intro allI impI)
        fix j assume "j < length (index d)" "target \<le> index d ! j"
        then have "index d ! j \<in> ?S" by simp
        from Min_le [OF fin this] i(2) show "index d ! i \<le> index d ! j" by simp
      qed
      from cases False i(1) m(2) i(2) least
      have "find_target_price d target p = Inr (Some (vs ! i))" by auto
      with res have "price = vs ! i" by simp
      with False True i m(2) least show ?thesis
        by (auto simp: target_price_policy_def)
    next
      case none: False
      then have "\<forall>u \<in> set (index d). u < target" by auto
      with cases ne have "find_target_price d target p = Inr (Some (last vs))" by blast
      with res have "price = last vs" by simp
      with False none ne show ?thesis by (simp add: target_price_policy_def)
    qed
  qed
qed

subsection \<open>Crosses\<close>

lemma shift1_nth:
  "i < length xs \<Longrightarrow> shift1 xs ! i = (if i = 0 then NaN else xs ! (i - 1))"
  by (cases i) (auto simp: shift1_def nth_butlast)

lemma length_shift1 [simp]: "length (shift1 xs) = length xs"
  by (simp add: shift1_def)

lemma f_le_NaN [simp]: "f_le NaN x = False" "f_ge NaN x = False"
  by (cases x; simp add: f_le_def f_ge_def)+

lemma golden_cross_nth:
  assumes "length fast = length slow" and "i < length fast"
  shows "golden_cross fast slow ! i =
           (0 < i \<and> f_gt (fast ! i) (slow ! i) \<and> f_le (fast ! (i - 1)) (slow ! (i - 1)))"
  using assms by (auto simp: golden_cross_def shift1_nth)

lemma death_cross_nth:
  assumes "length fast = length slow" and "i < length fast"
  shows "death_cross fast slow ! i =
           (0 < i \<and> f_lt (fast ! i) (slow ! i) \<and> f_ge (fast ! (i - 1)) (slow ! (i - 1)))"
  using assms by (auto simp: death_cross_def shift1_nth)

lemma length_cross:
  "length fast = length slow \<Longrightarrow> length (golden_cross fast slow) = length fast"
  "length fast = length slow \<Longrightarrow> length (death_cross fast slow) = length fast"
  by (simp_all add: golden_cross_def death_cross_def)

text \<open>
  C4. On a well-formed table that has both columns, a cross condition of either direction
  evaluates without failure to one boolean per row. The first row is false. In every later
  row \<open>i\<close> the golden cross is true exactly when \<open>fast[i] > slow[i]\<close> and
  \<open>fast[i-1] <= slow[i-1]\<close>, and the death cross exactly when \<open>fast[i] < slow[i]\<close> and
  \<open>fast[i-1] >= slow[i-1]\<close>, the comparisons being those of floats.
\<close>

theorem signal_cross_rows:
  assumes wf: "wf_table d"
    and fast: "column d fast_col = Some fast" and slow: "column d slow_col = Some slow"
  shows "evaluate (SignalCrossCondition fast_col slow_col ''golden'' desc) d
           = Inr (zip (index d) (golden_cross fast slow)) \<and>
         evaluate (SignalCrossCondition fast_col slow_col ''death'' desc) d
           = Inr (zip (index d) (death_cross fast slow)) \<and>
         length (golden_cross fast slow) = length (index d) \<and>
         length (death_cross fast slow) = length (index d) \<and>
         (\<forall>i < length (index d).
            golden_cross fast slow ! i =
              (0 < i \<and> f_gt (fast ! i) (slow ! i) \<and> f_le (fast ! (i - 1)) (slow ! (i - 1))) \<and>
            death_cross fast slow ! i =
              (0 < i \<and> f_lt (fast ! i) (slow ! i) \<and> f_ge (fast ! (i - 1)) (slow ! (i - 1))))"
proof -
  have lf: "length fast = length (index d)" and ls: "length slow = length (index d)"
    using column_length [OF wf fast] column_length [OF wf slow] by simp_all
  have hc: "has_column d fast_col" "has_column d slow_col"
    using fast slow by (simp_all add: has_column_def column_def)
  have ev: "evaluate (SignalCrossCondition fast_col slow_col ''golden'' desc) d
           = Inr (zip (index d) (golden_cross fast slow))"
      "evaluate (SignalCrossCondition fast_col slow_col ''death'' desc) d
           = Inr (zip (index d) (death_cross fast slow))"
    using hc fast slow by simp_all
  have len: "length (golden_cross fast slow) = length (index d)"
    "length (death_cross fast slow) = length (index d)"
    using length_cross [of fast slow] lf ls by simp_all
  have rows: "golden_cross fast slow ! i =
              (0 < i \<and> f_gt (fast ! i) (slow ! i) \<and> f_le (fast ! (i - 1)) (slow ! (i - 1))) \<and>
            death_cross fast slow ! i =
              (0 < i \<and> f_lt (fast ! i) (slow ! i) \<and> f_ge (fast ! (i - 1)) (slow ! (i - 1)))"
    if "i < length (index d)" for i
    using golden_cross_nth [of fast slow i] death_cross_nth [of fast slow i] lf ls that by simp
  show ?thesis using ev len rows by blast
qed

theorem signal_cross_rows_witness:
  "wf_table cross_table \<and>
   column cross_table ''fast'' = Some [Fin 1, Fin 1, Fin 3, Fin 3] \<and>
   column cross_table ''slow'' = Some [Fin 2, Fin 2, Fin 2, Fin 2] \<and>
   evaluate (SignalCrossCondition ''fast'' ''slow'' ''golden'' []) cross_table
     = Inr [(day 1, False), (day 2, False), (day 3, True), (day 4, False)] \<and>
   golden_cross [Fin 1, Fin 1, Fin 3, Fin 3] [Fin 2, Fin 2, Fin 2, Fin 2] ! 0 = False \<and>
   golden_cross [Fin 1, Fin 1, Fin 3, Fin 3] [Fin 2, Fin 2, Fin 2, Fin 2] ! 2 = True \<and>
   evaluate (SignalCrossCondition ''slow'' ''fast'' ''death'' []) cross_table
     = Inr [(day 1, False), (day 2, False), (day 3, True), (day 4, False)]"
proof -
  let ?f = "[Fin 1, Fin 1, Fin 3, Fin 3]" and ?s = "[Fin 2, Fin 2, Fin 2, Fin 2]"
  have wf: "wf_table cross_table"
    by (simp add: wf_table_def cross_table_def day_def ns_per_day_def)
  have f: "column cross_table ''fast'' = Some ?f" and s: "column cross_table ''slow'' = Some ?s"
    by (simp_all add: column_def cross_table_def)
  note cr = signal_cross_rows [OF wf f s, of "[]"]
  have i0: "(0::nat) < length (index cross_table)" and i2: "(2::nat) < length (index cross_table)"
    by (simp_all add: cross_table_def)
  from cr i0 have g0: "golden_cross ?f ?s ! 0 = False" by blast
  from cr i2 have "golden_cross ?f ?s ! 2 =
      (0 < (2::nat) \<and> f_gt (?f ! 2) (?s ! 2) \<and> f_le (?f ! (2 - 1)) (?s ! (2 - 1)))" by blast
  then have g2: "golden_cross ?f ?s ! 2 = True"
    by (simp add: f_gt_def f_le_def)
  from cr have "evaluate (SignalCrossCondition ''fast'' ''slow'' ''golden'' []) cross_table
     = Inr (zip (index cross_table) (golden_cross ?f ?s))" by blast
  moreover have "zip (index cross_table) (golden_cross ?f ?s)
     = [(day 1, False), (day 2, False), (day 3, True), (day 4, False)]"
    by (simp add: cross_table_def golden_cross_def shift1_def f_gt_def f_le_def)
  moreover from signal_cross_rows [OF wf s f, of "[]"]
  have "evaluate (SignalCrossCondition ''slow'' ''fast'' ''death'' []) cross_table
     = Inr (zip (index cross_table) (death_cross ?s ?f))" by blast
  moreover have "zip (index cross_table) (death_cross ?s ?f)
     = [(day 1, False), (day 2, False), (day 3, True), (day 4, False)]"
    by (simp add: cross_table_def death_cross_def shift1_def f_ge_def f_le_def)
  ultimately show ?thesis using wf f s g0 g2 by simp
qed

subsection \<open>Statistics\<close>

lemma foldl_f_add_Fin: "foldl f_add (Fin a) (map Fin rs) = Fin (a + sum_list rs)"
  by (induction rs arbitrary: a) (simp_all add: add.assoc)

lemma np_sum_Fin: "np_sum (map Fin rs) = Fin (sum_list rs)"
  by (simp add: np_sum_def foldl_f_add_Fin)

lemma np_mean_Fin:
  "rs \<noteq> [] \<Longrightarrow> np_mean (map Fin rs) = Fin (sum_list rs / real (length rs))"
  by (simp add: np_mean_def np_sum_Fin)

lemma f_maximum_Fin: "f_maximum (Fin a) (Fin b) = Fin (max a b)"
  by (simp add: max_def)

lemma f_minimum_Fin: "f_minimum (Fin a) (Fin b) = Fin (min a b)"
  by (auto simp: min_def)

lemma foldl_f_maximum_Fin: "foldl f_maximum (Fin a) (map Fin rs) = Fin (fold max rs a)"
  by (induction rs arbitrary: a) (simp_all add: f_maximum_Fin max.commute del: f_maximum.simps)

lemma foldl_f_minimum_Fin: "foldl f_minimum (Fin a) (map Fin rs) = Fin (fold min rs a)"
  by (induction rs arbitrary: a) (simp_all add: f_minimum_Fin min.commute del: f_minimum.simps)

lemma np_max_Fin: "np_max (Fin r) (map Fin rs) = Fin (Max (set (r # rs)))"
  using Max.set_eq_fold [of r rs] by (simp add: np_max_def foldl_f_maximum_Fin)

lemma np_min_Fin: "np_min (Fin r) (map Fin rs) = Fin (Min (set (r # rs)))"
  using Min.set_eq_fold [of r rs] by (simp add: np_min_def foldl_f_minimum_Fin)

lemma np_std_Fin:
  assumes "rs \<noteq> []"
  shows "np_std 0 (map Fin rs) =
           Fin (sqrt ((\<Sum>x\<leftarrow>rs. (x - sum_list rs / real (length rs))\<^sup>2) / real (length rs)))"
proof -
  let ?m = "sum_list rs / real (length rs)"
  have dev: "map (\<lambda>a. f_sq (f_sub a (Fin ?m))) (map Fin rs) = map Fin (map (\<lambda>x. (x - ?m)\<^sup>2) rs)"
    by (simp add: f_sub_def power2_eq_square)
  have nonneg: "0 \<le> (\<Sum>x\<leftarrow>rs. (x - ?m)\<^sup>2) / real (length rs)"
    by (intro divide_nonneg_nonneg sum_list_nonneg) auto
  have n: "real (length rs) \<noteq> 0" using assms by simp
  show ?thesis
    using nonneg n
    by (simp add: np_std_def np_mean_Fin [OF assms] dev np_sum_Fin Let_def del: map_map)
qed

text \<open>
  C5. For a list of returns that is not empty: the win rate is the number of returns above
  zero over the number of returns; the profitable and the losing counts are the numbers of
  returns above and below zero, and a return of exactly zero adds to neither. When the
  returns are finite, the mean, the maximum and the minimum are those of the whole list, and
  the deviation is the root of the mean squared distance to the mean: the sum of the squares
  is divided by \<open>N\<close>, not by \<open>N - 1\<close>.
\<close>

theorem statistics_of_returns:
  assumes "rets \<noteq> []"
  shows "st_win_rate (calculate_statistics rets hps)
           = Fin (real (length (filter (\<lambda>x. f_gt x (Fin 0)) rets)) / real (length rets)) \<and>
         st_profitable_count (calculate_statistics rets hps)
           = length (filter (\<lambda>x. f_gt x (Fin 0)) rets) \<and>
         st_losing_count (calculate_statistics rets hps)
           = length (filter (\<lambda>x. f_lt x (Fin 0)) rets) \<and>
         st_profitable_count (calculate_statistics (rets @ [Fin 0]) hps)
           = st_profitable_count (calculate_statistics rets hps) \<and>
         st_losing_count (calculate_statistics (rets @ [Fin 0]) hps)
           = st_losing_count (calculate_statistics rets hps) \<and>
         (\<forall>rs. rets = map Fin rs \<longrightarrow>
            st_avg_return (calculate_statistics rets hps) = Fin (sum_list rs / real (length rs)) \<and>
            st_max_return (calculate_statistics rets hps) = Fin (Max (set rs)) \<and>
            st_min_return (calculate_statistics rets hps) = Fin (Min (set rs)) \<and>
            st_std_return (calculate_statistics rets hps)
              = Fin (sqrt ((\<Sum>x\<leftarrow>rs. (x - sum_list rs / real (length rs))\<^sup>2)
                           / real (length rs))))"
proof -
  from assms obtain r rest where rets: "rets = r # rest" by (cases rets) auto
  have counts:
    "st_win_rate (calculate_statistics rets hps)
           = Fin (real (length (filter (\<lambda>x. f_gt x (Fin 0)) rets)) / real (length rets))"
    "st_profitable_count (calculate_statistics rets hps)
           = length (filter (\<lambda>x. f_gt x (Fin 0)) rets)"
    "st_losing_count (calculate_statistics rets hps)
           = length (filter (\<lambda>x. f_lt x (Fin 0)) rets)"
    by (simp_all add: rets calculate_statistics_def Let_def)
  have zero:
    "st_profitable_count (calculate_statistics (rets @ [Fin 0]) hps)
           = st_profitable_count (calculate_statistics rets hps)"
    "st_losing_count (calculate_statistics (rets @ [Fin 0]) hps)
           = st_losing_count (calculate_statistics rets hps)"
    by (simp_all add: rets calculate_statistics_def Let_def f_gt_def)
  have fin: "st_avg_return (calculate_statistics rets hps) = Fin (sum_list rs / real (length rs)) \<and>
            st_max_return (calculate_statistics rets hps) = Fin (Max (set rs)) \<and>
            st_min_return (calculate_statistics rets hps) = Fin (Min (set rs)) \<and>
            st_std_return (calculate_statistics rets hps)
              = Fin (sqrt ((\<Sum>x\<leftarrow>rs. (x - sum_list rs / real (length rs))\<^sup>2)
                           / real (length rs)))"
    if eq: "rets = map Fin rs" for rs
  proof -
    from eq rets obtain a as where rs: "rs = a # as" "r = Fin a" "rest = map Fin as"
      by (cases rs) auto
    have ne: "rs \<noteq> []" using rs by simp
    have st: "calculate_statistics (map Fin rs) hps =
        \<lparr>st_win_rate = Fin (real (length (filter (\<lambda>x. f_gt x (Fin 0)) (map Fin rs))) / real (length rs)),
         st_avg_return = np_mean (map Fin rs),
         st_max_return = np_max (Fin a) (map Fin as),
         st_min_return = np_min (Fin a) (map Fin as),
         st_std_return = np_std 0 (map Fin rs),
         st_profitable_count = length (filter (\<lambda>x. f_gt x (Fin 0)) (map Fin rs)),
         st_losing_count = length (filter (\<lambda>x. f_lt x (Fin 0)) (map Fin rs)),
         st_avg_holding_period =
           (if hps \<noteq> [] then np_mean (map (\<lambda>h. Fin (real_of_int h)) hps) else Fin 0)\<rparr>"
      unfolding rs(1) by (simp add: calculate_statistics_def Let_def)
    show ?thesis
      unfolding eq st
      using np_mean_Fin [OF ne] np_std_Fin [OF ne] np_max_Fin [of a as] np_min_Fin [of a as]
      by (simp add: rs(1))
  qed
  show ?thesis using counts zero fin by blast
qed

theorem statistics_of_returns_witness:
  "[Fin (5 / 100), Fin (- 2 / 100), Fin (3 / 100), Fin 0, Fin (- 1 / 100)] \<noteq> [] \<and>
   st_win_rate (calculate_statistics
       [Fin (5 / 100), Fin (- 2 / 100), Fin (3 / 100), Fin 0, Fin (- 1 / 100)] [5, 5, 5, 5, 5])
     = Fin (2 / 5) \<and>
   st_profitable_count (calculate_statistics
       [Fin (5 / 100), Fin (- 2 / 100), Fin (3 / 100), Fin 0, Fin (- 1 / 100)] [5, 5, 5, 5, 5]) = 2 \<and>
   st_losing_count (calculate_statistics
       [Fin (5 / 100), Fin (- 2 / 100), Fin (3 / 100), Fin 0, Fin (- 1 / 100)] [5, 5, 5, 5, 5]) = 2 \<and>
   [Fin 1, Fin 3] = map Fin [1, 3] \<and>
   st_avg_return (calculate_statistics [Fin 1, Fin 3] [5, 5]) = Fin 2 \<and>
   st_max_return (calculate_statistics [Fin 1, Fin 3] [5, 5]) = Fin 3 \<and>
   st_min_return (calculate_statistics [Fin 1, Fin 3] [5, 5]) = Fin 1 \<and>
   st_std_return (calculate_statistics [Fin 1, Fin 3] [5, 5]) = Fin 1"
proof -
  let ?rets = "[Fin (5 / 100), Fin (- 2 / 100), Fin (3 / 100), Fin 0, Fin (- 1 / 100)]"
  have ne: "?rets \<noteq> []" by simp
  from statistics_of_returns [OF ne, of "[5, 5, 5, 5, 5]"]
  have a: "st_win_rate (calculate_statistics ?rets [5, 5, 5, 5, 5]) = Fin (2 / 5)"
    and b: "st_profitable_count (calculate_statistics ?rets [5, 5, 5, 5, 5]) = 2"
    and c: "st_losing_count (calculate_statistics ?rets [5, 5, 5, 5, 5]) = 2"
    by (simp_all add: f_gt_def)
  have ne2: "[Fin 1, Fin 3] \<noteq> []" by simp
  have eq: "[Fin 1, Fin 3] = map Fin [1, 3]" by simp
  have "st_avg_return (calculate_statistics [Fin 1, Fin 3] [5, 5])
          = Fin (sum_list [1, 3] / real (length [1, 3 :: real])) \<and>
        st_max_return (calculate_statistics [Fin 1, Fin 3] [5, 5]) = Fin (Max (set [1, 3])) \<and>
        st_min_return (calculate_statistics [Fin 1, Fin 3] [5, 5]) = Fin (Min (set [1, 3])) \<and>
        st_std_return (calculate_statistics [Fin 1, Fin 3] [5, 5])
          = Fin (sqrt ((\<Sum>x\<leftarrow>[1, 3]. (x - sum_list [1, 3] / real (length [1, 3 :: real]))\<^sup>2)
                       / real (length [1, 3 :: real])))"
    using statistics_of_returns [OF ne2, of "[5, 5]"]
    by (elim conjE) (drule spec [where x = "[1, 3]"], erule mp, rule eq)
  then have d: "st_avg_return (calculate_statistics [Fin 1, Fin 3] [5, 5]) = Fin 2 \<and>
        st_max_return (calculate_statistics [Fin 1, Fin 3] [5, 5]) = Fin 3 \<and>
        st_min_return (calculate_statistics [Fin 1, Fin 3] [5, 5]) = Fin 1 \<and>
        st_std_return (calculate_statistics [Fin 1, Fin 3] [5, 5]) = Fin 1"
    by simp
  from a b c d show ?thesis by simp
qed

subsection \<open>The cases of a run\<close>

lemma run_backtest_logger_free:
  "fst (run_backtest lg d c h p) = fst (run_backtest [] d c h p)"
proof (cases "evaluate c d")
  case (Inl e)
  then show ?thesis
    by (simp add: run_backtest_def calculate_signals_def Let_def)
next
  case (Inr sigs)
  show ?thesis
  proof (cases "calculate_signal_returns d sigs h p")
    case (Inl e)
    with Inr show ?thesis
      by (simp add: run_backtest_def calculate_signals_def Let_def)
  next
    case r: (Inr res)
    obtain evs rets hps where "res = (evs, rets, hps)" by (cases res) auto
    with Inr r show ?thesis
      by (simp add: run_backtest_def calculate_signals_def Let_def)
  qed
qed

lemma rb_empty: "df_empty d \<Longrightarrow> run_backtest lg d c h p = (Inl EmptyData, lg)"
  by (simp add: run_backtest_def)

lemma rb_no_column:
  "\<not> df_empty d \<Longrightarrow> \<not> has_column d p \<Longrightarrow>
   run_backtest lg d c h p = (Inl (MissingPriceColumn p), lg)"
  by (simp add: run_backtest_def)

lemma rb_eval_failed:
  "\<not> df_empty d \<Longrightarrow> has_column d p \<Longrightarrow> evaluate c d = Inl e \<Longrightarrow>
   fst (run_backtest lg d c h p) = Inl (SignalFailed e)"
  by (simp add: run_backtest_def calculate_signals_def Let_def)

lemma rb_no_signal:
  "\<not> df_empty d \<Longrightarrow> has_column d p \<Longrightarrow> evaluate c d = Inr sigs \<Longrightarrow> \<not> list_ex snd sigs \<Longrightarrow>
   fst (run_backtest lg d c h p) = Inr (create_empty_result c h)"
  by (simp add: run_backtest_def calculate_signals_def Let_def)

lemma rb_loop_failed:
  "\<not> df_empty d \<Longrightarrow> has_column d p \<Longrightarrow> evaluate c d = Inr sigs \<Longrightarrow> list_ex snd sigs \<Longrightarrow>
   calculate_signal_returns d sigs h p = Inl e \<Longrightarrow>
   fst (run_backtest lg d c h p) = Inl e"
  by (simp add: run_backtest_def calculate_signals_def Let_def)

lemma rb_signals:
  "\<not> df_empty d \<Longrightarrow> has_column d p \<Longrightarrow> evaluate c d = Inr sigs \<Longrightarrow> list_ex snd sigs \<Longrightarrow>
   calculate_signal_returns d sigs h p = Inr (evs, rets, hps) \<Longrightarrow>
   fst (run_backtest lg d c h p) =
     Inr \<lparr>signals = evs, returns = rets, holding_periods = hps,
          win_rate = st_win_rate (calculate_statistics rets hps),
          avg_return = st_avg_return (calculate_statistics rets hps),
          max_return = st_max_return (calculate_statistics rets hps),
          min_return = st_min_return (calculate_statistics rets hps),
          std_return = st_std_return (calculate_statistics rets hps),
          total_signals = length rets,
          profitable_signals = st_profitable_count (calculate_statistics rets hps),
          losing_signals = st_losing_count (calculate_statistics rets hps),
          avg_holding_period = st_avg_holding_period (calculate_statistics rets hps),
          parameters = [(''condition'', PStr (description c)), (''holding_period'', PInt h),
                        (''price_column'', PStr p),
                        (''data_period'', PPeriod (hd (index d)) (last (index d)))]\<rparr>"
  by (simp add: run_backtest_def calculate_signals_def Let_def)

lemma run_backtest_success:
  assumes "fst (run_backtest lg d c h p) = Inr r"
  shows "\<not> df_empty d \<and> has_column d p \<and>
         (\<exists>sigs. evaluate c d = Inr sigs \<and>
            (if \<not> list_ex snd sigs then r = create_empty_result c h
             else (\<exists>evs rets hps.
                     calculate_signal_returns d sigs h p = Inr (evs, rets, hps) \<and>
                     signals r = evs \<and> returns r = rets \<and> holding_periods r = hps \<and>
                     total_signals r = length rets \<and>
                     profitable_signals r = st_profitable_count (calculate_statistics rets hps) \<and>
                     losing_signals r = st_losing_count (calculate_statistics rets hps))))"
proof -
  have ne: "\<not> df_empty d"
    using assms rb_empty [of d lg c h p] by auto
  have col: "has_column d p"
  proof (rule ccontr)
    assume "\<not> has_column d p"
    from rb_no_column [OF ne this, of lg c h] assms show False by simp
  qed
  obtain sigs where ev: "evaluate c d = Inr sigs"
    using assms rb_eval_failed [OF ne col, of c _ lg h] by (cases "evaluate c d") auto
  show ?thesis
  proof (cases "list_ex snd sigs")
    case False
    from rb_no_signal [OF ne col ev False, of lg h] assms
    have "r = create_empty_result c h" by simp
    with ne col ev False show ?thesis by auto
  next
    case True
    obtain evs rets hps where loop: "calculate_signal_returns d sigs h p = Inr (evs, rets, hps)"
      using assms rb_loop_failed [OF ne col ev True, of h _ lg]
      by (cases "calculate_signal_returns d sigs h p") auto
    from rb_signals [OF ne col ev True loop, of lg] assms
    have "signals r = evs \<and> returns r = rets \<and> holding_periods r = hps \<and>
          total_signals r = length rets \<and>
          profitable_signals r = st_profitable_count (calculate_statistics rets hps) \<and>
          losing_signals r = st_losing_count (calculate_statistics rets hps)"
      by auto
    with ne col ev True loop show ?thesis by auto
  qed
qed

subsection \<open>The loop over the signals\<close>

lemma add_days_Inr: "add_days t h = Inr x \<Longrightarrow> x = t + timedelta_days h"
  by (auto simp: add_days_def split: if_splits)

lemma loc_member:
  assumes "wf_table d" and "column d p = Some vs" and "t \<in> set (index d)"
  shows "\<exists>v. loc d t p = Inr v"
proof -
  from assms(3) obtain i where "i < length (index d)" "index d ! i = t"
    by (auto simp: in_set_conv_nth)
  with loc_nth [OF assms(1,2)] show ?thesis by auto
qed

lemma find_target_price_total:
  assumes wf: "wf_table d" and col: "column d p = Some vs"
  shows "\<exists>r. find_target_price d target p = Inr r"
proof (cases "target \<in> set (index d)")
  case True
  from loc_member [OF wf col True] show ?thesis
    using True by (auto simp: find_target_price_def)
next
  case False
  let ?av = "filter (\<lambda>u. target \<le> u) (index d)"
  show ?thesis
  proof (cases "?av = []")
    case True
    show ?thesis
    proof (cases "index d = []")
      case e: True
      then show ?thesis by (simp add: find_target_price_def df_empty_def)
    next
      case ne: False
      from iloc_last_value [OF wf col ne] False True show ?thesis
        by (simp add: find_target_price_def)
    qed
  next
    case ne: False
    from hd_filter_in [OF ne] have "hd ?av \<in> set (index d)" by simp
    from loc_member [OF wf col this] False ne show ?thesis
      by (auto simp: find_target_price_def)
  qed
qed

text \<open>One turn of the loop that does not fail: the trigger is skipped, or gives an event.\<close>

lemma loop_step:
  assumes "signal_returns_loop d h p (t # ts) (evs, rets, hps) = Inr res"
  obtains
    (foreign) "t \<notin> set (index d)"
      and "signal_returns_loop d h p ts (evs, rets, hps) = Inr res"
  | (unresolved) sp where "t \<in> set (index d)" and "loc d t p = Inr sp"
      and "add_days t h = Inr (t + timedelta_days h)"
      and "find_target_price d (t + timedelta_days h) p = Inr None"
      and "signal_returns_loop d h p ts (evs, rets, hps) = Inr res"
  | (event) sp tp where "t \<in> set (index d)" and "loc d t p = Inr sp"
      and "add_days t h = Inr (t + timedelta_days h)"
      and "find_target_price d (t + timedelta_days h) p = Inr (Some tp)"
      and "signal_returns_loop d h p ts
             (evs @ [\<lparr>timestamp = t, signal_price = sp, signal_type = ''buy'',
                      condition_description = []\<rparr>],
              rets @ [f_div (f_sub tp sp) sp], hps @ [h]) = Inr res"
proof (cases "t \<in> set (index d)")
  case False
  with assms foreign show ?thesis by simp
next
  case True
  with assms obtain sp where sp: "loc d t p = Inr sp"
    by (cases "loc d t p") auto
  from True sp assms obtain x where x: "add_days t h = Inr x"
    by (cases "add_days t h") auto
  then have ad: "add_days t h = Inr (t + timedelta_days h)"
    using add_days_Inr [OF x] by simp
  from True sp ad assms obtain tgt
    where tgt: "find_target_price d (t + timedelta_days h) p = Inr tgt"
    by (cases "find_target_price d (t + timedelta_days h) p") auto
  show ?thesis
  proof (cases tgt)
    case None
    with True sp ad tgt assms unresolved show ?thesis by simp
  next
    case (Some tp)
    with True sp ad tgt assms event show ?thesis by simp
  qed
qed

lemma loop_total:
  assumes wf: "wf_table d" and col: "column d p = Some vs"
    and range: "\<forall>t \<in> set (index d). \<not> isl (add_days t h)"
  shows "\<exists>res. signal_returns_loop d h p ts acc = Inr res"
proof (induction ts arbitrary: acc)
  case Nil
  show ?case by (simp del: split_paired_Ex)
next
  case (Cons t ts acc)
  obtain evs rets hps where acc: "acc = (evs, rets, hps)" by (rule prod_cases3)
  show ?case
  proof (cases "t \<in> set (index d)")
    case False
    with Cons [of acc] acc show ?thesis by simp
  next
    case True
    from loc_member [OF wf col True] obtain sp where sp: "loc d t p = Inr sp" by blast
    from range True obtain x where x: "add_days t h = Inr x"
      by (cases "add_days t h") auto
    from find_target_price_total [OF wf col] obtain tgt
      where tgt: "find_target_price d x p = Inr tgt" by blast
    show ?thesis
    proof (cases tgt)
      case None
      with Cons [of acc] acc True sp x tgt show ?thesis by simp
    next
      case (Some tp)
      with Cons acc True sp x tgt show ?thesis by simp
    qed
  qed
qed

lemma run_backtest_succeeds:
  assumes wf: "wf_table d" and ne: "\<not> df_empty d" and hc: "has_column d p"
    and range: "\<forall>t \<in> set (index d). \<not> isl (add_days t h)"
    and ev: "evaluate c d = Inr sigs"
  shows "\<exists>r. fst (run_backtest lg d c h p) = Inr r"
proof (cases "list_ex snd sigs")
  case False
  from rb_no_signal [OF ne hc ev False, of lg h] show ?thesis by simp
next
  case True
  from hc obtain vs where col: "column d p = Some vs"
    by (auto simp: has_column_def column_def)
  from loop_total [OF wf col range, of "map fst (filter snd sigs)" "([], [], [])"]
  obtain evs rets hps where "calculate_signal_returns d sigs h p = Inr (evs, rets, hps)"
    by (auto simp: calculate_signal_returns_def)
  from rb_signals [OF ne hc ev True this, of lg] show ?thesis by simp
qed

lemma loop_invariant:
  assumes "signal_returns_loop d h p ts (evs, rets, hps) = Inr (evs', rets', hps')"
    and "length evs = length rets" and "length hps = length rets" and "\<forall>x \<in> set hps. x = h"
  shows "length evs' = length rets' \<and> length hps' = length rets' \<and> (\<forall>x \<in> set hps'. x = h)"
  using assms
proof (induction ts arbitrary: evs rets hps)
  case Nil
  then show ?case by simp
next
  case (Cons t ts)
  from Cons.prems(1) show ?case
  proof (cases rule: loop_step)
    case foreign
    from Cons.IH [OF foreign(2) Cons.prems(2,3,4)] show ?thesis .
  next
    case (unresolved sp)
    from Cons.IH [OF unresolved(5) Cons.prems(2,3,4)] show ?thesis .
  next
    case (event sp tp)
    show ?thesis
      by (rule Cons.IH [OF event(5)]) (use Cons.prems(2,3,4) in auto)
  qed
qed

lemma f_div_zero: "f_div x (Fin 0) = PInf \<or> f_div x (Fin 0) = NInf \<or> f_div x (Fin 0) = NaN"
  by (cases x) auto

lemma loop_returns:
  assumes "signal_returns_loop d h p ts (evs, rets, hps) = Inr (evs', rets', hps')"
    and "list_all2 (return_of d h p) evs rets"
  shows "list_all2 (return_of d h p) evs' rets'"
  using assms
proof (induction ts arbitrary: evs rets hps)
  case Nil
  then show ?case by simp
next
  case (Cons t ts)
  from Cons.prems(1) show ?case
  proof (cases rule: loop_step)
    case foreign
    from Cons.IH [OF foreign(2) Cons.prems(2)] show ?thesis .
  next
    case (unresolved sp)
    from Cons.IH [OF unresolved(5) Cons.prems(2)] show ?thesis .
  next
    case (event sp tp)
    let ?ev = "\<lparr>timestamp = t, signal_price = sp, signal_type = ''buy'', condition_description = []\<rparr>"
    have "return_of d h p ?ev (f_div (f_sub tp sp) sp)"
      using event(2,4) by (simp add: return_of_def)
    with Cons.prems(2)
    have "list_all2 (return_of d h p) (evs @ [?ev]) (rets @ [f_div (f_sub tp sp) sp])"
      by (simp add: list_all2_appendI)
    from Cons.IH [OF event(5) this] show ?thesis .
  qed
qed

text \<open>On a table with a row, no trigger that labels a row is skipped.\<close>

lemma loop_events:
  assumes wf: "wf_table d" and col: "column d p = Some vs" and ne: "index d \<noteq> []"
    and "signal_returns_loop d h p ts (evs, rets, hps) = Inr (evs', rets', hps')"
  shows "map timestamp evs' = map timestamp evs @ filter (\<lambda>t. t \<in> set (index d)) ts"
  using assms(4)
proof (induction ts arbitrary: evs rets hps)
  case Nil
  then show ?case by simp
next
  case (Cons t ts)
  from Cons.prems(1) show ?case
  proof (cases rule: loop_step)
    case foreign
    from Cons.IH [OF foreign(2)] foreign(1) show ?thesis by simp
  next
    case (unresolved sp)
    from find_target_price_cases [OF wf col, of "t + timedelta_days h"] unresolved(4) ne
    show ?thesis by simp
  next
    case (event sp tp)
    from Cons.IH [OF event(5)] event(1) show ?thesis by simp
  qed
qed

subsection \<open>The examples, evaluated\<close>

lemmas example_defs =
  small_table_def zero_table_def weekend_table_def close_gt_10_def close_gt_100_def
  rsi_gt_30_def close_eq_0_def close_ne_102_def
  day_def timedelta_days_def ns_per_day_def

lemmas lookup_defs =
  column_def has_column_def df_empty_def loc_def iloc_last_def find_target_price_def
  add_days_def in_ns_range_def ns_max_def

lemma small_table_valid:
  "wf_table small_table" "\<not> df_empty small_table" "has_column small_table ''close''"
  by (simp_all add: wf_table_def example_defs lookup_defs)

lemma zero_table_valid:
  "wf_table zero_table" "\<not> df_empty zero_table" "has_column zero_table ''close''"
  by (simp_all add: wf_table_def example_defs lookup_defs)

lemma eval_close_gt_10:
  "evaluate close_gt_10 small_table = Inr [(day 1, False), (day 2, True), (day 3, True)]"
  by (simp add: example_defs lookup_defs f_gt_def)

lemma eval_close_gt_100:
  "evaluate close_gt_100 small_table = Inr [(day 1, False), (day 2, False), (day 3, False)]"
  by (simp add: example_defs lookup_defs f_gt_def)

lemma eval_rsi_gt_30:
  "evaluate rsi_gt_30 small_table = Inl (MissingColumn ''RSI_14'')"
  by (simp add: example_defs lookup_defs)

lemma eval_close_eq_0:
  "evaluate close_eq_0 zero_table = Inr [(day 1, True), (day 2, False)]"
  by (simp add: example_defs lookup_defs)

lemma returns_small_1:
  "calculate_signal_returns small_table [(day 1, False), (day 2, True), (day 3, True)] 1 ''close'' =
     Inr ([\<lparr>timestamp = day 2, signal_price = Fin 11, signal_type = ''buy'', condition_description = []\<rparr>,
           \<lparr>timestamp = day 3, signal_price = Fin 12, signal_type = ''buy'', condition_description = []\<rparr>],
          [Fin (1 / 11), Fin 0], [1, 1])"
  by (simp add: calculate_signal_returns_def example_defs lookup_defs f_sub_def)

lemma returns_small_neg:
  "calculate_signal_returns small_table [(day 1, False), (day 2, True), (day 3, True)] (- 1) ''close'' =
     Inr ([\<lparr>timestamp = day 2, signal_price = Fin 11, signal_type = ''buy'', condition_description = []\<rparr>,
           \<lparr>timestamp = day 3, signal_price = Fin 12, signal_type = ''buy'', condition_description = []\<rparr>],
          [Fin (- 1 / 11), Fin (- 1 / 12)], [- 1, - 1])"
  by (simp add: calculate_signal_returns_def example_defs lookup_defs f_sub_def)

lemma returns_zero:
  "calculate_signal_returns zero_table [(day 1, True), (day 2, False)] 1 ''close'' =
     Inr ([\<lparr>timestamp = day 1, signal_price = Fin 0, signal_type = ''buy'', condition_description = []\<rparr>],
          [PInf], [1])"
  by (simp add: calculate_signal_returns_def example_defs lookup_defs f_sub_def)

lemma statistics_zero:
  "calculate_statistics [PInf] [1] =
     \<lparr>st_win_rate = Fin 1, st_avg_return = PInf, st_max_return = PInf, st_min_return = PInf,
      st_std_return = NaN, st_profitable_count = 1, st_losing_count = 0,
      st_avg_holding_period = Fin 1\<rparr>"
  by (simp add: calculate_statistics_def np_mean_def np_sum_def np_max_def np_min_def np_std_def
      f_gt_def f_sub_def)

lemma run_zero:
  "fst (run_backtest [] zero_table close_eq_0 1 ''close'') =
     Inr \<lparr>signals =
            [\<lparr>timestamp = day 1, signal_price = Fin 0, signal_type = ''buy'', condition_description = []\<rparr>],
          returns = [PInf], holding_periods = [1],
          win_rate = Fin 1, avg_return = PInf, max_return = PInf, min_return = PInf,
          std_return = NaN, total_signals = 1, profitable_signals = 1, losing_signals = 0,
          avg_holding_period = Fin 1,
          parameters = [(''condition'', PStr ''close == 0.0''), (''holding_period'', PInt 1),
                        (''price_column'', PStr ''close''),
                        (''data_period'', PPeriod (day 1) (day 2))]\<rparr>"
proof -
  have "list_ex snd [(day 1, True), (day 2, False)]" by simp
  from rb_signals [OF zero_table_valid(2,3) eval_close_eq_0 this returns_zero, of "[]"]
  show ?thesis
    by (simp add: statistics_zero) (simp add: zero_table_def close_eq_0_def)
qed

lemma small_table_in_range:
  "\<forall>t \<in> set (index small_table). \<not> isl (add_days t 1)"
  "\<forall>t \<in> set (index small_table). \<not> isl (add_days t 2)"
  "\<forall>t \<in> set (index small_table). \<not> isl (add_days t (- 1))"
  by (simp_all add: example_defs lookup_defs)

lemma weekend_table_valid:
  "wf_table weekend_table" "\<not> df_empty weekend_table" "has_column weekend_table ''close''"
  "column weekend_table ''close'' = Some [Fin 100, Fin 101, Fin 102, Fin 110, Fin 120]"
  by (simp_all add: wf_table_def example_defs lookup_defs)

lemma eval_close_ne_102:
  "evaluate close_ne_102 weekend_table =
     Inr [(day 5, True), (day 6, True), (day 7, False), (day 9, True), (day 10, True)]"
  by (simp add: example_defs lookup_defs f_ne_def)

lemma returns_weekend:
  "calculate_signal_returns weekend_table
     [(day 5, True), (day 6, True), (day 7, False), (day 9, True), (day 10, True)] 3 ''close'' =
     Inr ([\<lparr>timestamp = day 5, signal_price = Fin 100, signal_type = ''buy'', condition_description = []\<rparr>,
           \<lparr>timestamp = day 6, signal_price = Fin 101, signal_type = ''buy'', condition_description = []\<rparr>,
           \<lparr>timestamp = day 9, signal_price = Fin 110, signal_type = ''buy'', condition_description = []\<rparr>,
           \<lparr>timestamp = day 10, signal_price = Fin 120, signal_type = ''buy'', condition_description = []\<rparr>],
          [Fin (1 / 10), Fin (9 / 101), Fin (1 / 11), Fin 0], [3, 3, 3, 3])"
  by (simp add: calculate_signal_returns_def example_defs lookup_defs f_sub_def)

subsection \<open>Target-price resolution\<close>

lemma filter_labels:
  assumes "map fst sigs = idx"
  shows "filter (\<lambda>t. t \<in> set idx) (map fst (filter snd sigs)) = map fst (filter snd sigs)"
proof -
  have "\<forall>t \<in> set (map fst (filter snd sigs)). t \<in> set idx"
    unfolding assms [symmetric] by force
  then show ?thesis by (simp only: filter_True)
qed

text \<open>
  C1. In a run on a well-formed table with the price column, every trigger that labels a
  row of the table gives an event, in the order of the triggers: none is skipped, the table
  of a run having a row (and \<open>find_target_price\<close> gives no price exactly when the table has
  none). When the condition's series carries the labels of the table, as every condition
  but a pattern does, the events are the triggers. The return of each event is taken
  between its trigger price, the price in the row of the trigger, and the target price that
  the policy gives for the trigger's date plus the holding period in days: the price of the
  row with that date; failing that, of the row with the earliest date at or after it;
  failing that, of the last row.
\<close>

theorem run_resolves_target_prices:
  assumes wf: "wf_table d" and col: "column d p = Some vs"
    and ev: "evaluate c d = Inr sigs"
    and run: "fst (run_backtest lg d c h p) = Inr r"
  shows "map timestamp (signals r) = filter (\<lambda>t. t \<in> set (index d)) (map fst (filter snd sigs)) \<and>
         (map fst sigs = index d \<longrightarrow> map timestamp (signals r) = map fst (filter snd sigs)) \<and>
         list_all2
           (\<lambda>ev ret.
              loc d (timestamp ev) p = Inr (signal_price ev) \<and>
              (\<exists>price. target_price_policy d vs (timestamp ev + timedelta_days h) price \<and>
                       ret = f_div (f_sub price (signal_price ev)) (signal_price ev)))
           (signals r) (returns r) \<and>
         (\<forall>target. (find_target_price d target p = Inr None) = (index d = []))"
proof -
  from run_backtest_success [OF run] ev have ne: "\<not> df_empty d" and
    alt: "if \<not> list_ex snd sigs then r = create_empty_result c h
          else (\<exists>evs rets hps.
                     calculate_signal_returns d sigs h p = Inr (evs, rets, hps) \<and>
                     signals r = evs \<and> returns r = rets \<and> holding_periods r = hps \<and>
                     total_signals r = length rets \<and>
                     profitable_signals r = st_profitable_count (calculate_statistics rets hps) \<and>
                     losing_signals r = st_losing_count (calculate_statistics rets hps))"
    by auto
  from ne have idx: "index d \<noteq> []" by (simp add: df_empty_def)
  have both: "map timestamp (signals r) = filter (\<lambda>t. t \<in> set (index d)) (map fst (filter snd sigs)) \<and>
      list_all2 (return_of d h p) (signals r) (returns r)"
  proof (cases "list_ex snd sigs")
    case False
    then have "filter snd sigs = []" by (auto simp: list_ex_iff filter_empty_conv)
    moreover from False alt have "r = create_empty_result c h" by simp
    ultimately show ?thesis by (simp add: create_empty_result_def)
  next
    case True
    with alt obtain evs rets hps where
      loop: "signal_returns_loop d h p (map fst (filter snd sigs)) ([], [], []) = Inr (evs, rets, hps)"
      and r: "signals r = evs" "returns r = rets"
      by (auto simp: calculate_signal_returns_def)
    from loop_events [OF wf col idx loop] have "map timestamp evs =
        filter (\<lambda>t. t \<in> set (index d)) (map fst (filter snd sigs))" by simp
    moreover from loop have "list_all2 (return_of d h p) evs rets"
      by (rule loop_returns) simp
    ultimately show ?thesis using r by simp
  qed
  have aligned: "map timestamp (signals r) = map fst (filter snd sigs)"
    if "map fst sigs = index d"
    using both filter_labels [OF that] by simp
  have prices: "list_all2
           (\<lambda>ev ret.
              loc d (timestamp ev) p = Inr (signal_price ev) \<and>
              (\<exists>price. target_price_policy d vs (timestamp ev + timedelta_days h) price \<and>
                       ret = f_div (f_sub price (signal_price ev)) (signal_price ev)))
           (signals r) (returns r)"
  proof (rule list_all2_mono)
    show "list_all2 (return_of d h p) (signals r) (returns r)" using both by simp
  next
    fix ev ret
    assume "return_of d h p ev ret"
    then obtain tp where
      sp: "loc d (timestamp ev) p = Inr (signal_price ev)" and
      tp: "find_target_price d (timestamp ev + timedelta_days h) p = Inr (Some tp)" and
      ret: "ret = f_div (f_sub tp (signal_price ev)) (signal_price ev)"
      by (auto simp: return_of_def)
    from find_target_price_follows_policy [OF wf col tp] sp ret
    show "loc d (timestamp ev) p = Inr (signal_price ev) \<and>
              (\<exists>price. target_price_policy d vs (timestamp ev + timedelta_days h) price \<and>
                       ret = f_div (f_sub price (signal_price ev)) (signal_price ev))"
      by blast
  qed
  have none: "\<forall>target. (find_target_price d target p = Inr None) = (index d = [])"
    using find_target_price_cases [OF wf col] by blast
  from both aligned prices none show ?thesis by blast
qed

lemma run_weekend:
  "\<not> isl (fst (run_backtest [] weekend_table close_ne_102 3 ''close''))"
  "signals (projr (fst (run_backtest [] weekend_table close_ne_102 3 ''close''))) =
     [\<lparr>timestamp = day 5, signal_price = Fin 100, signal_type = ''buy'', condition_description = []\<rparr>,
      \<lparr>timestamp = day 6, signal_price = Fin 101, signal_type = ''buy'', condition_description = []\<rparr>,
      \<lparr>timestamp = day 9, signal_price = Fin 110, signal_type = ''buy'', condition_description = []\<rparr>,
      \<lparr>timestamp = day 10, signal_price = Fin 120, signal_type = ''buy'', condition_description = []\<rparr>]"
  "returns (projr (fst (run_backtest [] weekend_table close_ne_102 3 ''close''))) =
     [Fin (1 / 10), Fin (9 / 101), Fin (1 / 11), Fin 0]"
proof -
  have "list_ex snd [(day 5, True), (day 6, True), (day 7, False), (day 9, True), (day 10, True)]"
    by simp
  note run = rb_signals [OF weekend_table_valid(2,3) eval_close_ne_102 this returns_weekend, of "[]"]
  from run show "\<not> isl (fst (run_backtest [] weekend_table close_ne_102 3 ''close''))" by simp
  from run show "signals (projr (fst (run_backtest [] weekend_table close_ne_102 3 ''close''))) =
     [\<lparr>timestamp = day 5, signal_price = Fin 100, signal_type = ''buy'', condition_description = []\<rparr>,
      \<lparr>timestamp = day 6, signal_price = Fin 101, signal_type = ''buy'', condition_description = []\<rparr>,
      \<lparr>timestamp = day 9, signal_price = Fin 110, signal_type = ''buy'', condition_description = []\<rparr>,
      \<lparr>timestamp = day 10, signal_price = Fin 120, signal_type = ''buy'', condition_description = []\<rparr>]"
    by simp
  from run show "returns (projr (fst (run_backtest [] weekend_table close_ne_102 3 ''close''))) =
     [Fin (1 / 10), Fin (9 / 101), Fin (1 / 11), Fin 0]" by simp
qed

theorem run_resolves_target_prices_witness:
  "wf_table weekend_table \<and>
   column weekend_table ''close'' = Some [Fin 100, Fin 101, Fin 102, Fin 110, Fin 120] \<and>
   evaluate close_ne_102 weekend_table =
     Inr [(day 5, True), (day 6, True), (day 7, False), (day 9, True), (day 10, True)] \<and>
   \<not> isl (fst (run_backtest [] weekend_table close_ne_102 3 ''close'')) \<and>
   map timestamp (signals (projr (fst (run_backtest [] weekend_table close_ne_102 3 ''close''))))
     = [day 5, day 6, day 9, day 10] \<and>
   target_price_policy weekend_table [Fin 100, Fin 101, Fin 102, Fin 110, Fin 120]
     (day 5 + timedelta_days 3) (Fin 110) \<and>
   target_price_policy weekend_table [Fin 100, Fin 101, Fin 102, Fin 110, Fin 120]
     (day 6 + timedelta_days 3) (Fin 110) \<and>
   target_price_policy weekend_table [Fin 100, Fin 101, Fin 102, Fin 110, Fin 120]
     (day 9 + timedelta_days 3) (Fin 120) \<and>
   returns (projr (fst (run_backtest [] weekend_table close_ne_102 3 ''close'')))
     = [Fin (1 / 10), Fin (9 / 101), Fin (1 / 11), Fin 0]"
proof -
  let ?vs = "[Fin 100, Fin 101, Fin 102, Fin 110, Fin 120]"
  let ?r = "projr (fst (run_backtest [] weekend_table close_ne_102 3 ''close''))"
  have run: "fst (run_backtest [] weekend_table close_ne_102 3 ''close'') = Inr ?r"
    using run_weekend(1) by simp
  have labels: "map fst [(day 5, True), (day 6, True), (day 7, False), (day 9, True), (day 10, True)]
      = index weekend_table"
    by (simp add: weekend_table_def)
  note res = run_resolves_target_prices
    [OF weekend_table_valid(1,4) eval_close_ne_102 run]
  from res labels have "map timestamp (signals ?r) =
      map fst (filter snd [(day 5, True), (day 6, True), (day 7, False), (day 9, True), (day 10, True)])"
    by blast
  then have ts: "map timestamp (signals ?r) = [day 5, day 6, day 9, day 10]"
    by simp
  from res have "list_all2
           (\<lambda>ev ret.
              loc weekend_table (timestamp ev) ''close'' = Inr (signal_price ev) \<and>
              (\<exists>price. target_price_policy weekend_table ?vs (timestamp ev + timedelta_days 3) price \<and>
                       ret = f_div (f_sub price (signal_price ev)) (signal_price ev)))
           (signals ?r) (returns ?r)"
    by blast
  then have rets: "returns ?r = [Fin (1 / 10), Fin (9 / 101), Fin (1 / 11), Fin 0]"
    by (simp add: run_weekend(2,3))
  have pol:
    "target_price_policy weekend_table ?vs (day 5 + timedelta_days 3) (Fin 110)"
    "target_price_policy weekend_table ?vs (day 6 + timedelta_days 3) (Fin 110)"
    "target_price_policy weekend_table ?vs (day 9 + timedelta_days 3) (Fin 120)"
  proof -
    have t5: "find_target_price weekend_table (day 5 + timedelta_days 3) ''close'' = Inr (Some (Fin 110))"
      and t6: "find_target_price weekend_table (day 6 + timedelta_days 3) ''close'' = Inr (Some (Fin 110))"
      and t9: "find_target_price weekend_table (day 9 + timedelta_days 3) ''close'' = Inr (Some (Fin 120))"
      by (simp_all add: example_defs lookup_defs)
    from find_target_price_follows_policy [OF weekend_table_valid(1,4) t5]
    show "target_price_policy weekend_table ?vs (day 5 + timedelta_days 3) (Fin 110)" .
    from find_target_price_follows_policy [OF weekend_table_valid(1,4) t6]
    show "target_price_policy weekend_table ?vs (day 6 + timedelta_days 3) (Fin 110)" .
    from find_target_price_follows_policy [OF weekend_table_valid(1,4) t9]
    show "target_price_policy weekend_table ?vs (day 9 + timedelta_days 3) (Fin 120)" .
  qed
  from weekend_table_valid(1,4) eval_close_ne_102 run_weekend(1) ts pol rets
  show ?thesis by simp
qed

subsection \<open>Zero trigger price\<close>

text \<open>
  The claim C2 has a run fail when a trigger price is zero. The code divides without a check:
  on \<open>zero_table\<close> the trigger of day 1 has price 0, the run succeeds, and the return it
  records is \<open>inf\<close>, which the mean takes over and which makes the deviation \<open>nan\<close>.
\<close>

theorem zero_trigger_price_counterexample:
  "loc zero_table (day 1) ''close'' = Inr (Fin 0) \<and>
   \<not> isl (fst (run_backtest [] zero_table close_eq_0 1 ''close'')) \<and>
   map timestamp (signals (projr (fst (run_backtest [] zero_table close_eq_0 1 ''close'')))) = [day 1] \<and>
   returns (projr (fst (run_backtest [] zero_table close_eq_0 1 ''close''))) = [PInf] \<and>
   avg_return (projr (fst (run_backtest [] zero_table close_eq_0 1 ''close''))) = PInf \<and>
   std_return (projr (fst (run_backtest [] zero_table close_eq_0 1 ''close''))) = NaN"
  by (simp add: run_zero) (simp add: example_defs lookup_defs)

text \<open>
  C2, as amended. In the result of a successful run every return is
  \<open>(target_price - trigger_price) / trigger_price\<close> in float arithmetic, where the trigger
  price is the price in the row of the event and the target price is the one that
  \<open>find_target_price\<close> resolves; the trigger price is not checked, and where it is zero the
  return recorded is \<open>inf\<close>, \<open>-inf\<close> or \<open>nan\<close>.
\<close>

theorem returns_unchecked_division:
  assumes "fst (run_backtest lg d c h p) = Inr r"
  shows "list_all2
           (\<lambda>ev ret.
              loc d (timestamp ev) p = Inr (signal_price ev) \<and>
              (\<exists>tp. find_target_price d (timestamp ev + timedelta_days h) p = Inr (Some tp) \<and>
                    ret = f_div (f_sub tp (signal_price ev)) (signal_price ev)) \<and>
              (signal_price ev = Fin 0 \<longrightarrow> ret = PInf \<or> ret = NInf \<or> ret = NaN))
           (signals r) (returns r)"
proof -
  from run_backtest_success [OF assms] obtain sigs where
    alt: "if \<not> list_ex snd sigs then r = create_empty_result c h
          else (\<exists>evs rets hps.
                     calculate_signal_returns d sigs h p = Inr (evs, rets, hps) \<and>
                     signals r = evs \<and> returns r = rets \<and> holding_periods r = hps \<and>
                     total_signals r = length rets \<and>
                     profitable_signals r = st_profitable_count (calculate_statistics rets hps) \<and>
                     losing_signals r = st_losing_count (calculate_statistics rets hps))"
    by blast
  have "list_all2 (return_of d h p) (signals r) (returns r)"
  proof (cases "list_ex snd sigs")
    case False
    with alt have "r = create_empty_result c h" by simp
    then show ?thesis by (simp add: create_empty_result_def)
  next
    case True
    with alt obtain evs rets hps where
      loop: "calculate_signal_returns d sigs h p = Inr (evs, rets, hps)" and
      r: "signals r = evs" "returns r = rets"
      by auto
    from loop have "list_all2 (return_of d h p) evs rets"
      unfolding calculate_signal_returns_def
      by (rule loop_returns) simp
    with r show ?thesis by simp
  qed
  then show ?thesis
  proof (rule list_all2_mono)
    fix ev ret
    assume "return_of d h p ev ret"
    then obtain tp where
      sp: "loc d (timestamp ev) p = Inr (signal_price ev)" and
      tp: "find_target_price d (timestamp ev + timedelta_days h) p = Inr (Some tp)" and
      ret: "ret = f_div (f_sub tp (signal_price ev)) (signal_price ev)"
      by (auto simp: return_of_def)
    have "signal_price ev = Fin 0 \<longrightarrow> ret = PInf \<or> ret = NInf \<or> ret = NaN"
      using ret f_div_zero [of "f_sub tp (Fin 0)"] by auto
    with sp tp ret show "loc d (timestamp ev) p = Inr (signal_price ev) \<and>
              (\<exists>tp. find_target_price d (timestamp ev + timedelta_days h) p = Inr (Some tp) \<and>
                    ret = f_div (f_sub tp (signal_price ev)) (signal_price ev)) \<and>
              (signal_price ev = Fin 0 \<longrightarrow> ret = PInf \<or> ret = NInf \<or> ret = NaN)"
      by blast
  qed
qed

theorem returns_unchecked_division_witness:
  "\<not> isl (fst (run_backtest [] zero_table close_eq_0 1 ''close'')) \<and>
   loc zero_table (day 1) ''close'' = Inr (Fin 0) \<and>
   find_target_price zero_table (day 1 + timedelta_days 1) ''close'' = Inr (Some (Fin 1)) \<and>
   f_div (f_sub (Fin 1) (Fin 0)) (Fin 0) = PInf"
proof -
  let ?r = "projr (fst (run_backtest [] zero_table close_eq_0 1 ''close''))"
  have run: "fst (run_backtest [] zero_table close_eq_0 1 ''close'') = Inr ?r"
    by (simp add: run_zero)
  have sr: "signals ?r = [\<lparr>timestamp = day 1, signal_price = Fin 0, signal_type = ''buy'',
                           condition_description = []\<rparr>]" "returns ?r = [PInf]"
    by (simp_all add: run_zero)
  from returns_unchecked_division [OF run]
  have "loc zero_table (day 1) ''close'' = Inr (Fin 0) \<and>
        (\<exists>tp. find_target_price zero_table (day 1 + timedelta_days 1) ''close'' = Inr (Some tp) \<and>
              PInf = f_div (f_sub tp (Fin 0)) (Fin 0))"
    unfolding sr by simp
  moreover have "find_target_price zero_table (day 1 + timedelta_days 1) ''close'' = Inr (Some (Fin 1))"
    by (simp add: example_defs lookup_defs)
  moreover have "\<not> isl (fst (run_backtest [] zero_table close_eq_0 1 ''close''))"
    by (simp add: run_zero)
  ultimately show ?thesis
    by auto
qed

subsection \<open>Validation of the arguments\<close>

text \<open>
  The claim C3 has a run fail when the holding period is not positive. \<open>run_backtest\<close>
  does not look at the sign of the holding period: with \<open>-1\<close> the run succeeds and measures
  each return against the price of the day before the trigger.
\<close>

theorem nonpositive_holding_period_counterexample:
  "(- 1 :: int) \<le> 0 \<and>
   \<not> isl (fst (run_backtest [] small_table close_gt_10 (- 1) ''close'')) \<and>
   returns (projr (fst (run_backtest [] small_table close_gt_10 (- 1) ''close'')))
     = [Fin (- 1 / 11), Fin (- 1 / 12)] \<and>
   holding_periods (projr (fst (run_backtest [] small_table close_gt_10 (- 1) ''close'')))
     = [- 1, - 1] \<and>
   total_signals (projr (fst (run_backtest [] small_table close_gt_10 (- 1) ''close''))) = 2"
proof -
  have "list_ex snd [(day 1, False), (day 2, True), (day 3, True)]" by simp
  from rb_signals [OF small_table_valid(2,3) eval_close_gt_10 this returns_small_neg, of "[]"]
  show ?thesis by simp
qed

lemma loop_failures:
  "signal_returns_loop d h p ts acc = Inl e \<Longrightarrow>
   e \<in> {KeyError, IndexError, OverflowError, OutOfBoundsTimedelta, OutOfBoundsDatetime}"
proof (induction ts arbitrary: acc)
  case Nil
  then show ?case by simp
next
  case (Cons t ts acc)
  obtain evs rets hps where acc: "acc = (evs, rets, hps)" by (rule prod_cases3)
  have loc_fail: "e' = KeyError" if "loc d u p = Inl e'" for u e'
    using that by (auto simp: loc_def split: option.splits)
  have last_fail: "e' = KeyError \<or> e' = IndexError" if "iloc_last d p = Inl e'" for e'
    using that by (auto simp: iloc_last_def split: option.splits if_splits)
  have add_fail: "e' \<in> {OverflowError, OutOfBoundsTimedelta, OutOfBoundsDatetime}"
    if "add_days t h = Inl e'" for e'
    using that by (auto simp: add_days_def split: if_splits)
  have find_fail: "e' = KeyError \<or> e' = IndexError" if "find_target_price d x p = Inl e'" for x e'
  proof (cases "x \<in> set (index d)")
    case True
    with that obtain e'' where "loc d x p = Inl e''" "e' = e''"
      by (cases "loc d x p") (auto simp: find_target_price_def)
    with loc_fail show ?thesis by blast
  next
    case False
    let ?av = "filter (\<lambda>u. x \<le> u) (index d)"
    show ?thesis
    proof (cases "?av = []")
      case ne: False
      with False that obtain e'' where "loc d (hd ?av) p = Inl e''" "e' = e''"
        by (cases "loc d (hd ?av) p") (auto simp: find_target_price_def)
      with loc_fail show ?thesis by blast
    next
      case True
      with False that have "\<not> df_empty d" and "map_sum id Some (iloc_last d p) = Inl e'"
        by (auto simp: find_target_price_def split: if_splits)
      then have "iloc_last d p = Inl e'" by (cases "iloc_last d p") auto
      with last_fail show ?thesis by blast
    qed
  qed
  show ?case
  proof (cases "t \<in> set (index d)")
    case False
    with Cons.prems acc have "signal_returns_loop d h p ts acc = Inl e" by simp
    from Cons.IH [OF this] show ?thesis .
  next
    case True
    show ?thesis
    proof (cases "loc d t p")
      case (Inl e')
      with True Cons.prems acc have "e = e'" by simp
      with loc_fail [OF Inl] show ?thesis by simp
    next
      case sp: (Inr sp)
      show ?thesis
      proof (cases "add_days t h")
        case (Inl e')
        with True sp Cons.prems acc have "e = e'" by simp
        with add_fail [OF Inl] show ?thesis by simp
      next
        case x: (Inr x)
        show ?thesis
        proof (cases "find_target_price d x p")
          case (Inl e')
          with True sp x Cons.prems acc have "e = e'" by simp
          with find_fail [OF Inl] show ?thesis by auto
        next
          case (Inr tgt)
          show ?thesis
          proof (cases tgt)
            case None
            with True sp x Inr Cons.prems acc
            have "signal_returns_loop d h p ts acc = Inl e" by simp
            from Cons.IH [OF this] show ?thesis .
          next
            case (Some tp)
            with True sp x Inr Cons.prems acc
            have "signal_returns_loop d h p ts
                    (evs @ [\<lparr>timestamp = t, signal_price = sp, signal_type = ''buy'',
                             condition_description = []\<rparr>],
                     rets @ [f_div (f_sub tp sp) sp], hps @ [h]) = Inl e"
              by simp
            from Cons.IH [OF this] show ?thesis .
          qed
        qed
      qed
    qed
  qed
qed

lemma validation_failures_only:
  assumes ne: "\<not> df_empty d" and hc: "has_column d p"
  shows "fst (run_backtest lg d c h p) \<noteq> Inl EmptyData \<and>
         (\<forall>q. fst (run_backtest lg d c h p) \<noteq> Inl (MissingPriceColumn q))"
proof (cases "evaluate c d")
  case (Inl e')
  from rb_eval_failed [OF ne hc Inl, of lg h] show ?thesis by simp
next
  case (Inr sigs)
  show ?thesis
  proof (cases "list_ex snd sigs")
    case False
    from rb_no_signal [OF ne hc Inr False, of lg h] show ?thesis by simp
  next
    case True
    show ?thesis
    proof (cases "calculate_signal_returns d sigs h p")
      case (Inl e)
      then have "e \<in> {KeyError, IndexError, OverflowError, OutOfBoundsTimedelta, OutOfBoundsDatetime}"
        unfolding calculate_signal_returns_def by (rule loop_failures)
      with rb_loop_failed [OF ne hc Inr True Inl, of lg] show ?thesis by auto
    next
      case res: (Inr res)
      obtain evs rets hps where "res = (evs, rets, hps)" by (rule prod_cases3)
      with res rb_signals [OF ne hc Inr True, of h evs rets hps lg] show ?thesis by simp
    qed
  qed
qed

text \<open>
  C3, as amended. On an empty table, and on a table without the price column, the run fails
  at once: nothing has been logged and no result is made. These two failures are the only
  validation of the arguments, and they are raised for no other reason; the holding period
  is not checked. On a well-formed, non-empty table with the price column, and with a
  holding period that keeps the target date of every row inside the range of timestamps,
  the run fails exactly when the evaluation of the condition fails, whether the holding
  period is positive or not.
\<close>

theorem run_backtest_validation:
  "(df_empty d \<longrightarrow> run_backtest lg d c h p = (Inl EmptyData, lg)) \<and>
   (\<not> df_empty d \<and> \<not> has_column d p \<longrightarrow>
      run_backtest lg d c h p = (Inl (MissingPriceColumn p), lg)) \<and>
   (\<not> df_empty d \<and> has_column d p \<longrightarrow>
      fst (run_backtest lg d c h p) \<noteq> Inl EmptyData \<and>
      (\<forall>q. fst (run_backtest lg d c h p) \<noteq> Inl (MissingPriceColumn q))) \<and>
   (wf_table d \<and> \<not> df_empty d \<and> has_column d p \<and>
    (\<forall>t \<in> set (index d). \<not> isl (add_days t h)) \<longrightarrow>
      (\<forall>e. (fst (run_backtest lg d c h p) = Inl e) =
            (\<exists>e'. evaluate c d = Inl e' \<and> e = SignalFailed e')))"
proof (intro conjI impI allI)
  assume "df_empty d"
  then show "run_backtest lg d c h p = (Inl EmptyData, lg)" by (rule rb_empty)
next
  assume "\<not> df_empty d \<and> \<not> has_column d p"
  then show "run_backtest lg d c h p = (Inl (MissingPriceColumn p), lg)"
    by (simp add: rb_no_column)
next
  assume "\<not> df_empty d \<and> has_column d p"
  then show "fst (run_backtest lg d c h p) \<noteq> Inl EmptyData"
    using validation_failures_only [of d p lg c h] by blast
next
  fix q
  assume "\<not> df_empty d \<and> has_column d p"
  then show "fst (run_backtest lg d c h p) \<noteq> Inl (MissingPriceColumn q)"
    using validation_failures_only [of d p lg c h] by blast
next
  fix e
  assume a: "wf_table d \<and> \<not> df_empty d \<and> has_column d p \<and>
    (\<forall>t \<in> set (index d). \<not> isl (add_days t h))"
  then have wf: "wf_table d" and ne: "\<not> df_empty d" and hc: "has_column d p"
    and range: "\<forall>t \<in> set (index d). \<not> isl (add_days t h)" by simp_all
  show "(fst (run_backtest lg d c h p) = Inl e) =
        (\<exists>e'. evaluate c d = Inl e' \<and> e = SignalFailed e')"
  proof (cases "evaluate c d")
    case (Inl e')
    from rb_eval_failed [OF ne hc Inl, of lg h] Inl show ?thesis by auto
  next
    case (Inr sigs)
    from run_backtest_succeeds [OF wf ne hc range Inr, of lg] Inr show ?thesis by auto
  qed
qed

theorem run_backtest_validation_witness:
  "df_empty \<lparr>index = [], columns = [(''close'', [])]\<rparr> \<and>
   run_backtest [] \<lparr>index = [], columns = [(''close'', [])]\<rparr> close_gt_10 5 ''close''
     = (Inl EmptyData, []) \<and>
   \<not> df_empty small_table \<and> \<not> has_column small_table ''open'' \<and>
   run_backtest [] small_table close_gt_10 5 ''open'' = (Inl (MissingPriceColumn ''open''), []) \<and>
   wf_table small_table \<and> has_column small_table ''close'' \<and>
   \<not> isl (add_days (day 1) (- 1)) \<and> \<not> isl (add_days (day 2) (- 1)) \<and>
   \<not> isl (add_days (day 3) (- 1)) \<and>
   fst (run_backtest [] small_table rsi_gt_30 (- 1) ''close'')
     = Inl (SignalFailed (MissingColumn ''RSI_14'')) \<and>
   \<not> isl (evaluate close_gt_10 small_table) \<and>
   \<not> isl (fst (run_backtest [] small_table close_gt_10 (- 1) ''close''))"
proof -
  have e: "df_empty \<lparr>index = [], columns = [(''close'', [])]\<rparr>"
    by (simp add: df_empty_def)
  have nc: "\<not> df_empty small_table \<and> \<not> has_column small_table ''open''"
    by (simp add: example_defs lookup_defs)
  have v: "wf_table small_table \<and> \<not> df_empty small_table \<and> has_column small_table ''close'' \<and>
      (\<forall>t \<in> set (index small_table). \<not> isl (add_days t (- 1)))"
    using small_table_valid small_table_in_range(3) by simp
  have r: "\<not> isl (add_days (day 1) (- 1)) \<and> \<not> isl (add_days (day 2) (- 1)) \<and>
      \<not> isl (add_days (day 3) (- 1))"
    using small_table_in_range(3) by (simp add: small_table_def)
  from run_backtest_validation [of "\<lparr>index = [], columns = [(''close'', [])]\<rparr>" "[]" close_gt_10 5 "''close''"]
       e
  have 1: "run_backtest [] \<lparr>index = [], columns = [(''close'', [])]\<rparr> close_gt_10 5 ''close''
     = (Inl EmptyData, [])" by blast
  from run_backtest_validation [of small_table "[]" close_gt_10 5 "''open''"] nc
  have 2: "run_backtest [] small_table close_gt_10 5 ''open'' = (Inl (MissingPriceColumn ''open''), [])"
    by blast
  from run_backtest_validation [of small_table "[]" rsi_gt_30 "- 1" "''close''"] v eval_rsi_gt_30
  have 3: "fst (run_backtest [] small_table rsi_gt_30 (- 1) ''close'')
     = Inl (SignalFailed (MissingColumn ''RSI_14''))" by blast
  have ok: "\<not> isl (evaluate close_gt_10 small_table)"
    by (simp add: eval_close_gt_10)
  from run_backtest_validation [of small_table "[]" close_gt_10 "- 1" "''close''"] v
  have "\<forall>e. (fst (run_backtest [] small_table close_gt_10 (- 1) ''close'') = Inl e) =
            (\<exists>e'. evaluate close_gt_10 small_table = Inl e' \<and> e = SignalFailed e')"
    by blast
  then have 4: "\<not> isl (fst (run_backtest [] small_table close_gt_10 (- 1) ''close''))"
    using eval_close_gt_10
    by (cases "fst (run_backtest [] small_table close_gt_10 (- 1) ''close'')") auto
  show ?thesis using e nc v r 1 2 3 ok 4 by simp
qed

text \<open>
  Outside that range the holding period does make a run fail, once a signal is found: the
  addition of 200000 days to a date is out of the bounds of a \<open>Timedelta\<close>.
\<close>

lemma returns_small_out_of_bounds:
  "calculate_signal_returns small_table [(day 1, False), (day 2, True), (day 3, True)] 200000 ''close'' =
     Inl OutOfBoundsTimedelta"
  by (simp add: calculate_signal_returns_def example_defs lookup_defs)

lemma run_out_of_bounds:
  "fst (run_backtest [] small_table close_gt_10 200000 ''close'') = Inl OutOfBoundsTimedelta"
proof -
  have "list_ex snd [(day 1, False), (day 2, True), (day 3, True)]" by simp
  from rb_loop_failed [OF small_table_valid(2,3) eval_close_gt_10 this returns_small_out_of_bounds,
      of "[]"]
  show ?thesis by simp
qed

subsection \<open>No signal\<close>

text \<open>
  C6. On a non-empty table with the price column, a condition that evaluates without failure
  and is true in no row gives a result, not a failure: no signal, no return, every statistic
  \<open>0.0\<close>, every count 0, and the parameters hold the description of the condition, the
  holding period and the note that no signals were found.
\<close>

theorem empty_signal_result:
  assumes "\<not> df_empty d" and "has_column d p" and "evaluate c d = Inr sigs"
    and "\<forall>tb \<in> set sigs. \<not> snd tb"
  shows "fst (run_backtest lg d c h p) =
           Inr \<lparr>signals = [], returns = [], holding_periods = [],
                win_rate = Fin 0, avg_return = Fin 0, max_return = Fin 0, min_return = Fin 0,
                std_return = Fin 0, total_signals = 0, profitable_signals = 0,
                losing_signals = 0, avg_holding_period = Fin 0,
                parameters = [(''condition'', PStr (description c)),
                              (''holding_period'', PInt h),
                              (''note'', PStr ''No signals found'')]\<rparr>"
proof -
  have "\<not> list_ex snd sigs"
    using assms(4) by (simp add: list_ex_iff)
  from rb_no_signal [OF assms(1,2,3) this, of lg h] show ?thesis
    by (simp add: create_empty_result_def)
qed

theorem empty_signal_result_witness:
  "\<not> df_empty small_table \<and> has_column small_table ''close'' \<and>
   evaluate close_gt_100 small_table = Inr [(day 1, False), (day 2, False), (day 3, False)] \<and>
   fst (run_backtest [] small_table close_gt_100 5 ''close'') =
           Inr \<lparr>signals = [], returns = [], holding_periods = [],
                win_rate = Fin 0, avg_return = Fin 0, max_return = Fin 0, min_return = Fin 0,
                std_return = Fin 0, total_signals = 0, profitable_signals = 0,
                losing_signals = 0, avg_holding_period = Fin 0,
                parameters = [(''condition'', PStr ''close > 100.0''),
                              (''holding_period'', PInt 5),
                              (''note'', PStr ''No signals found'')]\<rparr>"
proof -
  have "\<forall>tb \<in> set [(day 1, False), (day 2, False), (day 3, False)]. \<not> snd tb" by simp
  from empty_signal_result [OF small_table_valid(2,3) eval_close_gt_100 this, of "[]" 5]
  show ?thesis
    using small_table_valid(2,3) eval_close_gt_100 by (simp add: close_gt_100_def)
qed

subsection \<open>Invariants of a result\<close>

lemma counts_bound:
  "length (filter (\<lambda>x. f_gt x (Fin 0)) rets) + length (filter (\<lambda>x. f_lt x (Fin 0)) rets)
     + length (filter (\<lambda>x. f_eq x (Fin 0)) rets) \<le> length rets"
proof (induction rets)
  case Nil
  then show ?case by simp
next
  case (Cons x xs)
  have "\<not> (f_gt x (Fin 0) \<and> f_lt x (Fin 0))" "\<not> (f_gt x (Fin 0) \<and> f_eq x (Fin 0))"
       "\<not> (f_lt x (Fin 0) \<and> f_eq x (Fin 0))"
    by (cases x; simp add: f_gt_def)+
  with Cons show ?case by auto
qed

lemma statistics_counts:
  "st_profitable_count (calculate_statistics rets hps) = length (filter (\<lambda>x. f_gt x (Fin 0)) rets)"
  "st_losing_count (calculate_statistics rets hps) = length (filter (\<lambda>x. f_lt x (Fin 0)) rets)"
  by (simp_all add: calculate_statistics_def Let_def split: list.splits)

text \<open>
  C10. In the result of a successful run the lists of signals, returns and holding periods
  have the length that \<open>total_signals\<close> gives; the profitable, the losing and the zero
  returns are counted apart, so that the profitable and the losing signals together are at
  most \<open>total_signals\<close>; and every holding period in the list is the one of the run.
\<close>

theorem result_invariants:
  assumes "fst (run_backtest lg d c h p) = Inr r"
  shows "length (signals r) = total_signals r \<and>
         length (returns r) = total_signals r \<and>
         length (holding_periods r) = total_signals r \<and>
         profitable_signals r + losing_signals r
           + length (filter (\<lambda>x. f_eq x (Fin 0)) (returns r)) \<le> total_signals r \<and>
         (\<forall>x \<in> set (holding_periods r). x = h)"
proof -
  from run_backtest_success [OF assms] obtain sigs where
    ev: "evaluate c d = Inr sigs" and
    alt: "if \<not> list_ex snd sigs then r = create_empty_result c h
          else (\<exists>evs rets hps.
                     calculate_signal_returns d sigs h p = Inr (evs, rets, hps) \<and>
                     signals r = evs \<and> returns r = rets \<and> holding_periods r = hps \<and>
                     total_signals r = length rets \<and>
                     profitable_signals r = st_profitable_count (calculate_statistics rets hps) \<and>
                     losing_signals r = st_losing_count (calculate_statistics rets hps))"
    by blast
  show ?thesis
  proof (cases "list_ex snd sigs")
    case False
    with alt have "r = create_empty_result c h" by simp
    then show ?thesis by (simp add: create_empty_result_def)
  next
    case True
    with alt obtain evs rets hps where
      loop: "calculate_signal_returns d sigs h p = Inr (evs, rets, hps)" and
      r: "signals r = evs" "returns r = rets" "holding_periods r = hps"
         "total_signals r = length rets"
         "profitable_signals r = st_profitable_count (calculate_statistics rets hps)"
         "losing_signals r = st_losing_count (calculate_statistics rets hps)"
      by auto
    from loop have inv: "length evs = length rets \<and> length hps = length rets \<and> (\<forall>x \<in> set hps. x = h)"
      unfolding calculate_signal_returns_def
      by (rule loop_invariant) simp_all
    show ?thesis
      using inv r counts_bound [of rets] by (simp add: statistics_counts)
  qed
qed

theorem result_invariants_witness:
  "\<not> isl (fst (run_backtest [] small_table close_gt_10 1 ''close'')) \<and>
   returns (projr (fst (run_backtest [] small_table close_gt_10 1 ''close''))) = [Fin (1 / 11), Fin 0] \<and>
   total_signals (projr (fst (run_backtest [] small_table close_gt_10 1 ''close''))) = 2 \<and>
   length (signals (projr (fst (run_backtest [] small_table close_gt_10 1 ''close'')))) = 2 \<and>
   length (holding_periods (projr (fst (run_backtest [] small_table close_gt_10 1 ''close'')))) = 2 \<and>
   profitable_signals (projr (fst (run_backtest [] small_table close_gt_10 1 ''close''))) +
   losing_signals (projr (fst (run_backtest [] small_table close_gt_10 1 ''close''))) + 1 \<le> 2 \<and>
   holding_periods (projr (fst (run_backtest [] small_table close_gt_10 1 ''close''))) = [1, 1]"
proof -
  let ?r = "projr (fst (run_backtest [] small_table close_gt_10 1 ''close''))"
  have "list_ex snd [(day 1, False), (day 2, True), (day 3, True)]" by simp
  from rb_signals [OF small_table_valid(2,3) eval_close_gt_10 this returns_small_1, of "[]"]
  have run: "fst (run_backtest [] small_table close_gt_10 1 ''close'') = Inr ?r"
    and rets: "returns ?r = [Fin (1 / 11), Fin 0]" "holding_periods ?r = [1, 1]"
    and nl: "\<not> isl (fst (run_backtest [] small_table close_gt_10 1 ''close''))"
    by simp_all
  from result_invariants [OF run] rets nl show ?thesis by simp
qed

subsection \<open>Determinism\<close>

text \<open>
  A condition of the first model, taken as a condition over callables, is evaluated and run
  as in the first model, and leaves the table and the state alone.
\<close>

lemma description_as_stateful: "stateful_description (as_stateful c) = description c"
  by (cases c) simp_all

lemma children_as_stateful:
  assumes "\<And>c. c \<in> set cs \<Longrightarrow> evaluate_stateful (as_stateful c) d s = (evaluate c d, d, s)"
  shows "evaluate_children (map as_stateful cs) d s = (collect (map (\<lambda>c. evaluate c d) cs), d, s)"
  using assms
proof (induction cs)
  case Nil
  show ?case by simp
next
  case (Cons c cs)
  have c: "evaluate_stateful (as_stateful c) d s = (evaluate c d, d, s)"
    using Cons.prems by simp
  have cs: "evaluate_children (map as_stateful cs) d s = (collect (map (\<lambda>c. evaluate c d) cs), d, s)"
    using Cons.IH Cons.prems by simp
  show ?case
  proof (cases "evaluate c d")
    case (Inl e)
    with c show ?thesis by simp
  next
    case (Inr r)
    with c cs show ?thesis
      by (cases "collect (map (\<lambda>c. evaluate c d) cs)") simp_all
  qed
qed

lemma evaluate_as_stateful: "evaluate_stateful (as_stateful c) d s = (evaluate c d, d, s)"
proof (induction c)
  case (NumericCompareCondition col op v desc)
  show ?case by simp
next
  case (SignalCrossCondition f sl ct desc)
  show ?case by simp
next
  case (TechnicalPatternCondition name g desc)
  show ?case by (cases "g d") simp_all
next
  case (LogicCondition op conditions desc)
  have cs: "evaluate_children (map as_stateful conditions) d s =
              (collect (map (\<lambda>c. evaluate c d) conditions), d, s)"
    by (rule children_as_stateful) (rule LogicCondition)
  show ?case
  proof (cases "collect (map (\<lambda>c. evaluate c d) conditions)")
    case (Inl e)
    with cs show ?thesis by simp
  next
    case (Inr results)
    with cs show ?thesis by (simp add: combine_results_def)
  qed
qed

lemma run_as_stateful:
  "run_backtest_stateful lg d (as_stateful c) h p s =
     (fst (run_backtest lg d c h p), snd (run_backtest lg d c h p), d, s)"
proof (cases "evaluate c d")
  case (Inl e)
  then show ?thesis
    by (simp add: run_backtest_stateful_def run_backtest_def calculate_signals_def Let_def
        evaluate_as_stateful)
next
  case (Inr sigs)
  show ?thesis
  proof (cases "calculate_signal_returns d sigs h p")
    case (Inl e)
    with Inr show ?thesis
      by (simp add: run_backtest_stateful_def run_backtest_def calculate_signals_def Let_def
          evaluate_as_stateful create_empty_result_def description_as_stateful)
  next
    case inr: (Inr res)
    obtain evs rets hps where res: "res = (evs, rets, hps)" by (rule prod_cases3)
    from Inr inr res show ?thesis
      by (simp add: run_backtest_stateful_def run_backtest_def calculate_signals_def Let_def
          evaluate_as_stateful create_empty_result_def description_as_stateful)
  qed
qed

text \<open>
  A pure condition is evaluated to the same result whatever the state, and leaves the table
  and the state alone; so is a run with it.
\<close>

lemma pure_as_stateful: "pure_condition (as_stateful c)"
  by (induction c) simp_all

lemma pure_children:
  assumes "\<And>c t t'. c \<in> set cs \<Longrightarrow>
             evaluate_stateful c d t = (fst (evaluate_stateful c d t'), d, t)"
  shows "evaluate_children cs d s = (fst (evaluate_children cs d s'), d, s)"
  using assms
proof (induction cs)
  case Nil
  show ?case by simp
next
  case (Cons c cs)
  define r where "r = fst (evaluate_stateful c d s')"
  define rs where "rs = fst (evaluate_children cs d s')"
  have c: "evaluate_stateful c d s = (r, d, s)" "evaluate_stateful c d s' = (r, d, s')"
    unfolding r_def using Cons.prems [of c s s'] Cons.prems [of c s' s'] by simp_all
  have cs: "evaluate_children cs d s = (rs, d, s)"
    unfolding rs_def using Cons.IH Cons.prems by simp
  obtain d2 s2 where cs': "evaluate_children cs d s' = (rs, d2, s2)"
    unfolding rs_def by (cases "evaluate_children cs d s'") simp
  show ?case
    by (cases r; cases rs) (simp_all add: c cs cs')
qed

lemma pure_evaluate:
  "pure_condition c \<Longrightarrow> evaluate_stateful c d s = (fst (evaluate_stateful c d s'), d, s)"
proof (induction c arbitrary: s s')
  case (StatefulNumericCompare col op v desc)
  show ?case by simp
next
  case (StatefulSignalCross f sl ct desc)
  show ?case by simp
next
  case (StatefulTechnicalPattern name g desc)
  define r where "r = fst (g d s')"
  have g: "g d s = (r, d, s)" "g d s' = (r, d, s')"
    unfolding r_def using StatefulTechnicalPattern spec [of _ d] by simp_all
  show ?case by (cases r) (simp_all add: g)
next
  case (StatefulLogic op conditions desc)
  define rs where "rs = fst (evaluate_children conditions d s')"
  have "evaluate_children conditions d t = (fst (evaluate_children conditions d t'), d, t)" for t t'
    by (rule pure_children) (use StatefulLogic in \<open>simp\<close>)
  from this [of s s'] this [of s' s']
  have cs: "evaluate_children conditions d s = (rs, d, s)"
    "evaluate_children conditions d s' = (rs, d, s')"
    unfolding rs_def by simp_all
  show ?case by (cases rs) (simp_all add: cs)
qed

lemma pure_run:
  assumes "pure_condition c"
  shows "snd (snd (run_backtest_stateful lg d c h p s)) = (d, s) \<and>
         fst (run_backtest_stateful lg' d c h p s') = fst (run_backtest_stateful lg d c h p s)"
proof -
  define e where "e = fst (evaluate_stateful c d s')"
  have ev: "evaluate_stateful c d s = (e, d, s)" "evaluate_stateful c d s' = (e, d, s')"
    unfolding e_def using pure_evaluate [OF assms, of d s s'] pure_evaluate [OF assms, of d s' s']
    by simp_all
  show ?thesis
  proof (cases e)
    case (Inl x)
    then show ?thesis by (simp add: run_backtest_stateful_def Let_def ev)
  next
    case (Inr sigs)
    show ?thesis
    proof (cases "calculate_signal_returns d sigs h p")
      case (Inl x)
      with Inr show ?thesis by (simp add: run_backtest_stateful_def Let_def ev)
    next
      case inr: (Inr res)
      obtain evs rets hps where res: "res = (evs, rets, hps)" by (rule prod_cases3)
      from Inr inr res show ?thesis by (simp add: run_backtest_stateful_def Let_def ev)
    qed
  qed
qed

text \<open>The two paths of a run that gives a result, with a condition over callables.\<close>

lemma rbs_signals:
  "\<not> df_empty d \<Longrightarrow> has_column d p \<Longrightarrow> evaluate_stateful c d s = (Inr sigs, d', s') \<Longrightarrow>
   list_ex snd sigs \<Longrightarrow> calculate_signal_returns d' sigs h p = Inr (evs, rets, hps) \<Longrightarrow>
   signals (projr (fst (run_backtest_stateful lg d c h p s))) = evs \<and>
   returns (projr (fst (run_backtest_stateful lg d c h p s))) = rets \<and>
   total_signals (projr (fst (run_backtest_stateful lg d c h p s))) = length rets \<and>
   \<not> isl (fst (run_backtest_stateful lg d c h p s)) \<and>
   snd (snd (run_backtest_stateful lg d c h p s)) = (d', s')"
  by (simp add: run_backtest_stateful_def Let_def)

lemma rbs_no_signal:
  "\<not> df_empty d \<Longrightarrow> has_column d p \<Longrightarrow> evaluate_stateful c d s = (Inr sigs, d', s') \<Longrightarrow>
   \<not> list_ex snd sigs \<Longrightarrow>
   signals (projr (fst (run_backtest_stateful lg d c h p s))) = [] \<and>
   returns (projr (fst (run_backtest_stateful lg d c h p s))) = [] \<and>
   total_signals (projr (fst (run_backtest_stateful lg d c h p s))) = 0 \<and>
   \<not> isl (fst (run_backtest_stateful lg d c h p s)) \<and>
   snd (snd (run_backtest_stateful lg d c h p s)) = (d', s')"
  by (simp add: run_backtest_stateful_def Let_def)

lemma eval_fire_once:
  "evaluate_stateful fire_once_condition small_table armed =
     (Inr [(day 1, armed), (day 2, armed), (day 3, armed)], small_table, False)"
  by (simp add: fire_once_condition_def fire_once_def small_table_def)

lemma returns_small_every_row:
  "calculate_signal_returns small_table [(day 1, True), (day 2, True), (day 3, True)] 1 ''close'' =
     Inr ([\<lparr>timestamp = day 1, signal_price = Fin 10, signal_type = ''buy'', condition_description = []\<rparr>,
           \<lparr>timestamp = day 2, signal_price = Fin 11, signal_type = ''buy'', condition_description = []\<rparr>,
           \<lparr>timestamp = day 3, signal_price = Fin 12, signal_type = ''buy'', condition_description = []\<rparr>],
          [Fin (1 / 10), Fin (1 / 11), Fin 0], [1, 1, 1])"
  by (simp add: calculate_signal_returns_def example_defs lookup_defs f_sub_def)

lemma first_run_value:
  "signals (projr (fst first_run)) =
     [\<lparr>timestamp = day 1, signal_price = Fin 10, signal_type = ''buy'', condition_description = []\<rparr>,
      \<lparr>timestamp = day 2, signal_price = Fin 11, signal_type = ''buy'', condition_description = []\<rparr>,
      \<lparr>timestamp = day 3, signal_price = Fin 12, signal_type = ''buy'', condition_description = []\<rparr>] \<and>
   returns (projr (fst first_run)) = [Fin (1 / 10), Fin (1 / 11), Fin 0] \<and>
   total_signals (projr (fst first_run)) = 3 \<and>
   \<not> isl (fst first_run) \<and>
   snd (snd first_run) = (small_table, False)"
proof -
  have "list_ex snd [(day 1, True), (day 2, True), (day 3, True)]" by simp
  from rbs_signals [OF small_table_valid(2,3) eval_fire_once this returns_small_every_row, of "[]"]
  show ?thesis by (simp add: first_run_def)
qed

lemma second_run_value:
  "signals (projr (fst second_run)) = [] \<and>
   returns (projr (fst second_run)) = [] \<and>
   total_signals (projr (fst second_run)) = 0 \<and>
   \<not> isl (fst second_run) \<and>
   snd (snd second_run) = (small_table, False)"
proof -
  have s: "fst (snd (snd first_run)) = small_table" "snd (snd (snd first_run)) = False"
    using first_run_value by simp_all
  have "\<not> list_ex snd [(day 1, False), (day 2, False), (day 3, False)]" by simp
  from rbs_no_signal [OF small_table_valid(2,3) eval_fire_once this, of "fst (snd first_run)" 1]
  show ?thesis by (simp add: second_run_def s)
qed

lemma fire_once_not_pure: "\<not> pure_condition fire_once_condition"
proof
  assume "pure_condition fire_once_condition"
  then have "fire_once small_table True = (fst (fire_once small_table True), small_table, True)"
    unfolding fire_once_condition_def by simp
  then show False by (simp add: fire_once_def)
qed

lemma eval_every_row_and_close_gt_10:
  "evaluate every_row_and_close_gt_10 small_table =
     Inr [(day 1, False), (day 2, True), (day 3, True)]"
  using eval_close_gt_10
  by (simp add: every_row_and_close_gt_10_def every_row_def series_op_def small_table_def)

text \<open>
  A pattern callable with a state of its own: the first call of the run finds three signals
  and disarms the callable, and the second call, with the same table, condition, holding
  period and price column, finds none. The evaluation of the condition on the same table
  gives two different boolean sequences.
\<close>

theorem stateful_callable_counterexample:
  "\<not> pure_condition fire_once_condition \<and>
   fst (evaluate_stateful fire_once_condition small_table True) =
     Inr [(day 1, True), (day 2, True), (day 3, True)] \<and>
   snd (evaluate_stateful fire_once_condition small_table True) = (small_table, False) \<and>
   fst (evaluate_stateful fire_once_condition small_table False) =
     Inr [(day 1, False), (day 2, False), (day 3, False)] \<and>
   \<not> isl (fst first_run) \<and>
   total_signals (projr (fst first_run)) = 3 \<and>
   returns (projr (fst first_run)) = [Fin (1 / 10), Fin (1 / 11), Fin 0] \<and>
   snd (snd first_run) = (small_table, False) \<and>
   \<not> isl (fst second_run) \<and>
   total_signals (projr (fst second_run)) = 0 \<and>
   signals (projr (fst second_run)) = [] \<and>
   returns (projr (fst second_run)) = [] \<and>
   fst second_run \<noteq> fst first_run"
proof -
  have "total_signals (projr (fst second_run)) \<noteq> total_signals (projr (fst first_run))"
    using first_run_value second_run_value by simp
  then have "fst second_run \<noteq> fst first_run" by auto
  then show ?thesis
    using first_run_value second_run_value fire_once_not_pure by (simp add: eval_fire_once)
qed

text \<open>
  C9, as amended. \<open>run_backtest\<close> is deterministic for every condition that is pure, that
  is whose pattern callables give a result that depends on the table only, and leave the
  table and their own state as they were. For such a condition \<open>c\<close>, every table, holding
  period and price column: the evaluation of the condition on the table gives the same
  boolean sequence (or the same failure) whatever the state, and changes neither the table
  nor the state; so does the run; two calls of the run with the same arguments give the
  same result, the lists of signals and returns and every statistic, or the same failure,
  whatever the logger has recorded and whatever the state; and so does a second call that
  follows the first, on the table, the state and the logger that the first has left. The
  logger is the only thing that a run writes. Every condition \<open>c'\<close> of the first model is
  pure, and its evaluation and its run as a condition over callables are those of the first
  model. A condition with a pattern callable that keeps a state is not pure, and two calls
  with the same arguments can give different results, as above.
\<close>

theorem pure_conditions_deterministic:
  "(pure_condition c \<longrightarrow>
      evaluate_stateful c d s = (fst (evaluate_stateful c d s'), d, s) \<and>
      snd (snd (run_backtest_stateful lg d c h p s)) = (d, s) \<and>
      fst (run_backtest_stateful lg' d c h p s') = fst (run_backtest_stateful lg d c h p s) \<and>
      (case run_backtest_stateful lg d c h p s of
         (r, lg1, d1, s1) \<Rightarrow> fst (run_backtest_stateful lg1 d1 c h p s1) = r)) \<and>
   pure_condition (as_stateful c' :: 's stateful_condition) \<and>
   evaluate_stateful (as_stateful c') d s = (evaluate c' d, d, s) \<and>
   run_backtest_stateful lg d (as_stateful c') h p s =
     (fst (run_backtest lg d c' h p), snd (run_backtest lg d c' h p), d, s)"
proof -
  have "fst (run_backtest_stateful lg1 d1 c h p s1) = r"
    if "pure_condition c" and "run_backtest_stateful lg d c h p s = (r, lg1, d1, s1)"
    for r lg1 d1 s1
    using pure_run [OF that(1), of lg d h p s lg1 s] that(2) by simp
  then show ?thesis
    using pure_evaluate [of c d s s'] pure_run [of c lg d h p s lg' s']
    by (auto simp add: pure_as_stateful evaluate_as_stateful run_as_stateful)
qed

theorem pure_conditions_deterministic_witness:
  "pure_condition (as_stateful every_row_and_close_gt_10 :: nat stateful_condition) \<and>
   evaluate_stateful (as_stateful every_row_and_close_gt_10) small_table (7::nat) =
     (Inr [(day 1, False), (day 2, True), (day 3, True)], small_table, 7) \<and>
   returns (projr (fst (run_backtest_stateful [] small_table
      (as_stateful every_row_and_close_gt_10) 1 ''close'' (7::nat)))) = [Fin (1 / 11), Fin 0] \<and>
   snd (snd (run_backtest_stateful [] small_table
      (as_stateful every_row_and_close_gt_10) 1 ''close'' (7::nat))) = (small_table, 7) \<and>
   fst (run_backtest_stateful [WARNING NoSignalsFound] small_table
      (as_stateful every_row_and_close_gt_10) 1 ''close'' (8::nat)) =
   fst (run_backtest_stateful [] small_table (as_stateful every_row_and_close_gt_10) 1 ''close'' (7::nat))"
proof -
  have "list_ex snd [(day 1, False), (day 2, True), (day 3, True)]" by simp
  from rb_signals [OF small_table_valid(2,3) eval_every_row_and_close_gt_10 this returns_small_1,
      of "[]"]
  have ret: "returns (projr (fst (run_backtest [] small_table every_row_and_close_gt_10 1 ''close''))) =
          [Fin (1 / 11), Fin 0]"
    by simp
  have pure: "pure_condition (as_stateful every_row_and_close_gt_10 :: nat stateful_condition)"
    by (simp add: every_row_and_close_gt_10_def close_gt_10_def)
  note det = pure_conditions_deterministic [where c = "as_stateful every_row_and_close_gt_10"
      and c' = every_row_and_close_gt_10 and d = small_table
      and s = "7::nat" and lg = "[]" and h = 1 and p = "''close''"
      and lg' = "[WARNING NoSignalsFound]" and s' = "8::nat"]
  from det pure have same:
    "snd (snd (run_backtest_stateful [] small_table
       (as_stateful every_row_and_close_gt_10) 1 ''close'' (7::nat))) = (small_table, 7)"
    "fst (run_backtest_stateful [WARNING NoSignalsFound] small_table
       (as_stateful every_row_and_close_gt_10) 1 ''close'' (8::nat)) =
     fst (run_backtest_stateful [] small_table
       (as_stateful every_row_and_close_gt_10) 1 ''close'' (7::nat))"
    by blast+
  from det have ev:
    "evaluate_stateful (as_stateful every_row_and_close_gt_10) small_table (7::nat) =
       (evaluate every_row_and_close_gt_10 small_table, small_table, 7)"
    by blast
  from det have
    "run_backtest_stateful [] small_table
       (as_stateful every_row_and_close_gt_10) 1 ''close'' (7::nat) =
     (fst (run_backtest [] small_table every_row_and_close_gt_10 1 ''close''),
      snd (run_backtest [] small_table every_row_and_close_gt_10 1 ''close''), small_table, 7)"
    by blast
  then have run:
    "fst (run_backtest_stateful [] small_table
       (as_stateful every_row_and_close_gt_10) 1 ''close'' (7::nat)) =
     fst (run_backtest [] small_table every_row_and_close_gt_10 1 ''close'')"
    by simp
  have rets: "returns (projr (fst (run_backtest_stateful [] small_table
      (as_stateful every_row_and_close_gt_10) 1 ''close'' (7::nat)))) = [Fin (1 / 11), Fin 0]"
    by (simp only: run ret)
  show ?thesis
    by (intro conjI) (rule pure, simp add: ev eval_every_row_and_close_gt_10, rule rets,
        rule same(1), rule same(2))
qed

subsection \<open>Sweeps\<close>

lemma sweep_periods_fst:
  "fst (sweep_periods d tot c hs (results, n, lg)) = results @ successful_runs d c hs"
proof (induction hs arbitrary: results n lg)
  case Nil
  show ?case by (simp add: successful_runs_def)
next
  case (Cons h hs)
  obtain x lg' where run: "run_backtest lg d c h ''close'' = (x, lg')"
    by (cases "run_backtest lg d c h ''close''") auto
  then have x: "fst (run_backtest [] d c h ''close'') = x"
    using run_backtest_logger_free [of lg d c h "''close''"] by simp
  show ?case
  proof (cases x)
    case (Inl e)
    with run x Cons [of results "n + 1" "lg' @ [ERROR (TestFailed (n + 1) tot e)]"]
    show ?thesis by (simp add: successful_runs_def)
  next
    case (Inr r)
    with run x Cons [of "results @ [r]" "n + 1" "lg' @ [INFO (TestFinished (n + 1) tot)]"]
    show ?thesis by (simp add: successful_runs_def)
  qed
qed

lemma sweep_conditions_fst:
  "fst (sweep_conditions d tot cs hs st) = fst st @ concat (map (\<lambda>c. successful_runs d c hs) cs)"
proof (induction cs arbitrary: st)
  case Nil
  show ?case by simp
next
  case (Cons c cs)
  obtain results n lg where st: "st = (results, n, lg)" by (rule prod_cases3)
  show ?case
    using Cons [of "sweep_periods d tot c hs st"] sweep_periods_fst [of d tot c hs results n lg]
    by (simp add: st)
qed

lemma run_multiple_backtests_fst:
  "fst (run_multiple_backtests lg d cs arg) =
     concat (map (\<lambda>c. successful_runs d c (holding_periods_of arg)) cs)"
proof -
  let ?hs = "holding_periods_of arg"
  let ?st = "([], 0, lg @ [INFO (SweepStarted (length cs * length ?hs))])"
  obtain results n lg2 where sw:
    "sweep_conditions d (length cs * length ?hs) cs ?hs ?st = (results, n, lg2)"
    by (rule prod_cases3)
  from sweep_conditions_fst [of d "length cs * length ?hs" cs ?hs ?st] sw
  have "results = concat (map (\<lambda>c. successful_runs d c ?hs) cs)" by simp
  with sw show ?thesis
    by (simp add: run_multiple_backtests_def holding_periods_of_def Let_def)
qed

lemma successful_runs_length: "length (successful_runs d c hs) \<le> length hs"
  by (induction hs) (auto simp: successful_runs_def split: sum.splits)

lemma successful_runs_failed:
  assumes "isl (evaluate c d)"
  shows "successful_runs d c hs = []"
proof -
  from assms obtain e where e: "evaluate c d = Inl e" by (cases "evaluate c d") auto
  have "\<exists>e'. fst (run_backtest [] d c h ''close'') = Inl e'" for h
  proof (cases "df_empty d")
    case True
    then show ?thesis by (simp add: rb_empty)
  next
    case ne: False
    show ?thesis
    proof (cases "has_column d ''close''")
      case False
      with ne show ?thesis by (simp add: rb_no_column)
    next
      case True
      from rb_eval_failed [OF ne True e] show ?thesis by simp
    qed
  qed
  then have "(case fst (run_backtest [] d c h ''close'') of Inr r \<Rightarrow> [r] | Inl e' \<Rightarrow> []) = []" for h
    by (metis sum.case(1))
  then show ?thesis
    by (simp add: successful_runs_def)
qed

lemma successful_runs_all:
  assumes "wf_table d" and "\<not> df_empty d" and "has_column d ''close''"
    and "evaluate c d = Inr sigs"
    and "\<forall>h \<in> set hs. \<forall>t \<in> set (index d). \<not> isl (add_days t h)"
  shows "length (successful_runs d c hs) = length hs"
  using assms(5)
proof (induction hs)
  case Nil
  show ?case by (simp add: successful_runs_def)
next
  case (Cons h hs)
  then have range: "\<forall>t \<in> set (index d). \<not> isl (add_days t h)" by simp
  from run_backtest_succeeds [OF assms(1,2,3) range assms(4), of "[]"]
  have "length (case fst (run_backtest [] d c h ''close'') of Inr r \<Rightarrow> [r] | Inl e \<Rightarrow> []) = 1"
    by auto
  with Cons show ?case by (simp add: successful_runs_def)
qed

lemma sweep_length:
  "length (concat (map (\<lambda>c. successful_runs d c hs) cs))
     \<le> length hs * length (filter (\<lambda>c. \<not> isl (evaluate c d)) cs)"
proof (induction cs)
  case Nil
  show ?case by simp
next
  case (Cons c cs)
  show ?case
  proof (cases "isl (evaluate c d)")
    case True
    with Cons successful_runs_failed [OF True, of hs] show ?thesis by simp
  next
    case False
    with Cons successful_runs_length [of d c hs] show ?thesis by simp
  qed
qed

text \<open>
  The claim C8 has a sweep of 3 conditions and 2 holding periods give 5 results when one
  condition is malformed. A condition whose evaluation fails fails with every holding
  period, so both of its runs are left out: the sweep gives 4 results.
\<close>

theorem sweep_five_results_counterexample:
  "isl (evaluate rsi_gt_30 small_table) \<and>
   \<not> isl (evaluate close_gt_10 small_table) \<and>
   \<not> isl (evaluate close_gt_100 small_table) \<and>
   length (fst (run_multiple_backtests [] small_table [close_gt_10, rsi_gt_30, close_gt_100]
                  (Some [1, 2]))) = 4"
proof -
  have 1: "length (successful_runs small_table close_gt_10 [1, 2]) = 2"
    using successful_runs_all [OF small_table_valid eval_close_gt_10, of "[1, 2]"]
      small_table_in_range(1,2) by simp
  have 2: "successful_runs small_table rsi_gt_30 [1, 2] = []"
    by (rule successful_runs_failed) (simp add: eval_rsi_gt_30)
  have 3: "length (successful_runs small_table close_gt_100 [1, 2]) = 2"
    using successful_runs_all [OF small_table_valid eval_close_gt_100, of "[1, 2]"]
      small_table_in_range(1,2) by simp
  have "length (fst (run_multiple_backtests [] small_table [close_gt_10, rsi_gt_30, close_gt_100]
                  (Some [1, 2]))) = 4"
    using 1 2 3 by (simp add: run_multiple_backtests_fst holding_periods_of_def)
  then show ?thesis
    by (simp add: eval_rsi_gt_30 eval_close_gt_10 eval_close_gt_100)
qed

text \<open>
  C8, as amended. A sweep returns a list (it has no failure): the results of the runs that
  succeed, condition by condition and, for each, holding period by holding period (the
  default periods are 3, 5, 10 and 20). A condition whose evaluation fails contributes no
  result, so the results are at most the number of periods times the number of conditions
  that evaluate; with 3 conditions, one of them malformed, and 2 periods they are at most 4.
\<close>

theorem sweep_results:
  "fst (run_multiple_backtests lg d cs arg) =
     concat (map (\<lambda>c. concat (map (\<lambda>h. case fst (run_backtest [] d c h ''close'') of
                                          Inr r \<Rightarrow> [r]
                                        | Inl e \<Rightarrow> [])
                              (case arg of None \<Rightarrow> [3, 5, 10, 20] | Some l \<Rightarrow> l))) cs) \<and>
   length (fst (run_multiple_backtests lg d cs arg))
     \<le> length (case arg of None \<Rightarrow> [3, 5, 10, 20] | Some l \<Rightarrow> l)
        * length (filter (\<lambda>c. \<not> isl (evaluate c d)) cs) \<and>
   (length cs = 3 \<and> arg = Some hs \<and> length hs = 2 \<and> (\<exists>c \<in> set cs. isl (evaluate c d)) \<longrightarrow>
      length (fst (run_multiple_backtests lg d cs arg)) \<le> 4)"
proof -
  have eq: "fst (run_multiple_backtests lg d cs arg) =
     concat (map (\<lambda>c. successful_runs d c (holding_periods_of arg)) cs)"
    by (rule run_multiple_backtests_fst)
  have len: "length (fst (run_multiple_backtests lg d cs arg))
     \<le> length (holding_periods_of arg) * length (filter (\<lambda>c. \<not> isl (evaluate c d)) cs)"
    unfolding eq by (rule sweep_length)
  have four: "length (fst (run_multiple_backtests lg d cs arg)) \<le> 4"
    if "length cs = 3" "arg = Some hs" "length hs = 2" "\<exists>c \<in> set cs. isl (evaluate c d)"
  proof -
    from that(4) obtain c where "c \<in> set cs" "\<not> \<not> isl (evaluate c d)" by auto
    then have "length (filter (\<lambda>c. \<not> isl (evaluate c d)) cs) < length cs"
      by (rule length_filter_less)
    with that(1) have "length (filter (\<lambda>c. \<not> isl (evaluate c d)) cs) \<le> 2" by simp
    then have "length hs * length (filter (\<lambda>c. \<not> isl (evaluate c d)) cs) \<le> 2 * 2"
      using that(3) by simp
    with len that(2) show ?thesis by (simp add: holding_periods_of_def)
  qed
  show ?thesis
    using eq len four
    by (simp add: successful_runs_def holding_periods_of_def)
qed

theorem sweep_results_witness:
  "length [close_gt_10, rsi_gt_30, close_gt_100] = 3 \<and> length [1, 2 :: int] = 2 \<and>
   isl (evaluate rsi_gt_30 small_table) \<and>
   length (fst (run_multiple_backtests [] small_table [close_gt_10, rsi_gt_30, close_gt_100]
                  (Some [1, 2]))) \<le> 4"
proof -
  have bad: "\<exists>c \<in> set [close_gt_10, rsi_gt_30, close_gt_100]. isl (evaluate c small_table)"
    by (simp add: eval_rsi_gt_30)
  have "length [close_gt_10, rsi_gt_30, close_gt_100] = 3 \<and> Some [1, 2 :: int] = Some [1, 2] \<and>
        length [1, 2 :: int] = 2"
    by simp
  with bad sweep_results [of "[]" small_table "[close_gt_10, rsi_gt_30, close_gt_100]" "Some [1, 2]" "[1, 2]"]
  have "length (fst (run_multiple_backtests [] small_table [close_gt_10, rsi_gt_30, close_gt_100]
                  (Some [1, 2]))) \<le> 4"
    by blast
  then show ?thesis by (simp add: eval_rsi_gt_30)
qed

subsection \<open>The parser\<close>

lemma starts_with_iff: "starts_with p s = (\<exists>b. s = p @ b)"
  unfolding starts_with_def
  by (metis append_eq_conv_conj append_take_drop_id)

lemma contains_iff: "contains sep s = (\<exists>a b. s = a @ sep @ b)"
proof (induction s)
  case Nil
  show ?case by auto
next
  case (Cons c cs)
  show ?case
  proof
    assume "contains sep (c # cs)"
    then consider "starts_with sep (c # cs)" | "contains sep cs" by auto
    then show "\<exists>a b. c # cs = a @ sep @ b"
    proof cases
      case 1
      then obtain b where "c # cs = sep @ b" by (auto simp: starts_with_iff)
      then have "c # cs = [] @ sep @ b" by simp
      then show ?thesis by blast
    next
      case 2
      with Cons obtain a b where "cs = a @ sep @ b" by auto
      then have "c # cs = (c # a) @ sep @ b" by simp
      then show ?thesis by blast
    qed
  next
    assume "\<exists>a b. c # cs = a @ sep @ b"
    then obtain a b where ab: "c # cs = a @ sep @ b" by blast
    show "contains sep (c # cs)"
    proof (cases a)
      case Nil
      with ab have "starts_with sep (c # cs)" by (auto simp: starts_with_iff)
      then show ?thesis by simp
    next
      case (Cons x a')
      with ab have "cs = a' @ sep @ b" by simp
      with Cons.IH have "contains sep cs" by blast
      then show ?thesis by simp
    qed
  qed
qed

lemma py_split_from_nonempty: "py_split_from sep acc s \<noteq> []"
  by (induction sep acc s rule: py_split_from.induct) auto

lemma join_py_split_from:
  "sep \<noteq> [] \<Longrightarrow> join sep (py_split_from sep acc s) = acc @ s"
proof (induction sep acc s rule: py_split_from.induct)
  case (1 sep acc)
  show ?case by simp
next
  case (2 sep acc c cs)
  show ?case
  proof (cases "starts_with sep (c # cs)")
    case True
    then obtain b where b: "c # cs = sep @ b" by (auto simp: starts_with_iff)
    with "2.prems" have d: "drop (length sep - 1) cs = b"
      by (cases sep) auto
    obtain y ys where ys: "py_split_from sep [] b = y # ys"
      using py_split_from_nonempty [of sep "[]" b] by (cases "py_split_from sep [] b") auto
    from "2.IH"(1) [OF True "2.prems"] d have j: "join sep (py_split_from sep [] b) = b" by simp
    have "py_split_from sep acc (c # cs) = acc # py_split_from sep [] b"
      using True d by simp
    then have "join sep (py_split_from sep acc (c # cs)) = acc @ sep @ b"
      using ys j by simp
    then show ?thesis by (simp only: b)
  next
    case False
    with "2.IH"(2) [OF False "2.prems"] show ?thesis by simp
  qed
qed

lemma py_split_from_no_sep:
  assumes "sep \<noteq> []"
    and "\<forall>a b. acc @ s = a @ sep @ b \<longrightarrow> length acc \<le> length a"
    and "p \<in> set (py_split_from sep acc s)"
  shows "\<not> contains sep p"
  using assms
proof (induction sep acc s rule: py_split_from.induct)
  case (1 sep acc)
  then have p: "p = acc" by simp
  show ?case
  proof
    assume "contains sep p"
    then obtain a b where ab: "acc = a @ sep @ b" using p by (auto simp: contains_iff)
    then have "acc @ [] = a @ sep @ b" by simp
    with "1.prems"(2) have "length acc \<le> length a" by blast
    with ab "1.prems"(1) show False by simp
  qed
next
  case (2 sep acc c cs)
  have acc_free: "\<not> contains sep acc"
  proof
    assume "contains sep acc"
    then obtain a b where ab: "acc = a @ sep @ b" by (auto simp: contains_iff)
    then have "acc @ c # cs = a @ sep @ (b @ c # cs)" by simp
    with "2.prems"(2) have "length acc \<le> length a" by blast
    with ab "2.prems"(1) show False by simp
  qed
  show ?case
  proof (cases "starts_with sep (c # cs)")
    case True
    with "2.prems"(3) have "p = acc \<or> p \<in> set (py_split_from sep [] (drop (length sep - 1) cs))"
      by simp
    then show ?thesis
    proof
      assume "p = acc"
      with acc_free show ?thesis by simp
    next
      assume "p \<in> set (py_split_from sep [] (drop (length sep - 1) cs))"
      with "2.IH"(1) [OF True "2.prems"(1)] show ?thesis by simp
    qed
  next
    case False
    with "2.prems"(3) have mem: "p \<in> set (py_split_from sep (acc @ [c]) cs)" by simp
    have inv: "\<forall>a b. (acc @ [c]) @ cs = a @ sep @ b \<longrightarrow> length (acc @ [c]) \<le> length a"
    proof (intro allI impI)
      fix a b
      assume eq: "(acc @ [c]) @ cs = a @ sep @ b"
      then have eq': "acc @ c # cs = a @ sep @ b" by simp
      with "2.prems"(2) have le: "length acc \<le> length a" by blast
      have "length a \<noteq> length acc"
      proof
        assume "length a = length acc"
        with eq' have "c # cs = sep @ b" by (metis append_eq_append_conv)
        with False show False by (auto simp: starts_with_iff)
      qed
      with le show "length (acc @ [c]) \<le> length a" by simp
    qed
    from "2.IH"(2) [OF False "2.prems"(1) inv mem] show ?thesis .
  qed
qed

lemma py_split_parts:
  assumes "sep \<noteq> []"
  shows "join sep (py_split sep s) = s \<and> (\<forall>p \<in> set (py_split sep s). \<not> contains sep p)"
  using join_py_split_from [OF assms, of "[]" s] py_split_from_no_sep [OF assms, of "[]" s]
  by (simp add: py_split_def)

lemma py_split_from_two:
  "contains sep s \<Longrightarrow> sep \<noteq> [] \<Longrightarrow> 2 \<le> length (py_split_from sep acc s)"
proof (induction sep acc s rule: py_split_from.induct)
  case (1 sep acc)
  then show ?case by simp
next
  case (2 sep acc c cs)
  show ?case
  proof (cases "starts_with sep (c # cs)")
    case True
    have "1 \<le> length (py_split_from sep [] (drop (length sep - 1) cs))"
      using py_split_from_nonempty [of sep "[]" "drop (length sep - 1) cs"]
      by (cases "py_split_from sep [] (drop (length sep - 1) cs)") auto
    with True show ?thesis by simp
  next
    case False
    with "2.prems" "2.IH"(2) show ?thesis by simp
  qed
qed

lemma word_not_space: "is_word c \<Longrightarrow> \<not> is_space c"
  by (auto simp: is_word_def is_space_def Let_def)

lemma value_not_space: "is_value_char c \<Longrightarrow> \<not> is_space c"
  by (auto simp: is_value_char_def is_digit_def is_space_def Let_def)

lemma value_not_equals: "is_value_char c \<Longrightarrow> c \<noteq> CHR ''=''"
  by (auto simp: is_value_char_def is_digit_def Let_def)

lemma space_not_equals: "is_space c \<Longrightarrow> c \<noteq> CHR ''=''"
  by (auto simp: is_space_def Let_def)

lemma operator_head:
  "\<exists>c cs. operator_value op = c # cs \<and> \<not> is_word c \<and> \<not> is_space c"
  by (cases op) (simp_all add: is_word_def is_space_def)

lemma strip_id:
  assumes "s \<noteq> []" and "\<not> is_space (hd s)" and "\<not> is_space (last s)"
  shows "strip s = s"
proof -
  have 1: "dropWhile is_space s = s"
    using assms(1,2) by (cases s) auto
  have "rev s \<noteq> []" "\<not> is_space (hd (rev s))"
    using assms(1,3) by (simp_all add: hd_rev)
  then have 2: "dropWhile is_space (rev s) = rev s"
    by (cases "rev s") auto
  show ?thesis by (simp add: strip_def 1 2)
qed

lemma dropWhile_spaces:
  assumes "list_all is_space ws" and "r \<noteq> []" and "\<not> is_space (hd r)"
  shows "dropWhile is_space (ws @ r) = r"
proof -
  have "dropWhile is_space (ws @ r) = dropWhile is_space r"
    using assms(1) by (intro dropWhile_append2) (simp add: list_all_iff)
  also have "\<dots> = r" using assms(2,3) by (cases r) auto
  finally show ?thesis .
qed

lemma match_operator_value:
  assumes "r \<noteq> []" and "hd r \<noteq> CHR ''=''"
  shows "match_operator (operator_value op @ r) = Some (operator_value op, r)"
proof -
  from assms obtain x xs where r: "r = x # xs" "x \<noteq> CHR ''=''" by (cases r) auto
  show ?thesis
    unfolding r by (cases op) (simp_all add: match_operator_def starts_with_def r(2))
qed

lemma comparison_operator_of_value: "comparison_operator_of (operator_value op) = Some op"
  by (cases op) (simp_all add: comparison_operator_of_def)

lemma match_numeric_atom:
  assumes col: "col \<noteq> []" "list_all is_word col"
    and ws: "list_all is_space ws1" "list_all is_space ws2"
    and num: "num \<noteq> []" "list_all is_value_char num"
  shows "match_numeric (col @ ws1 @ operator_value op @ ws2 @ num) = Some (col, operator_value op, num)"
proof -
  let ?opr = "operator_value op @ ws2 @ num"
  let ?rest = "ws1 @ ?opr"
  obtain c cs where opv: "operator_value op = c # cs" "\<not> is_word c" "\<not> is_space c"
    using operator_head by blast
  have hd_num: "is_value_char (hd num)"
    using num by (cases num) auto
  have hd_rest: "?rest \<noteq> []" "\<not> is_word (hd ?rest)"
  proof -
    show "?rest \<noteq> []" using opv(1) by simp
    show "\<not> is_word (hd ?rest)"
    proof (cases ws1)
      case Nil
      then show ?thesis using opv by simp
    next
      case (Cons w ws)
      with ws(1) have "is_space w" by simp
      with Cons show ?thesis using word_not_space by auto
    qed
  qed
  have tw: "takeWhile is_word (col @ ?rest) = col"
  proof -
    have "takeWhile is_word (col @ ?rest) = col @ takeWhile is_word ?rest"
      using col(2) by (intro takeWhile_append2) (simp add: list_all_iff)
    moreover have "takeWhile is_word ?rest = []"
      using hd_rest by (cases ?rest) auto
    ultimately show ?thesis by simp
  qed
  have dw: "dropWhile is_word (col @ ?rest) = ?rest"
  proof -
    have "dropWhile is_word (col @ ?rest) = dropWhile is_word ?rest"
      using col(2) by (intro dropWhile_append2) (simp add: list_all_iff)
    moreover have "dropWhile is_word ?rest = ?rest"
      using hd_rest by (cases ?rest) auto
    ultimately show ?thesis by simp
  qed
  have ds1: "dropWhile is_space ?rest = ?opr"
    by (rule dropWhile_spaces [OF ws(1)]) (use opv in simp_all)
  have tail: "ws2 @ num \<noteq> []" "hd (ws2 @ num) \<noteq> CHR ''=''"
  proof -
    show "ws2 @ num \<noteq> []" using num(1) by simp
    show "hd (ws2 @ num) \<noteq> CHR ''=''"
    proof (cases ws2)
      case Nil
      then show ?thesis using hd_num value_not_equals by auto
    next
      case (Cons w ws)
      with ws(2) have "is_space w" by simp
      with Cons show ?thesis using space_not_equals by auto
    qed
  qed
  have mo: "match_operator ?opr = Some (operator_value op, ws2 @ num)"
    by (rule match_operator_value [OF tail])
  have ds2: "dropWhile is_space (ws2 @ num) = num"
    by (rule dropWhile_spaces [OF ws(2) num(1)]) (use hd_num value_not_space in auto)
  show ?thesis
    by (simp only: match_numeric_def Let_def tw dw ds1 mo ds2 option.case prod.case)
       (simp add: col(1) num)
qed

lemma parse_numeric_atom:
  assumes col: "col \<noteq> []" "list_all is_word col"
    and ws: "list_all is_space ws1" "list_all is_space ws2"
    and num: "num \<noteq> []" "list_all is_value_char num"
    and v: "py_float num = Some v"
  shows "parse_numeric_condition fmt (col @ ws1 @ operator_value op @ ws2 @ num) =
           Inr (NumericCompareCondition col op (Fin v)
                  (col @ '' '' @ operator_value op @ '' '' @ fmt (Fin v)))"
proof -
  let ?s = "col @ ws1 @ operator_value op @ ws2 @ num"
  have "\<not> is_space (hd ?s)"
    using col word_not_space by (cases col) auto
  moreover have "\<not> is_space (last ?s)"
    using num value_not_space [of "last num"] by (simp add: list_all_iff)
  moreover have "?s \<noteq> []" using col(1) by simp
  ultimately have st: "strip ?s = ?s" by (rule strip_id [rotated 1])
  show ?thesis
    unfolding parse_numeric_condition_def st match_numeric_atom [OF col ws num]
    by (simp add: v create_numeric_condition_def comparison_operator_of_value
        numeric_compare_condition_def)
qed

lemma parse_failure_names_input:
  "parse_condition_string fmt s = Inl e \<Longrightarrow> \<exists>cause. e = ParseFailed (strip s) cause"
  by (subst (asm) parse_condition_string.simps)
     (auto simp: reraise_def Let_def split: sum.splits)

lemma collect_length: "collect xs = Inr ys \<Longrightarrow> length ys = length xs"
proof (induction xs arbitrary: ys)
  case Nil
  then show ?case by simp
next
  case (Cons x xs)
  then show ?case
    by (cases x; cases "collect xs") auto
qed

lemma parse_not_case:
  assumes "starts_with ''NOT '' (strip s)"
  shows "parse_condition_string fmt s =
           reraise (strip s)
             (case parse_condition_string fmt (strip (drop 4 (strip s))) of
                Inl e \<Rightarrow> Inl e
              | Inr c \<Rightarrow> Inr (logic_condition NOT [c]))"
  by (subst parse_condition_string.simps, unfold Let_def create_not_condition_def)
     (simp add: assms)

lemma parse_paren_case:
  assumes "\<not> starts_with ''NOT '' (strip s)"
    and "starts_with ''('' (strip s) \<and> ends_with '')'' (strip s)"
  shows "parse_condition_string fmt s =
           reraise (strip s) (parse_condition_string fmt (strip (butlast (tl (strip s)))))"
  by (subst parse_condition_string.simps, unfold Let_def) (simp add: assms)

lemma parse_split_case:
  assumes "\<not> starts_with ''NOT '' (strip s)"
    and "\<not> (starts_with ''('' (strip s) \<and> ends_with '')'' (strip s))"
  shows "contains '' AND '' (strip s) \<Longrightarrow>
           parse_condition_string fmt s =
             reraise (strip s)
               (case collect (map (\<lambda>p. parse_condition_string fmt (strip p))
                                (py_split '' AND '' (strip s))) of
                  Inl e \<Rightarrow> Inl e
                | Inr conditions \<Rightarrow> Inr (logic_condition AND conditions))"
    and "\<not> contains '' AND '' (strip s) \<Longrightarrow> contains '' OR '' (strip s) \<Longrightarrow>
           parse_condition_string fmt s =
             reraise (strip s)
               (case collect (map (\<lambda>p. parse_condition_string fmt (strip p))
                                (py_split '' OR '' (strip s))) of
                  Inl e \<Rightarrow> Inl e
                | Inr conditions \<Rightarrow> Inr (logic_condition OR conditions))"
proof -
  have two: "2 \<le> length ys"
    if "contains sep (strip s)" "sep \<noteq> []"
       "collect (map (\<lambda>p. parse_condition_string fmt (strip p)) (py_split sep (strip s))) = Inr ys"
    for sep ys
    using collect_length [OF that(3)] py_split_from_two [OF that(1,2), of "[]"]
    by (simp add: py_split_def)
  {
    assume c: "contains '' AND '' (strip s)"
    let ?r = "collect (map (\<lambda>p. parse_condition_string fmt (strip p)) (py_split '' AND '' (strip s)))"
    have "(case ?r of Inl e \<Rightarrow> Inl e | Inr conditions \<Rightarrow> create_and_condition conditions) =
          (case ?r of Inl e \<Rightarrow> Inl e | Inr conditions \<Rightarrow> Inr (logic_condition AND conditions))"
      using two [OF c] by (cases ?r) (auto simp: create_and_condition_def)
    then show "parse_condition_string fmt s =
             reraise (strip s)
               (case ?r of Inl e \<Rightarrow> Inl e | Inr conditions \<Rightarrow> Inr (logic_condition AND conditions))"
      by (subst parse_condition_string.simps, unfold Let_def) (simp add: assms c comp_def)
  }
  {
    assume nc: "\<not> contains '' AND '' (strip s)" and c: "contains '' OR '' (strip s)"
    let ?r = "collect (map (\<lambda>p. parse_condition_string fmt (strip p)) (py_split '' OR '' (strip s)))"
    have "(case ?r of Inl e \<Rightarrow> Inl e | Inr conditions \<Rightarrow> create_or_condition conditions) =
          (case ?r of Inl e \<Rightarrow> Inl e | Inr conditions \<Rightarrow> Inr (logic_condition OR conditions))"
      using two [OF c] by (cases ?r) (auto simp: create_or_condition_def)
    then show "parse_condition_string fmt s =
             reraise (strip s)
               (case ?r of Inl e \<Rightarrow> Inl e | Inr conditions \<Rightarrow> Inr (logic_condition OR conditions))"
      by (subst parse_condition_string.simps, unfold Let_def) (simp add: assms c nc comp_def)
  }
qed

lemma parse_atom_case:
  assumes "\<not> starts_with ''NOT '' (strip s)"
    and "\<not> (starts_with ''('' (strip s) \<and> ends_with '')'' (strip s))"
    and "\<not> contains '' AND '' (strip s)" and "\<not> contains '' OR '' (strip s)"
  shows "parse_condition_string fmt s = reraise (strip s) (parse_numeric_condition fmt (strip s))"
  by (subst parse_condition_string.simps, unfold Let_def) (simp add: assms)

lemmas char_defs = is_space_def is_word_def is_digit_def is_value_char_def
lemmas string_defs = strip_def starts_with_def ends_with_def py_split_def Let_def
lemmas parse_defs = parse_numeric_condition_def match_numeric_def match_operator_def
  py_float_def unsigned_float_def digits_value_def create_numeric_condition_def
  comparison_operator_of_def numeric_compare_condition_def reraise_def
  create_and_condition_def create_or_condition_def create_not_condition_def logic_condition_def

text \<open>
  C7, as amended. The parser strips the white space around its input. A failure is a
  \<open>ValueError\<close> that names the stripped input and holds the cause. A leading \<open>"NOT "\<close>
  negates the parse of the rest. Otherwise an input that starts with \<open>(\<close> and ends with
  \<open>)\<close> loses these two characters, whether they match each other or not. Otherwise the
  input is cut at every occurrence of \<open>" AND "\<close>, or of \<open>" OR "\<close> when there is no
  \<open>" AND "\<close>, inside parentheses or not: the parts joined by the separator are the input,
  and no part holds the separator; the parts are parsed from left to right. Otherwise the
  input is an atomic comparison: an identifier, one of the six operators and a number, with
  optional white space between them, parse to the comparison with that operator, so that
  \<open>>=\<close> and \<open><=\<close> are not read as \<open>>\<close> and \<open><\<close>.
\<close>

theorem parser_behaviour:
  "(parse_condition_string fmt s = Inl e \<longrightarrow> (\<exists>cause. e = ParseFailed (strip s) cause)) \<and>
   (starts_with ''NOT '' (strip s) \<longrightarrow>
      parse_condition_string fmt s =
        reraise (strip s)
          (case parse_condition_string fmt (strip (drop 4 (strip s))) of
             Inl e \<Rightarrow> Inl e
           | Inr c \<Rightarrow> Inr (logic_condition NOT [c]))) \<and>
   (\<not> starts_with ''NOT '' (strip s) \<and>
    starts_with ''('' (strip s) \<and> ends_with '')'' (strip s) \<longrightarrow>
      parse_condition_string fmt s =
        reraise (strip s) (parse_condition_string fmt (strip (butlast (tl (strip s)))))) \<and>
   (\<not> starts_with ''NOT '' (strip s) \<and>
    \<not> (starts_with ''('' (strip s) \<and> ends_with '')'' (strip s)) \<and>
    contains '' AND '' (strip s) \<longrightarrow>
      parse_condition_string fmt s =
        reraise (strip s)
          (case collect (map (\<lambda>p. parse_condition_string fmt (strip p))
                           (py_split '' AND '' (strip s))) of
             Inl e \<Rightarrow> Inl e
           | Inr conditions \<Rightarrow> Inr (logic_condition AND conditions)) \<and>
      join '' AND '' (py_split '' AND '' (strip s)) = strip s \<and>
      (\<forall>p \<in> set (py_split '' AND '' (strip s)). \<not> contains '' AND '' p)) \<and>
   (\<not> starts_with ''NOT '' (strip s) \<and>
    \<not> (starts_with ''('' (strip s) \<and> ends_with '')'' (strip s)) \<and>
    \<not> contains '' AND '' (strip s) \<and> contains '' OR '' (strip s) \<longrightarrow>
      parse_condition_string fmt s =
        reraise (strip s)
          (case collect (map (\<lambda>p. parse_condition_string fmt (strip p))
                           (py_split '' OR '' (strip s))) of
             Inl e \<Rightarrow> Inl e
           | Inr conditions \<Rightarrow> Inr (logic_condition OR conditions)) \<and>
      join '' OR '' (py_split '' OR '' (strip s)) = strip s \<and>
      (\<forall>p \<in> set (py_split '' OR '' (strip s)). \<not> contains '' OR '' p)) \<and>
   (\<not> starts_with ''NOT '' (strip s) \<and>
    \<not> (starts_with ''('' (strip s) \<and> ends_with '')'' (strip s)) \<and>
    \<not> contains '' AND '' (strip s) \<and> \<not> contains '' OR '' (strip s) \<longrightarrow>
      parse_condition_string fmt s = reraise (strip s) (parse_numeric_condition fmt (strip s))) \<and>
   (col \<noteq> [] \<and> list_all is_word col \<and> list_all is_space ws1 \<and> list_all is_space ws2 \<and>
    num \<noteq> [] \<and> list_all is_value_char num \<and> py_float num = Some v \<longrightarrow>
      parse_numeric_condition fmt (col @ ws1 @ operator_value op @ ws2 @ num) =
        Inr (NumericCompareCondition col op (Fin v)
               (col @ '' '' @ operator_value op @ '' '' @ fmt (Fin v))))"
proof (intro conjI impI)
  assume "parse_condition_string fmt s = Inl e"
  then show "\<exists>cause. e = ParseFailed (strip s) cause"
    by (rule parse_failure_names_input)
next
  assume "starts_with ''NOT '' (strip s)"
  then show "parse_condition_string fmt s =
        reraise (strip s)
          (case parse_condition_string fmt (strip (drop 4 (strip s))) of
             Inl e \<Rightarrow> Inl e
           | Inr c \<Rightarrow> Inr (logic_condition NOT [c]))"
    by (rule parse_not_case)
next
  assume "\<not> starts_with ''NOT '' (strip s) \<and>
    starts_with ''('' (strip s) \<and> ends_with '')'' (strip s)"
  then show "parse_condition_string fmt s =
        reraise (strip s) (parse_condition_string fmt (strip (butlast (tl (strip s)))))"
    using parse_paren_case by blast
next
  assume a: "\<not> starts_with ''NOT '' (strip s) \<and>
    \<not> (starts_with ''('' (strip s) \<and> ends_with '')'' (strip s)) \<and>
    contains '' AND '' (strip s)"
  then show "parse_condition_string fmt s =
        reraise (strip s)
          (case collect (map (\<lambda>p. parse_condition_string fmt (strip p))
                           (py_split '' AND '' (strip s))) of
             Inl e \<Rightarrow> Inl e
           | Inr conditions \<Rightarrow> Inr (logic_condition AND conditions))"
    using parse_split_case(1) [of s fmt] by blast
  show "join '' AND '' (py_split '' AND '' (strip s)) = strip s"
    using py_split_parts [of "'' AND ''" "strip s"] by simp
  show "\<forall>p \<in> set (py_split '' AND '' (strip s)). \<not> contains '' AND '' p"
    using py_split_parts [of "'' AND ''" "strip s"] by simp
next
  assume a: "\<not> starts_with ''NOT '' (strip s) \<and>
    \<not> (starts_with ''('' (strip s) \<and> ends_with '')'' (strip s)) \<and>
    \<not> contains '' AND '' (strip s) \<and> contains '' OR '' (strip s)"
  then show "parse_condition_string fmt s =
        reraise (strip s)
          (case collect (map (\<lambda>p. parse_condition_string fmt (strip p))
                           (py_split '' OR '' (strip s))) of
             Inl e \<Rightarrow> Inl e
           | Inr conditions \<Rightarrow> Inr (logic_condition OR conditions))"
    using parse_split_case(2) [of s fmt] by blast
  show "join '' OR '' (py_split '' OR '' (strip s)) = strip s"
    using py_split_parts [of "'' OR ''" "strip s"] by simp
  show "\<forall>p \<in> set (py_split '' OR '' (strip s)). \<not> contains '' OR '' p"
    using py_split_parts [of "'' OR ''" "strip s"] by simp
next
  assume "\<not> starts_with ''NOT '' (strip s) \<and>
    \<not> (starts_with ''('' (strip s) \<and> ends_with '')'' (strip s)) \<and>
    \<not> contains '' AND '' (strip s) \<and> \<not> contains '' OR '' (strip s)"
  then show "parse_condition_string fmt s = reraise (strip s) (parse_numeric_condition fmt (strip s))"
    using parse_atom_case by blast
next
  assume "col \<noteq> [] \<and> list_all is_word col \<and> list_all is_space ws1 \<and> list_all is_space ws2 \<and>
    num \<noteq> [] \<and> list_all is_value_char num \<and> py_float num = Some v"
  then show "parse_numeric_condition fmt (col @ ws1 @ operator_value op @ ws2 @ num) =
        Inr (NumericCompareCondition col op (Fin v)
               (col @ '' '' @ operator_value op @ '' '' @ fmt (Fin v)))"
    using parse_numeric_atom by blast
qed

lemma parse_rsi: "parse_condition_string example_format ''RSI_14 > 30'' =
   Inr (NumericCompareCondition ''RSI_14'' GREATER_THAN (Fin 30) ''RSI_14 > 30.0'')"
  by (simp add: parse_condition_string.simps [of _ "''RSI_14 > 30''"] char_defs string_defs
      parse_defs example_format_def)

lemma parse_macd: "parse_condition_string example_format ''MACD <= 0'' =
   Inr (NumericCompareCondition ''MACD'' LESS_EQUAL (Fin 0) ''MACD <= 0.0'')"
  by (simp add: parse_condition_string.simps [of _ "''MACD <= 0''"] char_defs string_defs
      parse_defs example_format_def)

lemma parse_open_atom: "parse_condition_string example_format ''(A > 1'' =
   Inl (ParseFailed ''(A > 1'' (InvalidFormat ''(A > 1''))"
  by (simp add: parse_condition_string.simps [of _ "''(A > 1''"] char_defs string_defs parse_defs)

text \<open>
  The claim C7 has the parser split on the \<open>AND\<close> and \<open>OR\<close> tokens outside parentheses
  only. The code splits wherever \<open>" AND "\<close> occurs: in the string below the first part ends
  inside the parentheses, at depth 1, and the parse fails, although the string is a
  disjunction whose first operand is a parenthesised conjunction.
\<close>

theorem nested_split_counterexample:
  "paren_depth ''(A > 1'' = 1 \<and>
   py_split '' AND '' ''(A > 1 AND B > 2) OR C > 3'' = [''(A > 1'', ''B > 2) OR C > 3''] \<and>
   parse_condition_string example_format ''(A > 1 AND B > 2) OR C > 3'' =
     Inl (ParseFailed ''(A > 1 AND B > 2) OR C > 3''
           (ParseFailed ''(A > 1'' (InvalidFormat ''(A > 1'')))"
proof -
  have 1: "paren_depth ''(A > 1'' = 1" by (simp add: paren_depth_def)
  have 2: "py_split '' AND '' ''(A > 1 AND B > 2) OR C > 3'' = [''(A > 1'', ''B > 2) OR C > 3'']"
    by (simp add: py_split_def starts_with_def)
  have 3: "parse_condition_string example_format ''(A > 1 AND B > 2) OR C > 3'' =
     Inl (ParseFailed ''(A > 1 AND B > 2) OR C > 3''
           (ParseFailed ''(A > 1'' (InvalidFormat ''(A > 1'')))"
    by (simp add: parse_condition_string.simps [of _ "''(A > 1 AND B > 2) OR C > 3''"]
        parse_open_atom char_defs string_defs reraise_def)
  from 1 2 3 show ?thesis by simp
qed

theorem parser_behaviour_witness:
  "parse_condition_string example_format ''RSI >> 30'' =
     Inl (ParseFailed ''RSI >> 30'' (InvalidFormat ''RSI >> 30'')) \<and>
   \<not> starts_with ''NOT '' (strip '' RSI_14 > 30 AND MACD <= 0 '') \<and>
   \<not> (starts_with ''('' (strip '' RSI_14 > 30 AND MACD <= 0 '') \<and>
      ends_with '')'' (strip '' RSI_14 > 30 AND MACD <= 0 '')) \<and>
   contains '' AND '' (strip '' RSI_14 > 30 AND MACD <= 0 '') \<and>
   parse_condition_string example_format '' RSI_14 > 30 AND MACD <= 0 '' =
     Inr (LogicCondition AND
           [NumericCompareCondition ''RSI_14'' GREATER_THAN (Fin 30) ''RSI_14 > 30.0'',
            NumericCompareCondition ''MACD'' LESS_EQUAL (Fin 0) ''MACD <= 0.0'']
           ''RSI_14 > 30.0 AND MACD <= 0.0'') \<and>
   starts_with ''NOT '' (strip ''NOT (RSI_14 > 30)'') \<and>
   starts_with ''('' (strip ''(RSI_14 > 30)'') \<and> ends_with '')'' (strip ''(RSI_14 > 30)'') \<and>
   parse_condition_string example_format ''NOT (RSI_14 > 30)'' =
     Inr (LogicCondition NOT
           [NumericCompareCondition ''RSI_14'' GREATER_THAN (Fin 30) ''RSI_14 > 30.0'']
           ''RSI_14 > 30.0'') \<and>
   list_all is_word ''RSI_14'' \<and> list_all is_space '' '' \<and> list_all is_value_char ''30'' \<and>
   py_float ''30'' = Some 30 \<and>
   parse_numeric_condition example_format ''RSI_14 >=30'' =
     Inr (NumericCompareCondition ''RSI_14'' GREATER_EQUAL (Fin 30) ''RSI_14 >= 30.0'')"
proof -
  let ?s = "'' RSI_14 > 30 AND MACD <= 0 ''"
  have st: "strip ?s = ''RSI_14 > 30 AND MACD <= 0''"
    by (simp add: strip_def is_space_def)
  have hyp: "\<not> starts_with ''NOT '' (strip ?s) \<and>
    \<not> (starts_with ''('' (strip ?s) \<and> ends_with '')'' (strip ?s)) \<and>
    contains '' AND '' (strip ?s)"
    unfolding st by (simp add: starts_with_def ends_with_def)
  have parts: "py_split '' AND '' ''RSI_14 > 30 AND MACD <= 0'' = [''RSI_14 > 30'', ''MACD <= 0'']"
    by (simp add: py_split_def starts_with_def)
  have strips: "strip ''RSI_14 > 30'' = ''RSI_14 > 30''" "strip ''MACD <= 0'' = ''MACD <= 0''"
    by (simp_all add: strip_def is_space_def)
  from parser_behaviour [of example_format ?s] hyp
  have "parse_condition_string example_format ?s =
        reraise (strip ?s)
          (case collect (map (\<lambda>p. parse_condition_string example_format (strip p))
                           (py_split '' AND '' (strip ?s))) of
             Inl e \<Rightarrow> Inl e
           | Inr conditions \<Rightarrow> Inr (logic_condition AND conditions))"
    by blast
  then have conj: "parse_condition_string example_format ?s =
     Inr (LogicCondition AND
           [NumericCompareCondition ''RSI_14'' GREATER_THAN (Fin 30) ''RSI_14 > 30.0'',
            NumericCompareCondition ''MACD'' LESS_EQUAL (Fin 0) ''MACD <= 0.0'']
           ''RSI_14 > 30.0 AND MACD <= 0.0'')"
    unfolding st parts by (simp add: strips parse_rsi parse_macd reraise_def logic_condition_def)
  have bad: "parse_condition_string example_format ''RSI >> 30'' =
     Inl (ParseFailed ''RSI >> 30'' (InvalidFormat ''RSI >> 30''))"
    by (simp add: parse_condition_string.simps [of _ "''RSI >> 30''"] char_defs string_defs parse_defs)
  have atom_hyp: "''RSI_14'' \<noteq> [] \<and> list_all is_word ''RSI_14'' \<and> list_all is_space '' '' \<and>
     list_all is_space [] \<and> ''30'' \<noteq> [] \<and> list_all is_value_char ''30'' \<and> py_float ''30'' = Some 30"
    by (simp add: char_defs py_float_def unsigned_float_def digits_value_def starts_with_def)
  from parser_behaviour [of example_format _ _ "''RSI_14''" "'' ''" "[]" "''30''" 30 GREATER_EQUAL]
       atom_hyp
  have "parse_numeric_condition example_format
          (''RSI_14'' @ '' '' @ operator_value GREATER_EQUAL @ [] @ ''30'') =
        Inr (NumericCompareCondition ''RSI_14'' GREATER_EQUAL (Fin 30)
               (''RSI_14'' @ '' '' @ operator_value GREATER_EQUAL @ '' '' @ example_format (Fin 30)))"
    by blast
  then have atom: "parse_numeric_condition example_format ''RSI_14 >=30'' =
     Inr (NumericCompareCondition ''RSI_14'' GREATER_EQUAL (Fin 30) ''RSI_14 >= 30.0'')"
    by (simp add: example_format_def)
  have nhyp: "starts_with ''NOT '' (strip ''NOT (RSI_14 > 30)'')"
    and phyp: "\<not> starts_with ''NOT '' (strip ''(RSI_14 > 30)'') \<and>
      starts_with ''('' (strip ''(RSI_14 > 30)'') \<and> ends_with '')'' (strip ''(RSI_14 > 30)'')"
    by (simp_all add: strip_def is_space_def starts_with_def ends_with_def)
  from parser_behaviour [of example_format "''(RSI_14 > 30)''"] phyp
  have "parse_condition_string example_format ''(RSI_14 > 30)'' =
        reraise (strip ''(RSI_14 > 30)'')
          (parse_condition_string example_format (strip (butlast (tl (strip ''(RSI_14 > 30)'')))))"
    by blast
  then have paren: "parse_condition_string example_format ''(RSI_14 > 30)'' =
     Inr (NumericCompareCondition ''RSI_14'' GREATER_THAN (Fin 30) ''RSI_14 > 30.0'')"
    by (simp add: strip_def is_space_def parse_rsi reraise_def)
  from parser_behaviour [of example_format "''NOT (RSI_14 > 30)''"] nhyp
  have "parse_condition_string example_format ''NOT (RSI_14 > 30)'' =
        reraise (strip ''NOT (RSI_14 > 30)'')
          (case parse_condition_string example_format
                  (strip (drop 4 (strip ''NOT (RSI_14 > 30)''))) of
             Inl e \<Rightarrow> Inl e
           | Inr c \<Rightarrow> Inr (logic_condition NOT [c]))"
    by blast
  then have neg: "parse_condition_string example_format ''NOT (RSI_14 > 30)'' =
     Inr (LogicCondition NOT
           [NumericCompareCondition ''RSI_14'' GREATER_THAN (Fin 30) ''RSI_14 > 30.0'']
           ''RSI_14 > 30.0'')"
    by (simp add: strip_def is_space_def paren reraise_def logic_condition_def)
  show ?thesis
    using bad hyp conj atom atom_hyp nhyp phyp neg by simp
qed

end
